(* ===== verification/Prelude.thy ===== *)
theory Prelude
  imports Main "HOL-Library.Word" "HOL-Library.Sublist" "HOL-Library.Char_ord"
    "HOL-Library.List_Lexorder" "HOL-Library.Multiset"
begin

text \<open>
  The vocabulary shared by all components.

  Rust's byte strings, \<open>String\<close>/\<open>&str\<close>, \<open>OsStr\<close> and \<open>Vec<u8>\<close> are all sequences of bytes.
  Isabelle's \<^typ>\<open>char\<close> is an eight bit value, so all of them are \<^typ>\<open>string\<close> here and
  \<open>bytes\<close> is a synonym. Machine integers keep their width as words. A Rust function that can
  return an \<open>Err\<close> and can also panic has an \<open>outcome\<close> as its result.

  The theory holds the outcome type with its sequencing operators, the number formats the code
  prints and parses (decimal, hexadecimal), the string functions of the Rust standard library
  the code calls (split, split-once, trim-end, prefix and suffix tests), UTF-8 validity, and the
  generic list lemmas.
\<close>

named_theorems outcome_simps \<open>rewriting with sequenced outcomes\<close>

type_synonym bytes = string
type_synonym u8 = "8 word"
type_synonym u16 = "16 word"
type_synonym u32 = "32 word"
type_synonym u64 = "64 word"
type_synonym usize = "64 word"

subsection \<open>Outcomes\<close>

datatype ('a, 'e) outcome = Ok 'a | Err 'e | Panic

fun and_then :: "('a, 'e) outcome \<Rightarrow> ('a \<Rightarrow> ('b, 'e) outcome) \<Rightarrow> ('b, 'e) outcome" where
  "and_then (Ok a) f = f a"
| "and_then (Err e) f = Err e"
| "and_then Panic f = Panic"

fun is_ok :: "('a, 'e) outcome \<Rightarrow> bool" where
  "is_ok (Ok _) = True"
| "is_ok _ = False"

fun the_ok :: "('a, 'e) outcome \<Rightarrow> 'a" where
  "the_ok (Ok a) = a"

definition ok_or :: "'e \<Rightarrow> 'a option \<Rightarrow> ('a, 'e) outcome" where
  "ok_or e x = (case x of None \<Rightarrow> Err e | Some a \<Rightarrow> Ok a)"

definition expect :: "'a option \<Rightarrow> ('a, 'e) outcome" where
  "expect x = (case x of None \<Rightarrow> Panic | Some a \<Rightarrow> Ok a)"

fun map_err :: "('e \<Rightarrow> 'f) \<Rightarrow> ('a, 'e) outcome \<Rightarrow> ('a, 'f) outcome" where
  "map_err f (Ok a) = Ok a"
| "map_err f (Err e) = Err (f e)"
| "map_err f Panic = Panic"

text \<open>\<open>collect::<Result<Vec<_>>>()\<close>: the first error ends the iteration.\<close>

fun collect_ok :: "('a \<Rightarrow> ('b, 'e) outcome) \<Rightarrow> 'a list \<Rightarrow> ('b list, 'e) outcome" where
  "collect_ok f [] = Ok []"
| "collect_ok f (x # xs) = and_then (f x) (\<lambda>y. and_then (collect_ok f xs) (\<lambda>ys. Ok (y # ys)))"

lemma and_then_eq_Ok [outcome_simps]: "and_then m f = Ok b \<longleftrightarrow> (\<exists>a. m = Ok a \<and> f a = Ok b)"
  by (cases m) auto

lemma and_then_eq_Err [outcome_simps]:
  "and_then m f = Err e \<longleftrightarrow> m = Err e \<or> (\<exists>a. m = Ok a \<and> f a = Err e)"
  by (cases m) auto

lemma and_then_eq_Panic [outcome_simps]:
  "and_then m f = Panic \<longleftrightarrow> m = Panic \<or> (\<exists>a. m = Ok a \<and> f a = Panic)"
  by (cases m) auto

lemma and_then_assoc: "and_then (and_then m f) g = and_then m (\<lambda>a. and_then (f a) g)"
  by (cases m) auto

lemma is_ok_iff [outcome_simps]: "is_ok m \<longleftrightarrow> (\<exists>a. m = Ok a)"
  by (cases m) auto

lemma ok_or_eq [outcome_simps]:
  "ok_or e x = Ok a \<longleftrightarrow> x = Some a" "ok_or e x = Err f \<longleftrightarrow> x = None \<and> f = e" "ok_or e x \<noteq> Panic"
  by (auto simp: ok_or_def split: option.splits)

lemma expect_eq [outcome_simps]:
  "expect x = Ok a \<longleftrightarrow> x = Some a" "expect x \<noteq> Err e" "expect x = Panic \<longleftrightarrow> x = None"
  by (auto simp: expect_def split: option.splits)

lemma ok_or_simps [simp]: "ok_or e None = Err e" "ok_or e (Some a) = Ok a"
  by (simp_all add: ok_or_def)

lemma expect_simps [simp]: "expect None = Panic" "expect (Some a) = Ok a"
  by (simp_all add: expect_def)

lemma map_err_eq [outcome_simps]:
  "map_err f m = Ok a \<longleftrightarrow> m = Ok a"
  "map_err f m = Err e \<longleftrightarrow> (\<exists>d. m = Err d \<and> e = f d)"
  "map_err f m = Panic \<longleftrightarrow> m = Panic"
  by (cases m; auto)+

lemma collect_ok_length: "collect_ok f xs = Ok ys \<Longrightarrow> length ys = length xs"
  by (induction xs arbitrary: ys) (auto simp: outcome_simps)

lemma collect_ok_iff: "collect_ok f xs = Ok ys \<longleftrightarrow> list_all2 (\<lambda>x y. f x = Ok y) xs ys"
proof (induction xs arbitrary: ys)
  case (Cons x xs)
  then show ?case by (cases ys) (auto simp: outcome_simps)
qed auto

subsection \<open>Positional notation\<close>

fun digits_of :: "nat \<Rightarrow> nat \<Rightarrow> nat list" where
  "digits_of b n = (if n < b \<or> b < 2 then [n] else digits_of b (n div b) @ [n mod b])"

declare digits_of.simps [simp del]

definition of_digits :: "nat \<Rightarrow> nat list \<Rightarrow> nat" where
  "of_digits b ds = foldl (\<lambda>a d. a * b + d) 0 ds"

lemma of_digits_snoc [simp]: "of_digits b (ds @ [d]) = of_digits b ds * b + d"
  by (simp add: of_digits_def)

lemma of_digits_Nil [simp]: "of_digits b [] = 0"
  by (simp add: of_digits_def)

lemma of_digits_replicate_zero [simp]: "of_digits b (replicate k 0 @ ds) = of_digits b ds"
proof -
  have "foldl (\<lambda>a d. a * b + d) 0 (replicate k (0::nat)) = 0"
    by (induction k) auto
  then show ?thesis by (simp add: of_digits_def)
qed

lemma of_digits_digits_of: "2 \<le> b \<Longrightarrow> of_digits b (digits_of b n) = n"
proof (induction b n rule: digits_of.induct)
  case (1 b n)
  show ?case
  proof (cases "n < b")
    case True
    then show ?thesis by (simp add: digits_of.simps [of b n] of_digits_def)
  next
    case False
    with "1" show ?thesis by (simp add: digits_of.simps [of b n])
  qed
qed

lemma digits_of_less: "2 \<le> b \<Longrightarrow> d \<in> set (digits_of b n) \<Longrightarrow> d < b"
proof (induction b n rule: digits_of.induct)
  case (1 b n)
  then show ?case
    by (cases "n < b") (auto simp: digits_of.simps [of b n])
qed

lemma digits_of_nonempty [simp]: "digits_of b n \<noteq> []"
  by (subst digits_of.simps) simp

lemma length_digits_of_le:
  assumes "2 \<le> b" "0 < k" "n < b ^ k"
  shows "length (digits_of b n) \<le> k"
  using assms
proof (induction k arbitrary: n)
  case (Suc k)
  show ?case
  proof (cases "n < b")
    case True
    then show ?thesis by (simp add: digits_of.simps [of b n])
  next
    case False
    have "k \<noteq> 0" using False Suc.prems by (cases k) auto
    moreover have "n div b < b ^ k"
      using Suc.prems by (simp add: less_mult_imp_div_less mult.commute)
    ultimately have "length (digits_of b (n div b)) \<le> k"
      using Suc.IH Suc.prems(1) by simp
    with False Suc.prems(1) show ?thesis by (simp add: digits_of.simps [of b n])
  qed
qed simp

text \<open>Digits as lower-case characters, and back.\<close>

definition digit_char :: "nat \<Rightarrow> char" where
  "digit_char d = char_of (if d < 10 then 48 + d else 87 + d)"

definition digit_val :: "nat \<Rightarrow> char \<Rightarrow> nat option" where
  "digit_val b c =
     (let n = of_char c :: nat;
          v = (if 48 \<le> n \<and> n \<le> 57 then n - 48
               else if 97 \<le> n \<and> n \<le> 102 then n - 87
               else if 65 \<le> n \<and> n \<le> 70 then n - 55
               else b)
      in if v < b then Some v else None)"

lemma digit_val_digit_char: "d < b \<Longrightarrow> b \<le> 16 \<Longrightarrow> digit_val b (digit_char d) = Some d"
  by (auto simp: digit_val_def digit_char_def Let_def)

definition dec :: "nat \<Rightarrow> string" where
  "dec n = map digit_char (digits_of 10 n)"

definition hex :: "nat \<Rightarrow> string" where
  "hex n = map digit_char (digits_of 16 n)"

definition pad_zero :: "nat \<Rightarrow> string \<Rightarrow> string" where
  "pad_zero k s = replicate (k - length s) CHR ''0'' @ s"

fun parse_digits :: "nat \<Rightarrow> string \<Rightarrow> nat list option" where
  "parse_digits b [] = Some []"
| "parse_digits b (c # cs) =
     (case digit_val b c of None \<Rightarrow> None
      | Some d \<Rightarrow> map_option (Cons d) (parse_digits b cs))"

definition parse_radix :: "nat \<Rightarrow> string \<Rightarrow> nat option" where
  "parse_radix b s = (if s = [] then None else map_option (of_digits b) (parse_digits b s))"

lemma parse_digits_map:
  "b \<le> 16 \<Longrightarrow> (\<forall>d \<in> set ds. d < b) \<Longrightarrow> parse_digits b (map digit_char ds) = Some ds"
  by (induction ds) (auto simp: digit_val_digit_char)

lemma parse_radix_dec [simp]: "parse_radix 10 (dec n) = Some n"
  by (simp add: parse_radix_def dec_def parse_digits_map digits_of_less of_digits_digits_of)

lemma dec_inject [simp]: "dec m = dec n \<longleftrightarrow> m = n"
  by (metis option.inject parse_radix_dec)

lemma digit_char_zero: "CHR ''0'' = digit_char 0"
  by code_simp

lemma pad_zero_map: "pad_zero k (map digit_char ds) = map digit_char (replicate (k - length ds) 0 @ ds)"
  by (simp add: pad_zero_def digit_char_zero)

lemma parse_radix_pad_hex: "parse_radix 16 (pad_zero k (hex n)) = Some n"
proof -
  have "parse_digits 16 (pad_zero k (hex n)) = Some (replicate (k - length (digits_of 16 n)) 0 @ digits_of 16 n)"
    unfolding hex_def pad_zero_map
    by (rule parse_digits_map) (auto simp: digits_of_less)
  then show ?thesis
    by (simp add: parse_radix_def of_digits_digits_of pad_zero_def hex_def)
qed

lemma length_pad_hex: "0 < k \<Longrightarrow> n < 16 ^ k \<Longrightarrow> length (pad_zero k (hex n)) = k"
  using length_digits_of_le [of 16 k n] by (simp add: pad_zero_def hex_def)

lemma digit_char_dec_range:
  "d < 10 \<Longrightarrow> digit_char d \<in> set ''0123456789''"
proof -
  have "\<forall>d \<in> set [0..<10]. digit_char d \<in> set ''0123456789''"
    by code_simp
  then show "d < 10 \<Longrightarrow> digit_char d \<in> set ''0123456789''"
    by (simp del: set_simps upt_rec_numeral)
qed

lemma dec_chars: "c \<in> set (dec n) \<Longrightarrow> c \<in> set ''0123456789''"
  using digits_of_less [of 10] digit_char_dec_range by (auto simp: dec_def simp del: set_simps)

lemma dec_nonempty [simp]: "dec n \<noteq> []"
  by (simp add: dec_def)

subsection \<open>Parsing machine integers\<close>

text \<open>
  \<open>str::parse\<close> for an unsigned type of \<open>w\<close> bits: an optional \<open>+\<close>, then at least one decimal
  digit; a value that does not fit is an error. A leading \<open>-\<close> is an invalid digit.
\<close>

definition parse_unsigned :: "nat \<Rightarrow> string \<Rightarrow> nat option" where
  "parse_unsigned w s =
     (case parse_radix 10 (if s \<noteq> [] \<and> hd s = CHR ''+'' then tl s else s) of
        None \<Rightarrow> None
      | Some n \<Rightarrow> if n < 2 ^ w then Some n else None)"

text \<open>\<open>str::parse\<close> for a signed type: an optional \<open>+\<close> or \<open>-\<close>.\<close>

definition parse_signed :: "nat \<Rightarrow> string \<Rightarrow> int option" where
  "parse_signed w s =
     (if s \<noteq> [] \<and> hd s = CHR ''-''
      then (case parse_radix 10 (tl s) of None \<Rightarrow> None
            | Some n \<Rightarrow> if n \<le> 2 ^ (w - 1) then Some (- int n) else None)
      else (case parse_radix 10 (if s \<noteq> [] \<and> hd s = CHR ''+'' then tl s else s) of None \<Rightarrow> None
            | Some n \<Rightarrow> if n < 2 ^ (w - 1) then Some (int n) else None))"

text \<open>For evaluation the bounds are compared as binary integers.\<close>

lemma nat_less_power: "n < 2 ^ w \<longleftrightarrow> int n < 2 ^ w" and nat_le_power: "n \<le> 2 ^ w \<longleftrightarrow> int n \<le> 2 ^ w"
  by (metis of_nat_less_iff of_nat_numeral of_nat_power) (metis of_nat_le_iff of_nat_numeral of_nat_power)

declare parse_unsigned_def [unfolded nat_less_power, code]

declare parse_signed_def [unfolded nat_less_power nat_le_power, code]

lemma hd_dec_digit: "hd (dec n) \<in> set ''0123456789''"
  by (rule dec_chars [of _ n]) simp

lemma hd_dec_not_sign [simp]: "hd (dec n) \<noteq> CHR ''+''" "hd (dec n) \<noteq> CHR ''-''"
  using hd_dec_digit [of n] by auto

lemma parse_unsigned_dec [simp]: "n < 2 ^ w \<Longrightarrow> parse_unsigned w (dec n) = Some n"
  by (simp add: parse_unsigned_def)

lemma parse_unsigned_dec_overflow: "2 ^ w \<le> n \<Longrightarrow> parse_unsigned w (dec n) = None"
  by (simp add: parse_unsigned_def)

lemma parse_signed_dec [simp]: "n < 2 ^ (w - 1) \<Longrightarrow> parse_signed w (dec n) = Some (int n)"
  by (simp add: parse_signed_def)

lemma parse_unsigned_bound: "parse_unsigned w s = Some n \<Longrightarrow> n < 2 ^ w"
  by (auto simp: parse_unsigned_def split: option.splits if_splits)

lemma parse_signed_bound:
  assumes "parse_signed w s = Some i"
  shows "- (2 ^ (w - 1)) \<le> i \<and> i < 2 ^ (w - 1)"
proof -
  have "- int n \<ge> - (2 ^ k)" if "n \<le> 2 ^ k" for n k :: nat
    using that by (metis neg_le_iff_le of_nat_le_iff of_nat_numeral of_nat_power)
  moreover have "int n < 2 ^ k" if "n < 2 ^ k" for n k :: nat
    using that by (metis of_nat_less_iff of_nat_numeral of_nat_power)
  moreover have "- int n < 2 ^ k" for n k :: nat
    by (meson neg_le_0_iff_le of_nat_0_le_iff order_le_less_trans zero_less_numeral zero_less_power)
  moreover have "- (2 ^ k) \<le> int n" for n k :: nat
    by (meson neg_le_0_iff_le of_nat_0_le_iff order_trans zero_le_numeral zero_le_power)
  ultimately show ?thesis
    using assms by (auto simp: parse_signed_def split: option.splits if_splits)
qed

subsection \<open>Strings\<close>

definition starts_with :: "string \<Rightarrow> string \<Rightarrow> bool" where
  "starts_with s p \<longleftrightarrow> take (length p) s = p"

definition ends_with :: "string \<Rightarrow> string \<Rightarrow> bool" where
  "ends_with s p \<longleftrightarrow> length p \<le> length s \<and> drop (length s - length p) s = p"

definition replace_char :: "char \<Rightarrow> char \<Rightarrow> string \<Rightarrow> string" where
  "replace_char a b s = map (\<lambda>c. if c = a then b else c) s"

definition char_upper :: "char \<Rightarrow> char" where
  "char_upper c =
     (let n = of_char c :: nat in if 97 \<le> n \<and> n \<le> 122 then char_of (n - 32) else c)"

definition to_ascii_uppercase :: "string \<Rightarrow> string" where
  "to_ascii_uppercase s = map char_upper s"

definition is_ascii :: "string \<Rightarrow> bool" where
  "is_ascii s \<longleftrightarrow> list_all (\<lambda>c. (of_char c :: nat) < 128) s"

text \<open>\<open>split\<close> at every occurrence of a character, and the inverse \<open>join\<close>.\<close>

fun split_on :: "char \<Rightarrow> string \<Rightarrow> string list" where
  "split_on c [] = [[]]"
| "split_on c (x # xs) =
     (if x = c then [] # split_on c xs
      else (case split_on c xs of [] \<Rightarrow> [[x]] | y # ys \<Rightarrow> (x # y) # ys))"

fun join_with :: "string \<Rightarrow> string list \<Rightarrow> string" where
  "join_with sep [] = []"
| "join_with sep [x] = x"
| "join_with sep (x # y # ys) = x @ sep @ join_with sep (y # ys)"

text \<open>\<open>split_once\<close>: the text before and after the first occurrence of a pattern.\<close>

fun split_once :: "string \<Rightarrow> string \<Rightarrow> (string \<times> string) option" where
  "split_once pat [] = (if pat = [] then Some ([], []) else None)"
| "split_once pat (x # xs) =
     (if starts_with (x # xs) pat then Some ([], drop (length pat) (x # xs))
      else map_option (\<lambda>(a, b). (x # a, b)) (split_once pat xs))"

lemma starts_with_append [simp]: "starts_with (p @ s) p"
  by (simp add: starts_with_def)

lemma starts_with_iff: "starts_with s p \<longleftrightarrow> (\<exists>r. s = p @ r)"
  unfolding starts_with_def by (metis append_eq_conv_conj append_take_drop_id)

lemma ends_with_iff: "ends_with s p \<longleftrightarrow> (\<exists>r. s = r @ p)"
proof
  assume "ends_with s p"
  then show "\<exists>r. s = r @ p"
    unfolding ends_with_def by (metis append_take_drop_id)
qed (auto simp: ends_with_def)

lemma split_on_nonempty [simp]: "split_on c s \<noteq> []"
  by (cases s) (auto split: list.splits)

lemma split_on_sep_free: "x \<in> set (split_on c s) \<Longrightarrow> c \<notin> set x"
  by (induction s arbitrary: x) (auto split: list.splits if_splits)

lemma join_split_on: "join_with [c] (split_on c s) = s"
proof (induction s)
  case (Cons x xs)
  obtain y ys where ys: "split_on c xs = y # ys"
    by (meson list.exhaust split_on_nonempty)
  with Cons show ?case by (cases ys) auto
qed simp

lemma split_on_id: "c \<notin> set s \<Longrightarrow> split_on c s = [s]"
  by (induction s) auto

lemma split_on_append: "c \<notin> set a \<Longrightarrow> split_on c (a @ c # s) = a # split_on c s"
  by (induction a) auto

lemma split_on_join: "xs \<noteq> [] \<Longrightarrow> \<forall>x \<in> set xs. c \<notin> set x \<Longrightarrow> split_on c (join_with [c] xs) = xs"
  by (induction "[c]" xs rule: join_with.induct) (auto simp: split_on_id split_on_append)

lemma split_once_Some: "split_once pat s = Some (a, b) \<Longrightarrow> s = a @ pat @ b"
proof (induction s arbitrary: a b)
  case (Cons x xs)
  then show ?case by (auto simp: starts_with_iff split: if_splits)
qed (auto split: if_splits)

lemma split_once_char: "c \<notin> set a \<Longrightarrow> split_once [c] (a @ c # b) = Some (a, b)"
  by (induction a) (auto simp: starts_with_def)

lemma split_once_char_None: "c \<notin> set s \<Longrightarrow> split_once [c] s = None"
  by (induction s) (auto simp: starts_with_def)

lemma split_once_cons: "c \<notin> set a \<Longrightarrow> split_once (c # p) (a @ c # p @ b) = Some (a, b)"
  by (induction a) (auto simp: starts_with_def)

lemma split_once_cons_None: "c \<notin> set s \<Longrightarrow> split_once (c # p) s = None"
  by (induction s) (auto simp: starts_with_def)

lemma length_replace_char [simp]: "length (replace_char a b s) = length s"
  by (simp add: replace_char_def)

lemma replace_char_id: "a \<notin> set s \<Longrightarrow> replace_char a b s = s"
  by (induction s) (auto simp: replace_char_def)

lemma replace_char_inverse: "b \<notin> set s \<Longrightarrow> replace_char b a (replace_char a b s) = s"
  by (induction s) (auto simp: replace_char_def)

subsection \<open>Unicode white space at the end of a string\<close>

text \<open>
  \<open>trim_end\<close> removes characters with the Unicode property \<open>White_Space\<close>. On bytes, the
  character that ends a string takes one to three bytes; \<open>ws_len\<close> reads them from the
  reversed string and returns how many belong to a white space character.
\<close>

definition ws_len :: "bytes \<Rightarrow> nat" where
  "ws_len r =
     (case map (of_char :: char \<Rightarrow> nat) (take 3 r) of
        [] \<Rightarrow> 0
      | a # n \<Rightarrow>
          if 9 \<le> a \<and> a \<le> 13 \<or> a = 32 then 1
          else (case n of
                  [] \<Rightarrow> 0
                | b # m \<Rightarrow>
                    if b = 0xC2 \<and> (a = 0x85 \<or> a = 0xA0) then 2
                    else (case m of
                            [] \<Rightarrow> 0
                          | c # _ \<Rightarrow>
                              if c = 0xE2 \<and> b = 0x80 \<and>
                                   (0x80 \<le> a \<and> a \<le> 0x8A \<or> a = 0xA8 \<or> a = 0xA9 \<or> a = 0xAF) \<or>
                                 c = 0xE2 \<and> b = 0x81 \<and> a = 0x9F \<or>
                                 c = 0xE1 \<and> b = 0x9A \<and> a = 0x80 \<or>
                                 c = 0xE3 \<and> b = 0x80 \<and> a = 0x80
                              then 3 else 0)))"

lemma ws_len_Nil [simp]: "ws_len [] = 0"
  by (simp add: ws_len_def)

function trim_rev :: "bytes \<Rightarrow> bytes" where
  "trim_rev r = (if ws_len r = 0 then r else trim_rev (drop (ws_len r) r))"
  by pat_completeness auto
termination
proof (relation "measure length")
  fix r :: bytes
  assume "ws_len r \<noteq> 0"
  then have "r \<noteq> []" by auto
  with \<open>ws_len r \<noteq> 0\<close> show "(drop (ws_len r) r, r) \<in> measure length" by simp
qed simp

declare trim_rev.simps [simp del]

definition trim_end :: "string \<Rightarrow> string" where
  "trim_end s = rev (trim_rev (rev s))"

lemma trim_end_id: "ws_len (rev s) = 0 \<Longrightarrow> trim_end s = s"
  by (simp add: trim_end_def trim_rev.simps [of "rev s"])

lemma ws_len_trim_rev: "ws_len (trim_rev r) = 0"
proof (induction r rule: trim_rev.induct)
  case (1 r)
  then show ?case
    by (cases "ws_len r = 0") (simp_all add: trim_rev.simps [of r])
qed

lemma trim_end_idem [simp]: "trim_end (trim_end s) = trim_end s"
  by (rule trim_end_id) (simp add: trim_end_def ws_len_trim_rev)

lemma trim_rev_suffix: "\<exists>d. r = d @ trim_rev r"
proof (induction r rule: trim_rev.induct)
  case (1 r)
  show ?case
  proof (cases "ws_len r = 0")
    case False
    with "1" obtain d where "drop (ws_len r) r = d @ trim_rev r"
      by (auto simp: trim_rev.simps [of r])
    then have "r = (take (ws_len r) r @ d) @ trim_rev r"
      by (metis append.assoc append_take_drop_id)
    then show ?thesis by blast
  qed (simp add: trim_rev.simps [of r])
qed

lemma trim_end_prefix: "\<exists>d. s = trim_end s @ d"
proof -
  obtain d where "rev s = d @ trim_rev (rev s)"
    using trim_rev_suffix by blast
  then have "s = trim_end s @ rev d"
    unfolding trim_end_def by (metis rev_append rev_rev_ident)
  then show ?thesis by blast
qed

subsection \<open>UTF-8 validity\<close>

definition utf8_cont :: "nat \<Rightarrow> nat \<Rightarrow> char \<Rightarrow> bool" where
  "utf8_cont lo hi c \<longleftrightarrow> lo \<le> (of_char c :: nat) \<and> (of_char c :: nat) \<le> hi"

fun utf8_valid :: "bytes \<Rightarrow> bool" where
  "utf8_valid [] = True"
| "utf8_valid (a # s) =
     (let n = of_char a :: nat in
      if n < 0x80 then utf8_valid s
      else (case s of
              [] \<Rightarrow> False
            | b # s \<Rightarrow>
                if 0xC2 \<le> n \<and> n \<le> 0xDF then utf8_cont 0x80 0xBF b \<and> utf8_valid s
                else (case s of
                        [] \<Rightarrow> False
                      | c # s \<Rightarrow>
                          if 0xE0 \<le> n \<and> n \<le> 0xEF
                          then utf8_cont (if n = 0xE0 then 0xA0 else 0x80)
                                         (if n = 0xED then 0x9F else 0xBF) b \<and>
                               utf8_cont 0x80 0xBF c \<and> utf8_valid s
                          else (case s of
                                  [] \<Rightarrow> False
                                | d # s \<Rightarrow>
                                    0xF0 \<le> n \<and> n \<le> 0xF4 \<and>
                                    utf8_cont (if n = 0xF0 then 0x90 else 0x80)
                                              (if n = 0xF4 then 0x8F else 0xBF) b \<and>
                                    utf8_cont 0x80 0xBF c \<and> utf8_cont 0x80 0xBF d \<and>
                                    utf8_valid s))))"

lemma ascii_utf8_valid: "is_ascii s \<Longrightarrow> utf8_valid s"
  by (induction s) (auto simp: is_ascii_def)

text \<open>Little-endian bytes of an unsigned value (\<open>to_le_bytes\<close>).\<close>

fun le_bytes :: "nat \<Rightarrow> nat \<Rightarrow> bytes" where
  "le_bytes 0 n = []"
| "le_bytes (Suc k) n = char_of (n mod 256) # le_bytes k (n div 256)"

fun of_le_bytes :: "bytes \<Rightarrow> nat" where
  "of_le_bytes [] = 0"
| "of_le_bytes (b # bs) = of_char b + 256 * of_le_bytes bs"

lemma length_le_bytes [simp]: "length (le_bytes k n) = k"
  by (induction k arbitrary: n) auto

lemma of_le_bytes_le_bytes: "n < 256 ^ k \<Longrightarrow> of_le_bytes (le_bytes k n) = n"
proof (induction k arbitrary: n)
  case (Suc k)
  then have "n div 256 < 256 ^ k"
    by (simp add: less_mult_imp_div_less mult.commute)
  with Suc show ?case by simp
qed simp

lemma unat_ucast_u32 [simp]: "unat (ucast (w :: u32) :: usize) = unat w"
  by transfer (simp add: take_bit_take_bit min_def)

subsection \<open>Section tables\<close>

text \<open>An entry of the section table as the PE parser returns it to both programs.\<close>

record section_table =
  sec_name :: "string option"
  virtual_size :: u32
  virtual_address :: u32
  size_of_raw_data :: u32
  pointer_to_raw_data :: u32

end
