(* ===== verification/Rust_Path.thy ===== *)
theory Rust_Path
  imports Prelude
begin

text \<open>
  Paths of the Rust standard library, as far as the installer uses them.

  A path is the list of its components (\<open>Path::components\<close>), which is also what Rust compares and
  hashes: separators are not repeated, \<open>.\<close> is dropped except at the very start, and an absolute
  path starts with the component \<open>/\<close>.
\<close>

type_synonym path = "string list"

definition path_of :: "string \<Rightarrow> path" where
  "path_of s =
     (let parts = split_on CHR ''/'' s
      in (if hd parts = [] \<and> s \<noteq> [] then [''/'']
          else if hd parts = ''.'' then [''.''] else []) @
         filter (\<lambda>c. c \<noteq> [] \<and> c \<noteq> ''.'') parts)"

definition is_absolute :: "path \<Rightarrow> bool" where
  "is_absolute p \<longleftrightarrow> p \<noteq> [] \<and> hd p = ''/''"

definition path_join :: "path \<Rightarrow> string \<Rightarrow> path" where
  "path_join p s =
     (let q = path_of s
      in if is_absolute q then q
         else if p = [] then q else p @ filter (\<lambda>c. c \<noteq> ''.'') q)"

definition path_parent :: "path \<Rightarrow> path option" where
  "path_parent p = (if p = [] \<or> p = [''/''] then None else Some (butlast p))"

definition path_file_name :: "path \<Rightarrow> string option" where
  "path_file_name p =
     (if p = [] \<or> last p = ''/'' \<or> last p = ''.'' \<or> last p = ''..'' then None else Some (last p))"

definition path_strip_prefix :: "path \<Rightarrow> path \<Rightarrow> path option" where
  "path_strip_prefix p base =
     (if take (length base) p = base then Some (drop (length base) p) else None)"

definition path_display :: "path \<Rightarrow> string" where
  "path_display p =
     (if is_absolute p then CHR ''/'' # join_with ''/'' (tl p) else join_with ''/'' p)"

definition path_to_str :: "path \<Rightarrow> string option" where
  "path_to_str p = (if utf8_valid (path_display p) then Some (path_display p) else None)"

text \<open>The part of a file name before its last dot, unless that dot is the first character.\<close>

definition file_stem :: "string \<Rightarrow> string" where
  "file_stem n =
     (let parts = split_on CHR ''.'' n; front = join_with ''.'' (butlast parts)
      in if n = ''..'' \<or> length parts = 1 \<or> front = [] then n else front)"

definition with_extension :: "path \<Rightarrow> string \<Rightarrow> path" where
  "with_extension p ext =
     (case path_file_name p of
        None \<Rightarrow> p
      | Some n \<Rightarrow> butlast p @ [file_stem n @ (if ext = [] then [] else CHR ''.'' # ext)])"

subsection \<open>Joining plain names\<close>

definition plain_name :: "string \<Rightarrow> bool" where
  "plain_name s \<longleftrightarrow> s \<noteq> [] \<and> s \<noteq> ''.'' \<and> s \<noteq> ''..'' \<and> CHR ''/'' \<notin> set s"

lemma path_of_plain: "plain_name s \<Longrightarrow> path_of s = [s]"
  by (simp add: path_of_def plain_name_def split_on_id)

lemma path_join_plain [simp]: "plain_name s \<Longrightarrow> path_join p s = p @ [s]"
  by (auto simp: path_join_def path_of_plain is_absolute_def plain_name_def Let_def)

lemma path_file_name_snoc [simp]: "plain_name s \<Longrightarrow> path_file_name (p @ [s]) = Some s"
  by (auto simp: path_file_name_def plain_name_def)

lemma path_parent_snoc [simp]: "plain_name s \<Longrightarrow> path_parent (p @ [s]) = Some p"
  by (auto simp: path_parent_def plain_name_def)

lemma path_strip_prefix_append [simp]: "path_strip_prefix (p @ q) p = Some q"
  by (simp add: path_strip_prefix_def)

lemma path_strip_prefix_Some: "path_strip_prefix p base = Some q \<longleftrightarrow> p = base @ q"
  unfolding path_strip_prefix_def by (auto, metis append_take_drop_id)

lemma with_extension_neq:
  assumes "path_file_name p = Some n" "ends_with n ''.efi'' \<or> ends_with n ''.EFI'' \<or> ends_with n ''.conf''"
  shows "with_extension p ''.tmp'' \<noteq> p"
proof
  assume eq: "with_extension p ''.tmp'' = p"
  have p: "p = butlast p @ [n]"
    using assms(1) by (auto simp: path_file_name_def split: if_splits)
  have "butlast p @ [file_stem n @ ''..tmp''] = butlast p @ [n]"
    using eq p assms(1) by (simp add: with_extension_def)
  then have "n = file_stem n @ ''..tmp''" by simp
  then have "last n = CHR ''p''" by (metis last_appendR last.simps list.distinct(1))
  with assms(2) show False by (auto simp: ends_with_iff)
qed

lemma join_with_snoc: "xs \<noteq> [] \<Longrightarrow> join_with sep (xs @ [y]) = join_with sep xs @ sep @ y"
  by (induction sep xs rule: join_with.induct) auto

lemma file_stem_prefix: "\<exists>r. n = file_stem n @ r"
proof (cases "n = ''..'' \<or> length (split_on CHR ''.'' n) = 1 \<or> join_with ''.'' (butlast (split_on CHR ''.'' n)) = []")
  case False
  let ?ps = "split_on CHR ''.'' n"
  have "?ps = butlast ?ps @ [last ?ps]" by simp
  moreover have "butlast ?ps \<noteq> []"
    using False by (metis append_self_conv2 calculation length_Cons list.size(3) One_nat_def)
  ultimately have "join_with ''.'' ?ps = join_with ''.'' (butlast ?ps) @ ''.'' @ last ?ps"
    by (metis join_with_snoc)
  then have "n = file_stem n @ ''.'' @ last ?ps"
    using False by (simp add: join_split_on file_stem_def)
  then show ?thesis by blast
qed (auto simp: file_stem_def)

lemma with_extension_tmp:
  assumes "path_file_name p = Some n"
  shows "with_extension p ''.tmp'' = butlast p @ [file_stem n @ ''..tmp'']"
  using assms by (simp add: with_extension_def)

end
