(* ===== verification/File_System.thy ===== *)
theory File_System
  imports Rust_Path "HOL-Library.AList"
begin

text \<open>
  The file system of the machine that runs the installer, and the calls of \<open>std::fs\<close> the installer
  makes.

  A file system is an association list from paths to nodes; its order is the (unspecified) order
  in which directories are listed. Every call is one system call of the model: it may be hit by an
  injected fault, and the resulting file system is appended to a history, so that theorems can
  speak about all intermediate states, which are the states a crash can leave behind. A fault is a
  positive number; for a write it says how many bytes reached the disk before the error.
\<close>

subsection \<open>Nodes and stores\<close>

datatype node = Dir | File bytes u32

type_synonym fs = "(path \<times> node) list"

definition fs_get :: "fs \<Rightarrow> path \<Rightarrow> node option" where
  "fs_get s p = map_of s p"

definition fs_put :: "path \<Rightarrow> node \<Rightarrow> fs \<Rightarrow> fs" where
  "fs_put p n s = AList.update p n s"

definition fs_del :: "path \<Rightarrow> fs \<Rightarrow> fs" where
  "fs_del p s = AList.delete p s"

definition fs_prune :: "(path \<Rightarrow> bool) \<Rightarrow> fs \<Rightarrow> fs" where
  "fs_prune P s = filter (\<lambda>(q, _). \<not> P q) s"

text \<open>The interface the file operations rely on.\<close>

locale node_store =
  fixes get :: "'s \<Rightarrow> path \<Rightarrow> node option"
    and put :: "path \<Rightarrow> node \<Rightarrow> 's \<Rightarrow> 's"
    and del :: "path \<Rightarrow> 's \<Rightarrow> 's"
    and prune :: "(path \<Rightarrow> bool) \<Rightarrow> 's \<Rightarrow> 's"
  assumes get_put: "get (put p n s) q = (if q = p then Some n else get s q)"
    and get_del: "get (del p s) q = (if q = p then None else get s q)"
    and get_prune: "get (prune P s) q = (if P q then None else get s q)"
begin

lemma get_move: "get (put b n (del a s)) q = (if q = b then Some n else if q = a then None else get s q)"
  by (simp add: get_put get_del)

lemma get_put_put: "get (put p n (put p m s)) q = get (put p n s) q"
  by (simp add: get_put)

lemma get_prune_put: "\<not> P p \<Longrightarrow> get (prune P (put p n s)) q = get (put p n (prune P s)) q"
  by (simp add: get_put get_prune)

lemma get_prune_prune: "get (prune P (prune Q s)) q = get (prune (\<lambda>r. P r \<or> Q r) s) q"
  by (simp add: get_prune)

end

lemma fs_get_prune: "fs_get (fs_prune P s) q = (if P q then None else fs_get s q)"
  unfolding fs_get_def fs_prune_def by (induction s) auto

interpretation store: node_store fs_get fs_put fs_del fs_prune
  by unfold_locales
    (auto simp: fs_get_def fs_put_def fs_del_def update_conv' delete_conv' fs_get_prune [unfolded fs_get_def])

lemmas fs_simps [simp] = store.get_put store.get_del store.get_prune

definition is_dir :: "fs \<Rightarrow> path \<Rightarrow> bool" where
  "is_dir s p \<longleftrightarrow> p = [] \<or> p = [''/''] \<or> fs_get s p = Some Dir"

definition present :: "fs \<Rightarrow> path \<Rightarrow> bool" where
  "present s p \<longleftrightarrow> is_dir s p \<or> fs_get s p \<noteq> None"

text \<open>The names listed in a directory.\<close>

definition dir_entries :: "fs \<Rightarrow> path \<Rightarrow> string list" where
  "dir_entries s p = map (last \<circ> fst) (filter (\<lambda>(q, _). q \<noteq> [] \<and> butlast q = p) s)"

lemma dir_entries_iff: "n \<in> set (dir_entries s p) \<longleftrightarrow> fs_get s (p @ [n]) \<noteq> None"
proof -
  have "(\<exists>q m. (q, m) \<in> set s \<and> q \<noteq> [] \<and> butlast q = p \<and> last q = n) \<longleftrightarrow> p @ [n] \<in> fst ` set s"
    by (force simp: image_iff) 
  then show ?thesis
    by (auto simp: dir_entries_def fs_get_def map_of_eq_None_iff image_iff)
qed

subsection \<open>Computations over the world\<close>

datatype error = Io | Msg string

record world =
  files :: fs
  history :: "fs list"
  faults :: "nat list"
  draws :: nat

type_synonym 'a io = "world \<Rightarrow> ('a, error) outcome \<times> world"

definition ret :: "'a \<Rightarrow> 'a io" where
  "ret a w = (Ok a, w)"

definition fail :: "error \<Rightarrow> 'a io" where
  "fail e w = (Err e, w)"

definition panic :: "'a io" where
  "panic w = (Panic, w)"

definition lift :: "('a, error) outcome \<Rightarrow> 'a io" where
  "lift r w = (r, w)"

definition bind_io :: "'a io \<Rightarrow> ('a \<Rightarrow> 'b io) \<Rightarrow> 'b io" where
  "bind_io m f w =
     (case m w of
        (Ok a, w') \<Rightarrow> f a w'
      | (Err e, w') \<Rightarrow> (Err e, w')
      | (Panic, w') \<Rightarrow> (Panic, w'))"

text \<open>\<open>.ok()\<close> and its kin: run a computation and go on with its result; only a panic ends the run.\<close>

definition try_io :: "'a io \<Rightarrow> ('a, error) outcome io" where
  "try_io m w = (case m w of (Panic, w') \<Rightarrow> (Panic, w') | (r, w') \<Rightarrow> (Ok r, w'))"

definition syscall :: "(nat \<Rightarrow> fs \<Rightarrow> ('a, error) outcome \<times> fs) \<Rightarrow> 'a io" where
  "syscall f w =
     (let k = (case faults w of [] \<Rightarrow> 0 | k # _ \<Rightarrow> k);
          (r, s) = f k (files w)
      in (r, w\<lparr>files := s, history := history w @ [s], faults := tl (faults w)\<rparr>))"

fun seq_io :: "('a \<Rightarrow> unit io) \<Rightarrow> 'a list \<Rightarrow> unit io" where
  "seq_io f [] = ret ()"
| "seq_io f (x # xs) = bind_io (f x) (\<lambda>_. seq_io f xs)"

subsection \<open>System calls\<close>

definition parent_ok :: "fs \<Rightarrow> path \<Rightarrow> bool" where
  "parent_ok s p \<longleftrightarrow> p \<noteq> [] \<and> is_dir s (butlast p)"

definition io_exists :: "path \<Rightarrow> bool io" where
  "io_exists p = syscall (\<lambda>k s. (Ok (k = 0 \<and> present s p), s))"

definition io_is_dir :: "path \<Rightarrow> bool io" where
  "io_is_dir p = syscall (\<lambda>k s. (Ok (k = 0 \<and> is_dir s p), s))"

definition io_read :: "path \<Rightarrow> bytes io" where
  "io_read p =
     syscall (\<lambda>k s. (if k \<noteq> 0 then Err Io
                     else case fs_get s p of Some (File d _) \<Rightarrow> Ok d | _ \<Rightarrow> Err Io, s))"

definition io_read_dir :: "path \<Rightarrow> string list io" where
  "io_read_dir p =
     syscall (\<lambda>k s. (if k = 0 \<and> is_dir s p then Ok (dir_entries s p) else Err Io, s))"

text \<open>\<open>File::create\<close>: an existing file is truncated and keeps its mode.\<close>

definition io_create :: "u32 \<Rightarrow> path \<Rightarrow> unit io" where
  "io_create m p =
     syscall (\<lambda>k s. if k \<noteq> 0 \<or> \<not> parent_ok s p \<or> is_dir s p then (Err Io, s)
                    else (Ok (), fs_put p (File [] (case fs_get s p of Some (File _ m') \<Rightarrow> m' | _ \<Rightarrow> m)) s))"

text \<open>Writing the whole of a freshly created file; a fault leaves a part of the data.\<close>

definition io_write_all :: "path \<Rightarrow> bytes \<Rightarrow> unit io" where
  "io_write_all p d =
     syscall (\<lambda>k s. case fs_get s p of
                      Some (File _ m) \<Rightarrow>
                        if k \<noteq> 0 then (Err Io, fs_put p (File (take (k - 1) d) m) s)
                        else (Ok (), fs_put p (File d m) s)
                    | _ \<Rightarrow> (Err Io, s))"

definition io_sync :: "unit io" where
  "io_sync = syscall (\<lambda>k s. (if k \<noteq> 0 then Err Io else Ok (), s))"

text \<open>
  \<open>rename\<close> replaces the target in one step. A directory takes its contents along; it can only
  replace an empty directory and cannot move below itself.
\<close>

definition io_rename :: "path \<Rightarrow> path \<Rightarrow> unit io" where
  "io_rename a b =
     syscall (\<lambda>k s.
       if k \<noteq> 0 \<or> \<not> parent_ok s b then (Err Io, s)
       else case fs_get s a of
              None \<Rightarrow> (Err Io, s)
            | Some (File d m) \<Rightarrow>
                if is_dir s b then (Err Io, s)
                else if a = b then (Ok (), s)
                else (Ok (), fs_put b (File d m) (fs_del a s))
            | Some Dir \<Rightarrow>
                if a = b then (Ok (), s)
                else if take (length a) b = a \<or> list_ex (\<lambda>(q, _). q \<noteq> b \<and> take (length b) q = b) s \<or>
                        (fs_get s b \<noteq> None \<and> \<not> is_dir s b)
                then (Err Io, s)
                else (Ok (), map (\<lambda>(q, n). (if take (length a) q = a then b @ drop (length a) q else q, n))
                               (fs_del b s)))"

definition io_remove_file :: "path \<Rightarrow> unit io" where
  "io_remove_file p =
     syscall (\<lambda>k s. case fs_get s p of
                      Some (File _ _) \<Rightarrow> if k \<noteq> 0 then (Err Io, s) else (Ok (), fs_del p s)
                    | _ \<Rightarrow> (Err Io, s))"

definition below :: "path \<Rightarrow> path \<Rightarrow> bool" where
  "below p q \<longleftrightarrow> take (length p) q = p"

text \<open>A fault leaves some of the tree in place.\<close>

definition io_remove_dir_all :: "path \<Rightarrow> unit io" where
  "io_remove_dir_all p =
     syscall (\<lambda>k s. if \<not> is_dir s p then (Err Io, s)
                    else if k \<noteq> 0 then (Err Io, fs_prune (\<lambda>q. below p q \<and> q \<in> fst ` set (take (k - 1) s)) s)
                    else (Ok (), fs_prune (below p) s))"

text \<open>Creating the missing directories on the way to a path, top down.\<close>

fun mkdirs :: "path \<Rightarrow> path \<Rightarrow> fs \<Rightarrow> (unit, error) outcome \<times> fs" where
  "mkdirs pre [] s = (Ok (), s)"
| "mkdirs pre (c # cs) s =
     (let p = pre @ [c]
      in if is_dir s p then mkdirs p cs s
         else if fs_get s p \<noteq> None then (Err Io, s)
         else mkdirs p cs (fs_put p Dir s))"

definition io_create_dir_all :: "path \<Rightarrow> unit io" where
  "io_create_dir_all p = syscall (\<lambda>k s. if k \<noteq> 0 then (Err Io, s) else mkdirs [] p s)"

text \<open>\<open>std::fs::copy\<close>: contents and mode, overwriting the target; a fault leaves a part.\<close>

definition io_copy :: "path \<Rightarrow> path \<Rightarrow> unit io" where
  "io_copy a b =
     syscall (\<lambda>k s. case fs_get s a of
                      Some (File d m) \<Rightarrow>
                        if \<not> parent_ok s b \<or> is_dir s b then (Err Io, s)
                        else if k \<noteq> 0 then (Err Io, fs_put b (File (take (k - 1) d) m) s)
                        else (Ok (), fs_put b (File d m) s)
                    | _ \<Rightarrow> (Err Io, s))"

definition io_set_mode :: "path \<Rightarrow> u32 \<Rightarrow> unit io" where
  "io_set_mode p m =
     syscall (\<lambda>k s. case fs_get s p of
                      Some (File d _) \<Rightarrow> if k \<noteq> 0 then (Err Io, s) else (Ok (), fs_put p (File d m) s)
                    | Some Dir \<Rightarrow> (if k \<noteq> 0 then Err Io else Ok (), s)
                    | None \<Rightarrow> (Err Io, s))"

end
