(* ===== verification/Tool_Env.thy ===== *)
theory Tool_Env
  imports File_System
begin

text \<open>
  What the installer takes from outside its own sources, as one record of parameters.

  The record \<open>env\<close> has a field for each third-party function or program the installer calls:
  SHA-256 and base 32, the PE parser (goblin), JSON and the bootspec crate, the time crate, random
  characters, the decimal digit class of the regex crate (whether a text is one or more such
  characters), the temporary directory crate, the directory walker, and the programs run as child
  processes (\<open>sbsign\<close>, \<open>sbverify\<close>, \<open>objcopy\<close>, \<open>systemd-pcrlock\<close> and the initrd secrets script).
  Documents the installer only passes on are represented by their text. The data types of these
  crates are given as far as the installer reads their fields. The theory also has the directory
  of temporary files (\<open>utils.rs\<close>).
\<close>

subsection \<open>Data of the bootspec crate\<close>

record boot_spec_v1 =
  label :: string
  kernel :: path
  kernel_params :: "string list"
  init :: path
  initrd :: "path option"
  initrd_secrets :: "path option"
  toplevel :: path

type_synonym extensions = "(string \<times> string) list"

datatype boot_spec =
  BootSpec (bootspec: boot_spec_v1) (bs_specialisations: "(string \<times> specialisation) list")
and specialisation =
  Specialisation (sp_generation: boot_spec) (sp_extensions: extensions)

record boot_json =
  bj_generation :: string
  bj_extensions :: extensions

subsection \<open>Data of the PE parser\<close>

record pe =
  sections :: "section_table list"
  optional_image_base :: "u64 option"

subsection \<open>The parameters\<close>

record env =
  sha256 :: "bytes \<Rightarrow> bytes"
  base32 :: "bytes \<Rightarrow> string"
  pe_parse :: "bytes \<Rightarrow> pe option"
  inputs_to_json :: "(string \<times> bytes) list \<Rightarrow> string"
  boot_json_from_slice :: "bytes \<Rightarrow> boot_json option"
  synthesize_latest :: "path \<Rightarrow> fs \<Rightarrow> boot_json option"
  try_into_bootspec :: "string \<Rightarrow> boot_spec option"
  sort_key_from_value :: "string \<Rightarrow> string option"
  mtime :: "path \<Rightarrow> fs \<Rightarrow> int option"
  date_from_timestamp :: "int \<Rightarrow> string option"
  alphanumeric :: "nat \<Rightarrow> char"
  unicode_digits :: "string \<Rightarrow> bool"
  tempdir_pick :: "nat \<Rightarrow> fs \<Rightarrow> path"
  walk :: "path \<Rightarrow> fs \<Rightarrow> path option list"
  run :: "string \<Rightarrow> string list \<Rightarrow> nat \<Rightarrow> fs \<Rightarrow> bool option \<times> fs"

text \<open>
  Running a child process: \<open>None\<close> when it could not be started, otherwise whether its exit status
  was success.
\<close>

definition command :: "env \<Rightarrow> string \<Rightarrow> string list \<Rightarrow> bool io" where
  "command E prog args =
     syscall (\<lambda>k s. case run E prog args k s of
                      (None, s') \<Rightarrow> (Err Io, s')
                    | (Some b, s') \<Rightarrow> (Ok b, s'))"

subsection \<open>Temporary files (utils.rs)\<close>

definition TEMPFILE_RANDOM_LENGTH :: nat where
  "TEMPFILE_RANDOM_LENGTH = 32"

definition tmpname :: "env \<Rightarrow> string io" where
  "tmpname E w =
     (Ok (map (\<lambda>i. alphanumeric E (draws w + i)) [0..<TEMPFILE_RANDOM_LENGTH]),
      w\<lparr>draws := draws w + TEMPFILE_RANDOM_LENGTH\<rparr>)"

text \<open>\<open>TempDir::new\<close>, and the removal of the directory when its owner goes out of scope.\<close>

definition new_tempdir :: "env \<Rightarrow> path io" where
  "new_tempdir E w =
     syscall (\<lambda>k s. let p = tempdir_pick E (draws w) s
                    in if k \<noteq> 0 then (Err Io, s) else (Ok p, fs_put p Dir s))
       (w\<lparr>draws := Suc (draws w)\<rparr>)"

definition with_tempdir :: "env \<Rightarrow> (path \<Rightarrow> 'a io) \<Rightarrow> 'a io" where
  "with_tempdir E body w =
     (case new_tempdir E w of
        (Ok p, w') \<Rightarrow>
          (let (r, w'') = body p w'; (_, w''') = io_remove_dir_all p w'' in (r, w'''))
      | (Err e, w') \<Rightarrow> (Err e, w')
      | (Panic, w') \<Rightarrow> (Panic, w'))"

definition create_secure_file :: "path \<Rightarrow> unit io" where
  "create_secure_file p = io_create 0x180 p"

definition write_secure_file :: "env \<Rightarrow> path \<Rightarrow> bytes \<Rightarrow> path io" where
  "write_secure_file E dir contents =
     bind_io (tmpname E) (\<lambda>n.
       let p = path_join dir n
       in bind_io (create_secure_file p) (\<lambda>_.
          bind_io (io_write_all p contents) (\<lambda>_. ret p)))"

definition file_hash :: "env \<Rightarrow> path \<Rightarrow> bytes io" where
  "file_hash E p = bind_io (io_read p) (\<lambda>d. ret (sha256 E d))"

definition file_size :: "path \<Rightarrow> u64 io" where
  "file_size p = bind_io (io_read p) (\<lambda>d. ret (of_nat (length d)))"

end
