(* ===== verification/Generation.thy ===== *)
theory Generation
  imports Tool_Env
begin

text \<open>
  System generations (\<open>generation.rs\<close>): the links NixOS keeps for each generation, reading a
  generation with its specialisations from its boot specification, and the texts that describe a
  generation.
\<close>

subsection \<open>Data\<close>

record LanzabooteExtension =
  sort_key :: string

definition LanzabooteExtension_default :: LanzabooteExtension where
  "LanzabooteExtension_default = \<lparr>sort_key = ''lanzaboote''\<rparr>"

definition LanzabooteExtension_from :: "env \<Rightarrow> extensions \<Rightarrow> LanzabooteExtension" where
  "LanzabooteExtension_from E exts =
     (case map_of exts ''org.nix-community.lanzaboote'' of
        None \<Rightarrow> LanzabooteExtension_default
      | Some v \<Rightarrow>
          (case sort_key_from_value E v of
             None \<Rightarrow> LanzabooteExtension_default
           | Some k \<Rightarrow> \<lparr>sort_key = k\<rparr>))"

record ExtendedBootJson =
  eb_bootspec :: boot_spec
  lanzaboote_extension :: LanzabooteExtension

datatype Generation =
  Generation
    (version: u64)
    (build_time: "string option")
    (specialisation_name: "string option")
    (spec: ExtendedBootJson)
    (specialisations: "(string \<times> Generation) list")

record GenerationLink =
  gl_version :: u64
  gl_path :: path
  gl_build_time :: "string option"

subsection \<open>Links\<close>

definition parse_version :: "path \<Rightarrow> (u64, error) outcome" where
  "parse_version p =
     (case path_file_name p of
        None \<Rightarrow> Err (Msg ''Failed to extract version'')
      | Some n \<Rightarrow>
          (if \<not> utf8_valid n \<or> length (split_on CHR ''-'' n) < 2
           then Err (Msg ''Failed to extract version'')
           else (case parse_unsigned 64 (split_on CHR ''-'' n ! 1) of
                   None \<Rightarrow> Err (Msg ''Failed to extract version'')
                 | Some v \<Rightarrow> Ok (of_nat v))))"

definition read_build_time :: "env \<Rightarrow> path \<Rightarrow> string io" where
  "read_build_time E p =
     syscall (\<lambda>k s. (if k \<noteq> 0 then Err Io
                     else case mtime E p s of
                            None \<Rightarrow> Err Io
                          | Some t \<Rightarrow> (case date_from_timestamp E t of None \<Rightarrow> Err Io | Some d \<Rightarrow> Ok d), s))"

definition from_path :: "env \<Rightarrow> path \<Rightarrow> GenerationLink io" where
  "from_path E p =
     bind_io (lift (parse_version p)) (\<lambda>v.
     bind_io (try_io (read_build_time E p)) (\<lambda>t.
       ret \<lparr>gl_version = v, gl_path = p, gl_build_time = (case t of Ok d \<Rightarrow> Some d | _ \<Rightarrow> None)\<rparr>))"

subsection \<open>Generations\<close>

fun parse_specialisation ::
  "env \<Rightarrow> GenerationLink \<Rightarrow> string \<Rightarrow> specialisation \<Rightarrow> (Generation, error) outcome"
and parse_specialisations ::
  "env \<Rightarrow> GenerationLink \<Rightarrow> (string \<times> specialisation) list \<Rightarrow> ((string \<times> Generation) list, error) outcome"
where
  "parse_specialisation E link name (Specialisation (BootSpec b sps) exts) =
     and_then (parse_specialisations E link sps) (\<lambda>gs.
       Ok (Generation (gl_version link) (gl_build_time link) (Some name)
             \<lparr>eb_bootspec = BootSpec b sps, lanzaboote_extension = LanzabooteExtension_from E exts\<rparr>
             gs))"
| "parse_specialisations E link [] = Ok []"
| "parse_specialisations E link ((name, json) # rest) =
     and_then (parse_specialisation E link name json) (\<lambda>g.
     and_then (parse_specialisations E link rest) (\<lambda>gs. Ok ((name, g) # gs)))"

definition parse_boot_json ::
  "env \<Rightarrow> GenerationLink \<Rightarrow> string option \<Rightarrow> boot_json \<Rightarrow> (Generation, error) outcome" where
  "parse_boot_json E link name bj =
     (case try_into_bootspec E (bj_generation bj) of
        None \<Rightarrow> Err (Msg ''unsupported bootspec generation'')
      | Some bs \<Rightarrow>
          and_then (parse_specialisations E link (bs_specialisations bs)) (\<lambda>gs.
            Ok (Generation (gl_version link) (gl_build_time link) name
                  \<lparr>eb_bootspec = bs, lanzaboote_extension = LanzabooteExtension_from E (bj_extensions bj)\<rparr>
                  gs)))"

definition synthesize :: "env \<Rightarrow> path \<Rightarrow> boot_json io" where
  "synthesize E p =
     syscall (\<lambda>k s. (if k \<noteq> 0 then Err Io
                     else case synthesize_latest E p s of None \<Rightarrow> Err Io | Some bj \<Rightarrow> Ok bj, s))"

definition from_link :: "env \<Rightarrow> GenerationLink \<Rightarrow> Generation io" where
  "from_link E link =
     bind_io (try_io (io_read (path_join (gl_path link) ''boot.json''))) (\<lambda>raw.
     bind_io (case raw of
                Ok d \<Rightarrow>
                  (case boot_json_from_slice E d of
                     Some bj \<Rightarrow> ret bj
                   | None \<Rightarrow> synthesize E (gl_path link))
              | _ \<Rightarrow> synthesize E (gl_path link)) (\<lambda>bj.
       lift (parse_boot_json E link None bj)))"

subsection \<open>Descriptions\<close>

definition describe_specialisation :: "Generation \<Rightarrow> string" where
  "describe_specialisation g =
     (case specialisation_name g of Some n \<Rightarrow> ''-'' @ n | None \<Rightarrow> [])"

definition generation_display :: "Generation \<Rightarrow> string" where
  "generation_display g = dec (unat (version g))"

definition describe :: "Generation \<Rightarrow> string" where
  "describe g =
     ''Generation '' @ dec (unat (version g)) @ describe_specialisation g @ '', '' @
     (case build_time g of Some d \<Rightarrow> d | None \<Rightarrow> ''Unknown'')"

definition version_tag :: "Generation \<Rightarrow> string" where
  "version_tag g = dec (unat (version g)) @ describe_specialisation g"

subsection \<open>Facts about links and descriptions\<close>

lemma split_on_dash_dec: "CHR ''-'' \<notin> set (dec n)"
  using dec_chars by fastforce

lemma is_ascii_append [simp]: "is_ascii (a @ b) \<longleftrightarrow> is_ascii a \<and> is_ascii b"
  by (simp add: is_ascii_def)

lemma is_ascii_dec [simp]: "is_ascii (dec n)"
proof -
  have "\<forall>c \<in> set ''0123456789''. (of_char c :: nat) < 128" by code_simp
  then show ?thesis
    using dec_chars unfolding is_ascii_def list_all_iff by blast
qed

lemma link_name_plain: "plain_name (''system-'' @ dec n @ ''-link'')"
proof -
  have "CHR ''/'' \<notin> set (dec n)" using dec_chars by fastforce
  then show ?thesis by (simp add: plain_name_def)
qed

lemma split_link_name: "split_on CHR ''-'' (''system-'' @ dec n @ ''-link'') = [''system'', dec n, ''link'']"
  using split_on_append [OF split_on_dash_dec, of n "''link''"] by simp

lemma link_name_utf8: "utf8_valid (''system-'' @ dec n @ ''-link'')"
proof (rule ascii_utf8_valid)
  have "is_ascii ''system-''" "is_ascii ''-link''" by code_simp+
  then show "is_ascii (''system-'' @ dec n @ ''-link'')"
    by (simp only: is_ascii_append is_ascii_dec simp_thms)
qed

lemma parse_specialisation_inherits:
  "parse_specialisation E link name sp = Ok g \<Longrightarrow>
     version g = gl_version link \<and> build_time g = gl_build_time link \<and> specialisation_name g = Some name"
  by (cases "(E, link, name, sp)" rule: parse_specialisation.cases) (auto simp: outcome_simps)

lemma parse_specialisations_total:
  "\<exists>g. parse_specialisation E link name sp = Ok g"
  "\<exists>gs. parse_specialisations E link sps = Ok gs \<and> map fst gs = map fst sps"
  by (induction E link name sp and E link sps rule: parse_specialisation_parse_specialisations.induct)
    (auto simp: outcome_simps)

lemma version_tag_inject:
  assumes "version_tag g = version_tag h"
  shows "version g = version h \<and> specialisation_name g = specialisation_name h"
proof -
  let ?t = "\<lambda>g. takeWhile (\<lambda>c. c \<noteq> CHR ''-'') (version_tag g)"
  let ?d = "\<lambda>g. dropWhile (\<lambda>c. c \<noteq> CHR ''-'') (version_tag g)"
  have t: "?t g = dec (unat (version g)) \<and> ?d g = describe_specialisation g" for g
  proof -
    have all: "\<forall>c \<in> set (dec (unat (version g))). c \<noteq> CHR ''-''"
      using split_on_dash_dec by metis
    then show ?thesis
      by (auto simp: version_tag_def describe_specialisation_def takeWhile_append2 dropWhile_append2
               split: option.splits)
  qed
  from assms t [of g] t [of h] have "unat (version g) = unat (version h)"
    and d: "describe_specialisation g = describe_specialisation h"
    by (metis dec_inject) (metis assms t)
  moreover from d have "specialisation_name g = specialisation_name h"
    by (auto simp: describe_specialisation_def split: option.splits)
  ultimately show ?thesis by (simp add: word_unat_eq_iff)
qed

subsection \<open>Properties\<close>

text \<open>
  C22: The version of a generation link named \<open>system-<n>-link\<close> is read back exactly, for every
  version that fits 64 bits; a larger number is an error, never a wrapped-around version.\<close>

theorem parse_version_of_link:
  "parse_version (dir @ [''system-'' @ dec n @ ''-link'']) =
     (if n < 2 ^ 64 then Ok (of_nat n) else Err (Msg ''Failed to extract version''))"
proof (cases "n < 2 ^ 64")
  case True
  then show ?thesis
    using link_name_plain [of n] link_name_utf8 [of n] split_link_name [of n]
    unfolding parse_version_def by (subst path_file_name_snoc) (simp_all del: append_Cons append_Nil)
next
  case False
  then have "parse_unsigned 64 (dec n) = None" by (simp add: parse_unsigned_dec_overflow)
  with False show ?thesis
    using link_name_plain [of n] link_name_utf8 [of n] split_link_name [of n]
    unfolding parse_version_def by (subst path_file_name_snoc) (simp_all del: append_Cons append_Nil)
qed

end
