(* ===== verification/Os_Release.thy ===== *)
theory Os_Release
  imports Generation
begin

text \<open>
  The os-release component (\<open>os_release.rs\<close>): the parser as a state machine over characters, the
  printed form, and the os-release written into the stub of a generation.

  The map of the code is a \<open>BTreeMap\<close>, here a list of pairs strictly sorted by key. The parser
  compares characters with ASCII characters only, so that running it over the bytes of a UTF-8
  text is the same as running it over its characters.
\<close>

subsection \<open>Ordered maps\<close>

fun btree_insert :: "'k :: linorder \<Rightarrow> 'v \<Rightarrow> ('k \<times> 'v) list \<Rightarrow> ('k \<times> 'v) list" where
  "btree_insert k v [] = [(k, v)]"
| "btree_insert k v ((k', v') # m) =
     (if k < k' then (k, v) # (k', v') # m
      else if k = k' then (k, v) # m
      else (k', v') # btree_insert k v m)"

definition btree_ok :: "('k :: linorder \<times> 'v) list \<Rightarrow> bool" where
  "btree_ok m \<longleftrightarrow> sorted_wrt (<) (map fst m)"

locale ordered_map =
  fixes empty :: "'m"
    and insert :: "'k :: linorder \<Rightarrow> 'v \<Rightarrow> 'm \<Rightarrow> 'm"
    and entries :: "'m \<Rightarrow> ('k \<times> 'v) list"
    and wf :: "'m \<Rightarrow> bool"
  assumes wf_empty: "wf empty"
    and wf_insert: "wf m \<Longrightarrow> wf (insert k v m)"
    and wf_entries: "wf m \<Longrightarrow> sorted_wrt (<) (map fst (entries m))"
    and entries_empty: "entries empty = []"
    and lookup_insert: "map_of (entries (insert k v m)) = (map_of (entries m))(k \<mapsto> v)"
begin

lemma wf_fold: "wf m \<Longrightarrow> wf (fold (\<lambda>(k, v). insert k v) kvs m)"
  by (induction kvs arbitrary: m) (auto simp: wf_insert)

lemma lookup_fold:
  "map_of (entries (fold (\<lambda>(k, v). insert k v) kvs m)) = map_of (entries m) ++ map_of (rev kvs)"
proof (induction kvs arbitrary: m)
  case (Cons kv kvs)
  then show ?case by (cases kv) (simp add: lookup_insert map_add_def fun_eq_iff split: option.splits)
qed simp

lemma distinct_entries: "wf m \<Longrightarrow> distinct (map fst (entries m))"
  using wf_entries strict_sorted_iff by blast

text \<open>Rebuilding a map from its entries gives the same entries.\<close>

lemma entries_rebuild:
  assumes "wf m"
  shows "entries (fold (\<lambda>(k, v). insert k v) (entries m) empty) = entries m"
proof -
  let ?n = "fold (\<lambda>(k, v). insert k v) (entries m) empty"
  have wf: "wf ?n" by (simp add: wf_fold wf_empty)
  have "map_of (entries ?n) = map_of (rev (entries m))"
    by (simp add: lookup_fold entries_empty)
  also have "\<dots> = map_of (entries m)"
    using distinct_entries [OF assms] by (simp add: map_of_inject_set rev_map [symmetric])
  finally have eq: "map_of (entries ?n) = map_of (entries m)" .
  have sorted: "sorted (map fst (entries ?n))" "sorted (map fst (entries m))"
    using wf_entries wf assms strict_sorted_iff by blast+
  have "set (entries ?n) = set (entries m)"
    using map_of_inject_set [OF distinct_entries [OF wf] distinct_entries [OF assms]] eq by simp
  moreover have "inj_on fst (set (entries m))"
    using distinct_entries [OF assms] distinct_map by blast
  ultimately show ?thesis
    by (intro map_sorted_distinct_set_unique [OF _ sorted(1) distinct_entries [OF wf] sorted(2)
          distinct_entries [OF assms]]) auto
qed

end

lemma btree_insert_keys: "set (map fst (btree_insert k v m)) = {k} \<union> set (map fst m)"
  by (induction k v m rule: btree_insert.induct) auto

lemma btree_insert_ok: "btree_ok m \<Longrightarrow> btree_ok (btree_insert k v m)"
proof (induction k v m rule: btree_insert.induct)
  case (2 k v k' v' m)
  have keys: "\<And>x. x \<in> set (btree_insert k v m) \<Longrightarrow> fst x = k \<or> fst x \<in> fst ` set m"
    using btree_insert_keys [of k v m] by force
  with "2" show ?case by (fastforce simp: btree_ok_def)
qed (simp add: btree_ok_def)

lemma btree_insert_lookup: "map_of (btree_insert k v m) = (map_of m)(k \<mapsto> v)"
  by (induction k v m rule: btree_insert.induct) auto

interpretation btree: ordered_map "[]" btree_insert id btree_ok
  by unfold_locales (auto simp: btree_ok_def btree_insert_lookup btree_insert_ok [unfolded btree_ok_def])

lemmas btree_rebuild = btree.entries_rebuild [unfolded id_apply]

subsection \<open>The parser\<close>

datatype State =
  PreKey | Key | PreValue | Value | ValueEscape | SingleQuoteValue | DoubleQuoteValue
| DoubleQuoteValueEscape | Comment | CommentEscape

record parser =
  state :: State
  current_key :: string
  current_value :: string
  parsed :: "(string \<times> string) list"

definition COMMENTS :: string where
  "COMMENTS = ''#;''"

definition WHITESPACE :: string where
  "WHITESPACE = '' '' @ map char_of [9 :: nat, 10, 13]"

definition NEWLINE :: string where
  "NEWLINE = map char_of [13 :: nat, 10]"

definition QUOTE :: char where
  "QUOTE = char_of (34 :: nat)"

definition APOSTROPHE :: char where
  "APOSTROPHE = char_of (39 :: nat)"

definition BACKSLASH :: char where
  "BACKSLASH = char_of (92 :: nat)"

definition LF :: char where
  "LF = char_of (10 :: nat)"

definition SHELL_NEED_ESCAPE :: string where
  "SHELL_NEED_ESCAPE = map char_of [34 :: nat, 92, 96, 36]"

definition push_key :: "char \<Rightarrow> parser \<Rightarrow> parser" where
  "push_key c p = p\<lparr>current_key := current_key p @ [c]\<rparr>"

definition push_value :: "char \<Rightarrow> parser \<Rightarrow> parser" where
  "push_value c p = p\<lparr>current_value := current_value p @ [c]\<rparr>"

definition finish_entry :: "string \<Rightarrow> parser \<Rightarrow> parser" where
  "finish_entry v p =
     p\<lparr>state := PreKey, parsed := btree_insert (trim_end (current_key p)) v (parsed p),
       current_key := [], current_value := []\<rparr>"

definition os_step :: "parser \<Rightarrow> char \<Rightarrow> parser" where
  "os_step p c =
     (case state p of
        PreKey \<Rightarrow>
          if c \<in> set COMMENTS then p\<lparr>state := Comment\<rparr>
          else if c \<notin> set WHITESPACE then push_key c (p\<lparr>state := Key\<rparr>)
          else p
      | Key \<Rightarrow>
          if c \<in> set NEWLINE then p\<lparr>state := PreKey, current_key := []\<rparr>
          else if c = CHR ''='' then p\<lparr>state := PreValue\<rparr>
          else push_key c p
      | PreValue \<Rightarrow>
          if c \<in> set NEWLINE then finish_entry (current_value p) p
          else if c = APOSTROPHE then p\<lparr>state := SingleQuoteValue\<rparr>
          else if c = QUOTE then p\<lparr>state := DoubleQuoteValue\<rparr>
          else if c = BACKSLASH then p\<lparr>state := ValueEscape\<rparr>
          else if c \<notin> set WHITESPACE then push_value c (p\<lparr>state := Value\<rparr>)
          else p
      | Value \<Rightarrow>
          if c \<in> set NEWLINE then finish_entry (trim_end (current_value p)) p
          else if c = BACKSLASH then p\<lparr>state := ValueEscape\<rparr>
          else push_value c p
      | ValueEscape \<Rightarrow>
          if c \<notin> set NEWLINE then push_value c (p\<lparr>state := Value\<rparr>) else p\<lparr>state := Value\<rparr>
      | SingleQuoteValue \<Rightarrow>
          if c = APOSTROPHE then p\<lparr>state := PreValue\<rparr> else push_value c p
      | DoubleQuoteValue \<Rightarrow>
          if c = QUOTE then p\<lparr>state := PreValue\<rparr>
          else if c = BACKSLASH then p\<lparr>state := DoubleQuoteValueEscape\<rparr>
          else push_value c p
      | DoubleQuoteValueEscape \<Rightarrow>
          (let p = p\<lparr>state := DoubleQuoteValue\<rparr>
           in if c \<in> set SHELL_NEED_ESCAPE then push_value c p
              else if c \<noteq> LF then push_value c (push_value BACKSLASH p)
              else p)
      | Comment \<Rightarrow>
          if c = BACKSLASH then p\<lparr>state := CommentEscape\<rparr>
          else if c \<in> set NEWLINE then p\<lparr>state := PreKey\<rparr>
          else p
      | CommentEscape \<Rightarrow>
          if c \<in> set NEWLINE then p\<lparr>state := PreKey\<rparr> else p\<lparr>state := Comment\<rparr>)"

definition os_start :: parser where
  "os_start = \<lparr>state = PreKey, current_key = [], current_value = [], parsed = []\<rparr>"

definition os_finish :: "parser \<Rightarrow> (string \<times> string) list" where
  "os_finish p =
     (if state p \<in> {PreValue, Value, ValueEscape, SingleQuoteValue, DoubleQuoteValue, DoubleQuoteValueEscape}
      then btree_insert (trim_end (current_key p))
             (if state p = Value then trim_end (current_value p) else current_value p) (parsed p)
      else parsed p)"

definition os_release_from_str :: "string \<Rightarrow> (string \<times> string) list" where
  "os_release_from_str s = os_finish (foldl os_step os_start s)"

definition os_release_display :: "(string \<times> string) list \<Rightarrow> string" where
  "os_release_display m = concat (map (\<lambda>(k, v). k @ ''='' @ v @ [LF]) m)"

definition os_release_from_generation :: "Generation \<Rightarrow> (string \<times> string) list" where
  "os_release_from_generation g =
     btree_insert ''VERSION_ID'' (describe g)
       (btree_insert ''PRETTY_NAME''
          (label (bootspec (eb_bootspec (spec g))) @ '' ('' @ describe g @ '')'')
          (btree_insert ''ID'' (sort_key (lanzaboote_extension (spec g))) []))"

subsection \<open>Running the parser over the parts of an entry\<close>

definition at_entry :: "(string \<times> string) list \<Rightarrow> parser" where
  "at_entry m = \<lparr>state = PreKey, current_key = [], current_value = [], parsed = m\<rparr>"

definition clean_key :: "string \<Rightarrow> bool" where
  "clean_key k \<longleftrightarrow> k \<noteq> [] \<and> hd k \<notin> set COMMENTS \<and> hd k \<notin> set WHITESPACE \<and>
     (\<forall>c \<in> set k. c \<notin> set NEWLINE \<and> c \<noteq> CHR ''='') \<and> trim_end k = k"

definition clean_value :: "string \<Rightarrow> bool" where
  "clean_value v \<longleftrightarrow> (\<forall>c \<in> set v. c \<notin> set NEWLINE \<and> c \<noteq> BACKSLASH) \<and> trim_end v = v \<and>
     (v = [] \<or> hd v \<notin> set WHITESPACE \<union> {QUOTE, APOSTROPHE})"

text \<open>The characters of a double-quoted value as a shell writes them.\<close>

definition escape_char :: "char \<Rightarrow> string" where
  "escape_char c = (if c \<in> set SHELL_NEED_ESCAPE then [BACKSLASH, c] else [c])"

definition shell_escape :: "string \<Rightarrow> string" where
  "shell_escape v = concat (map escape_char v)"

lemma special_chars:
  "CHR ''='' \<notin> set NEWLINE" "LF \<in> set NEWLINE" "QUOTE \<notin> set NEWLINE" "QUOTE \<noteq> APOSTROPHE"
  "QUOTE \<noteq> BACKSLASH" "set NEWLINE \<subseteq> set WHITESPACE" "QUOTE \<in> set SHELL_NEED_ESCAPE"
  "BACKSLASH \<in> set SHELL_NEED_ESCAPE" "LF \<in> set WHITESPACE"
  "APOSTROPHE \<notin> set NEWLINE"
  by code_simp+

lemma run_key:
  assumes "state p = Key" "\<forall>c \<in> set k. c \<notin> set NEWLINE \<and> c \<noteq> CHR ''=''"
  shows "foldl os_step p k = p\<lparr>current_key := current_key p @ k\<rparr>"
  using assms by (induction k arbitrary: p) (simp_all add: os_step_def push_key_def)

lemma run_value:
  assumes "state p = Value" "\<forall>c \<in> set v. c \<notin> set NEWLINE \<and> c \<noteq> BACKSLASH"
  shows "foldl os_step p v = p\<lparr>current_value := current_value p @ v\<rparr>"
  using assms by (induction v arbitrary: p) (simp_all add: os_step_def push_value_def)

lemma run_double_quoted:
  assumes "state p = DoubleQuoteValue"
  shows "foldl os_step p (shell_escape v) = p\<lparr>current_value := current_value p @ v\<rparr>"
  using assms
proof (induction v arbitrary: p)
  case (Cons c v)
  have "foldl os_step p (escape_char c) = p\<lparr>current_value := current_value p @ [c]\<rparr>"
  proof (cases "c \<in> set SHELL_NEED_ESCAPE")
    case True
    then show ?thesis
      using Cons.prems special_chars by (simp add: escape_char_def os_step_def push_value_def)
  next
    case False
    then have "c \<noteq> QUOTE" "c \<noteq> BACKSLASH" using special_chars by metis+
    with False Cons.prems show ?thesis
      by (simp add: escape_char_def os_step_def push_value_def)
  qed
  with Cons show ?case by (simp add: shell_escape_def)
qed (simp add: shell_escape_def)

lemma run_to_value:
  assumes "clean_key k"
  shows "foldl os_step (at_entry m) (k @ ''='') =
           \<lparr>state = PreValue, current_key = k, current_value = [], parsed = m\<rparr>"
proof -
  obtain c r where k: "k = c # r" and c: "c \<notin> set COMMENTS" "c \<notin> set WHITESPACE"
    and r: "\<forall>c \<in> set r. c \<notin> set NEWLINE \<and> c \<noteq> CHR ''=''"
    using assms by (cases k) (auto simp: clean_key_def)
  have "os_step (at_entry m) c = \<lparr>state = Key, current_key = [c], current_value = [], parsed = m\<rparr>"
    using c by (simp add: os_step_def at_entry_def push_key_def)
  then have "foldl os_step (at_entry m) k = \<lparr>state = Key, current_key = k, current_value = [], parsed = m\<rparr>"
    using r by (simp add: k run_key)
  then show ?thesis
    using special_chars by (simp add: os_step_def)
qed

lemma run_plain_value:
  assumes "clean_value v"
  shows "foldl os_step \<lparr>state = PreValue, current_key = k, current_value = [], parsed = m\<rparr> (v @ [LF]) =
           at_entry (btree_insert (trim_end k) v m)"
proof (cases v)
  case Nil
  then show ?thesis
    using special_chars by (simp add: os_step_def finish_entry_def at_entry_def)
next
  case (Cons c r)
  with assms have c: "c \<notin> set NEWLINE" "c \<noteq> BACKSLASH" "c \<notin> set WHITESPACE" "c \<noteq> QUOTE" "c \<noteq> APOSTROPHE"
    and r: "\<forall>c \<in> set r. c \<notin> set NEWLINE \<and> c \<noteq> BACKSLASH" and t: "trim_end (c # r) = c # r"
    by (auto simp: clean_value_def)
  have "os_step \<lparr>state = PreValue, current_key = k, current_value = [], parsed = m\<rparr> c =
          \<lparr>state = Value, current_key = k, current_value = [c], parsed = m\<rparr>"
    using c by (simp add: os_step_def push_value_def)
  with r t show ?thesis
    using special_chars by (simp add: Cons run_value) (simp add: os_step_def finish_entry_def at_entry_def)
qed

lemma run_entry:
  assumes "clean_key k" "clean_value v"
  shows "foldl os_step (at_entry m) (k @ ''='' @ v @ [LF]) = at_entry (btree_insert k v m)"
proof -
  have "foldl os_step (foldl os_step (at_entry m) (k @ ''='')) (v @ [LF]) = at_entry (btree_insert k v m)"
    unfolding run_to_value [OF assms(1)] run_plain_value [OF assms(2)]
    using assms(1) by (simp add: clean_key_def)
  then show ?thesis by (simp add: foldl_append [symmetric] del: foldl_append)
qed

lemma run_quoted_entry:
  assumes "clean_key k"
  shows "foldl os_step (at_entry m) (k @ ''='' @ [QUOTE] @ shell_escape v @ [QUOTE, LF]) =
           at_entry (btree_insert k v m)"
proof -
  let ?q = "\<lparr>state = PreValue, current_key = k, current_value = [], parsed = m\<rparr>"
  have q: "os_step ?q QUOTE = ?q\<lparr>state := DoubleQuoteValue\<rparr>"
    using special_chars by (simp add: os_step_def)
  have "foldl os_step (foldl os_step (at_entry m) (k @ ''='')) ([QUOTE] @ shell_escape v @ [QUOTE, LF]) =
          at_entry (btree_insert k v m)"
    unfolding run_to_value [OF assms]
    using assms special_chars
    by (simp add: q run_double_quoted)
      (simp add: os_step_def finish_entry_def at_entry_def clean_key_def)
  then show ?thesis by simp
qed

lemma run_display:
  assumes "\<forall>(k, v) \<in> set kvs. clean_key k \<and> clean_value v"
  shows "foldl os_step (at_entry m) (os_release_display kvs) = at_entry (fold (\<lambda>(k, v). btree_insert k v) kvs m)"
  using assms
proof (induction kvs arbitrary: m)
  case (Cons kv kvs)
  obtain k v where kv: "kv = (k, v)" by (cases kv)
  have "os_release_display (kv # kvs) = (k @ ''='' @ v @ [LF]) @ os_release_display kvs"
    by (simp add: os_release_display_def kv)
  then show ?case
    using Cons run_entry [of k v m] by (simp add: kv del: append_assoc append_Cons)
qed (simp add: os_release_display_def)

subsection \<open>Printable text\<close>

definition text_char :: "char \<Rightarrow> bool" where
  "text_char c \<longleftrightarrow> 32 \<le> (of_char c :: nat) \<and> (of_char c :: nat) < 127 \<and> c \<noteq> BACKSLASH"

definition solid_char :: "char \<Rightarrow> bool" where
  "solid_char c \<longleftrightarrow> text_char c \<and> c \<noteq> CHR '' '' \<and> c \<noteq> QUOTE \<and> c \<noteq> APOSTROPHE"

text \<open>Text that neither starts nor ends with a space or a quote.\<close>

definition solid_text :: "string \<Rightarrow> bool" where
  "solid_text s \<longleftrightarrow> s \<noteq> [] \<and> list_all text_char s \<and> solid_char (hd s) \<and> solid_char (last s)"

lemma of_char_space: "(of_char c :: nat) = 32 \<longleftrightarrow> c = CHR '' ''"
proof -
  have "(of_char (CHR '' '') :: nat) = 32" by simp
  then show ?thesis by (metis of_char_eq_iff)
qed

lemma ws_len_graphic: "32 < (of_char c :: nat) \<Longrightarrow> (of_char c :: nat) < 127 \<Longrightarrow> ws_len (c # r) = 0"
  by (auto simp: ws_len_def split: list.splits)

lemma trim_end_solid: "s \<noteq> [] \<Longrightarrow> solid_char (last s) \<Longrightarrow> trim_end s = s"
proof (rule trim_end_id)
  assume "s \<noteq> []" and solid: "solid_char (last s)"
  then obtain c r where r: "rev s = c # r" and c: "c = last s"
    by (metis hd_rev list.collapse rev_is_Nil_conv)
  have "(of_char c :: nat) \<noteq> 32"
    using solid c by (simp add: of_char_space solid_char_def)
  then have "32 < (of_char c :: nat)" "(of_char c :: nat) < 127"
    using solid c by (auto simp: solid_char_def text_char_def)
  then show "ws_len (rev s) = 0" by (simp add: r ws_len_graphic)
qed

lemma text_char_not_special: "text_char c \<Longrightarrow> c \<notin> set NEWLINE \<and> c \<noteq> BACKSLASH"
  by (auto simp: text_char_def NEWLINE_def)

lemma solid_char_not_white: "solid_char c \<Longrightarrow> c \<notin> set WHITESPACE"
  by (auto simp: solid_char_def text_char_def WHITESPACE_def)

lemma solid_text_clean: "solid_text s \<Longrightarrow> clean_value s"
  using text_char_not_special solid_char_not_white trim_end_solid
  by (auto simp: solid_text_def clean_value_def list_all_iff solid_char_def)

lemma solid_text_append: "solid_text a \<Longrightarrow> list_all text_char b \<Longrightarrow> solid_text c \<Longrightarrow> solid_text (a @ b @ c)"
  by (simp add: solid_text_def)

lemma dec_text: "list_all text_char (dec n)"
proof -
  have "\<forall>c \<in> set ''0123456789''. text_char c" by code_simp
  then show ?thesis using dec_chars unfolding list_all_iff by blast
qed

definition plain_generation :: "Generation \<Rightarrow> bool" where
  "plain_generation g \<longleftrightarrow>
     solid_text (sort_key (lanzaboote_extension (spec g))) \<and>
     solid_text (label (bootspec (eb_bootspec (spec g)))) \<and>
     (case specialisation_name g of Some n \<Rightarrow> list_all text_char n | None \<Rightarrow> True) \<and>
     (case build_time g of Some d \<Rightarrow> solid_text d | None \<Rightarrow> True)"

lemma describe_solid:
  assumes "plain_generation g"
  shows "solid_text (describe g)"
proof -
  have "solid_text ''Unknown''" "solid_text ''Generation''" "list_all text_char '' ''"
    "list_all text_char '', ''" "text_char CHR ''-''"
    by code_simp+
  moreover from this have "list_all text_char ('' '' @ dec (unat (version g)) @ describe_specialisation g @ '', '')"
    using assms dec_text
    by (auto simp: plain_generation_def describe_specialisation_def split: option.splits)
  ultimately have "solid_text (''Generation'' @ ('' '' @ dec (unat (version g)) @ describe_specialisation g @ '', '') @
      (case build_time g of Some d \<Rightarrow> d | None \<Rightarrow> ''Unknown''))"
    using assms by (intro solid_text_append) (auto simp: plain_generation_def split: option.splits)
  then show ?thesis by (simp add: describe_def)
qed

lemma from_generation_entries:
  "os_release_from_generation g =
     [(''ID'', sort_key (lanzaboote_extension (spec g))),
      (''PRETTY_NAME'', label (bootspec (eb_bootspec (spec g))) @ '' ('' @ describe g @ '')''),
      (''VERSION_ID'', describe g)]"
proof -
  have "''ID'' < ''PRETTY_NAME''" "''PRETTY_NAME'' < ''VERSION_ID''" "''ID'' < ''VERSION_ID''"
    by code_simp+
  then show ?thesis by (simp add: os_release_from_generation_def)
qed

lemma display_round_trip:
  assumes "btree_ok m" "\<forall>(k, v) \<in> set m. clean_key k \<and> clean_value v"
  shows "os_release_from_str (os_release_display m) = m"
proof -
  have "foldl os_step os_start (os_release_display m) = at_entry m"
    using run_display [OF assms(2), of "[]"] btree_rebuild [OF assms(1)]
    by (simp add: os_start_def at_entry_def)
  then show ?thesis by (simp add: os_release_from_str_def os_finish_def at_entry_def)
qed

subsection \<open>The parser invariant\<close>

text \<open>An equals sign can only be the first character of a key, where it does not end the key.\<close>

definition key_shape :: "string \<Rightarrow> bool" where
  "key_shape k \<longleftrightarrow> (\<forall>c \<in> set k. c \<notin> set NEWLINE) \<and> CHR ''='' \<notin> set (tl k)"

definition os_inv :: "parser \<Rightarrow> bool" where
  "os_inv p \<longleftrightarrow> btree_ok (parsed p) \<and> (\<forall>k \<in> fst ` set (parsed p). key_shape k \<and> trim_end k = k) \<and>
     key_shape (current_key p) \<and>
     (state p \<in> {PreKey, Comment, CommentEscape} \<longrightarrow> current_key p = [])"

lemma key_shape_trim: "key_shape k \<Longrightarrow> key_shape (trim_end k)"
proof -
  assume shape: "key_shape k"
  obtain d where k: "k = trim_end k @ d" using trim_end_prefix by blast
  have "set (trim_end k) \<subseteq> set k" by (subst (2) k) simp
  moreover have "set (tl (trim_end k)) \<subseteq> set (tl k)"
    by (cases "trim_end k") (simp, subst (2) k, simp)
  ultimately show ?thesis using shape by (auto simp: key_shape_def)
qed

lemma os_inv_insert:
  "os_inv p \<Longrightarrow> os_inv (p\<lparr>parsed := btree_insert (trim_end (current_key p)) v (parsed p)\<rparr>)"
  using btree_insert_keys [of "trim_end (current_key p)" v "parsed p"]
  by (auto simp: os_inv_def btree_insert_ok key_shape_trim)

lemma os_inv_finish:
  assumes "os_inv p"
  shows "btree_ok (os_finish p) \<and> (\<forall>k \<in> fst ` set (os_finish p). key_shape k \<and> trim_end k = k)"
proof -
  have "btree_ok (btree_insert (trim_end (current_key p)) v (parsed p)) \<and>
      (\<forall>k \<in> fst ` set (btree_insert (trim_end (current_key p)) v (parsed p)). key_shape k \<and> trim_end k = k)"
    for v
    using os_inv_insert [OF assms, of v] by (simp add: os_inv_def)
  moreover have "btree_ok (parsed p) \<and> (\<forall>k \<in> fst ` set (parsed p). key_shape k \<and> trim_end k = k)"
    using assms unfolding os_inv_def by blast
  ultimately show ?thesis unfolding os_finish_def by presburger
qed

lemma os_inv_finish_entry: "os_inv p \<Longrightarrow> os_inv (finish_entry v p)"
  using os_inv_insert [of p v] by (auto simp: os_inv_def finish_entry_def key_shape_def)

lemma os_inv_push_value [simp]: "os_inv (push_value c p) = os_inv p"
  by (simp add: os_inv_def push_value_def)

lemma os_inv_state:
  "os_inv p \<Longrightarrow> q \<notin> {PreKey, Comment, CommentEscape} \<Longrightarrow> os_inv (p\<lparr>state := q\<rparr>)"
  by (simp add: os_inv_def)

lemma os_inv_step:
  assumes "os_inv p"
  shows "os_inv (os_step p c)"
proof (cases "state p")
  case PreKey
  then show ?thesis
    using assms special_chars(6)
    by (auto simp: os_step_def os_inv_def push_key_def key_shape_def)
next
  case Key
  then show ?thesis
    using assms by (auto simp: os_step_def os_inv_def push_key_def key_shape_def tl_append split: list.splits)
next
  case Comment
  then show ?thesis using assms by (simp add: os_step_def os_inv_def key_shape_def)
next
  case CommentEscape
  then show ?thesis using assms by (simp add: os_step_def os_inv_def key_shape_def)
qed (use assms in \<open>simp_all add: os_step_def os_inv_finish_entry os_inv_state Let_def\<close>)

lemma os_inv_run: "os_inv p \<Longrightarrow> os_inv (foldl os_step p s)"
  by (induction s arbitrary: p) (simp_all add: os_inv_step)

subsection \<open>Properties\<close>

text \<open>
  C19: Whatever text is parsed, the result is a well-formed ordered map (keys strictly sorted), and
  no key contains a line break, ends in white space, or has an equals sign after its first
  character.\<close>

theorem os_release_parse_keys:
  "btree_ok (os_release_from_str s) \<and>
     list_all (\<lambda>(k, v). (\<forall>c. c \<in> set k \<longrightarrow> c \<notin> set NEWLINE) \<and> CHR ''='' \<notin> set (tl k) \<and> trim_end k = k)
       (os_release_from_str s)"
proof -
  have "os_inv (foldl os_step os_start s)"
    by (rule os_inv_run) (simp add: os_inv_def os_start_def btree_ok_def key_shape_def)
  then have "btree_ok (os_finish (foldl os_step os_start s)) \<and>
      (\<forall>k \<in> fst ` set (os_finish (foldl os_step os_start s)). key_shape k \<and> trim_end k = k)"
    by (rule os_inv_finish)
  then show ?thesis
    unfolding os_release_from_str_def list_all_iff key_shape_def by (simp add: split_beta)
qed

theorem os_release_parse_keys_witness:
  "btree_ok (os_release_from_str ''A=1'') \<and> trim_end ''A'' = ''A''"
proof -
  have "os_release_from_str ''A=1'' = [(''A'', ''1'')]" by code_simp
  then show ?thesis using os_release_parse_keys [of "''A=1''"] by simp
qed

text \<open>
  C17: A printed os-release reads back: parsing the printed form of a map whose keys and values
  need no quoting returns the same map.\<close>

theorem os_release_display_round_trip:
  assumes "btree_ok m" "\<forall>(k, v) \<in> set m. clean_key k \<and> clean_value v"
  shows "os_release_from_str (os_release_display m) = m"
  using display_round_trip [OF assms] .

theorem os_release_display_round_trip_witness:
  "os_release_from_str (os_release_display [(''ID'', ''lanzaboote''), (''VERSION'', [])]) =
     [(''ID'', ''lanzaboote''), (''VERSION'', [])]"
proof (rule os_release_display_round_trip)
  show "btree_ok [(''ID'', ''lanzaboote''), (''VERSION'', [])]"
    unfolding btree_ok_def by code_simp
  show "\<forall>(k, v) \<in> set [(''ID'', ''lanzaboote''), (''VERSION'', [])]. clean_key k \<and> clean_value v"
    by code_simp
qed

text \<open>
  C16: The os-release the installer writes into a stub reads back with the identifier, the label
  followed by the description, and the description, when the texts they are made of are printable
  and neither start nor end with a blank or a quote.\<close>

theorem os_release_of_generation_reads_back:
  assumes "plain_generation g"
  shows "map_of (os_release_from_str (os_release_display (os_release_from_generation g))) =
           [''ID'' \<mapsto> sort_key (lanzaboote_extension (spec g)),
            ''PRETTY_NAME'' \<mapsto> label (bootspec (eb_bootspec (spec g))) @ '' ('' @ describe g @ '')'',
            ''VERSION_ID'' \<mapsto> describe g]"
proof -
  let ?m = "os_release_from_generation g" and ?l = "label (bootspec (eb_bootspec (spec g)))"
  have "list_all text_char '' (''" "solid_text '')''" by code_simp+
  moreover have d: "solid_text (describe g)" and l: "solid_text ?l"
    using assms describe_solid by (auto simp: plain_generation_def)
  ultimately have "solid_text (?l @ ('' ('' @ describe g) @ '')'')"
    by (intro solid_text_append) (auto simp: solid_text_def)
  then have "clean_value (?l @ '' ('' @ describe g @ '')'')"
    by (simp add: solid_text_clean)
  moreover have "clean_value (describe g)" "clean_value (sort_key (lanzaboote_extension (spec g)))"
    using d assms by (auto simp: solid_text_clean plain_generation_def)
  moreover have "clean_key ''ID''" "clean_key ''PRETTY_NAME''" "clean_key ''VERSION_ID''"
    by code_simp+
  ultimately have "\<forall>(k, v) \<in> set ?m. clean_key k \<and> clean_value v"
    by (simp only: from_generation_entries) simp
  moreover have "btree_ok ?m"
    by (simp add: os_release_from_generation_def btree_insert_ok btree.wf_empty del: btree_insert.simps)
  ultimately have "os_release_from_str (os_release_display ?m) = ?m"
    by (rule display_round_trip [rotated])
  then show ?thesis
    by (simp add: os_release_from_generation_def btree_insert_lookup del: btree_insert.simps)
qed

definition sample_spec :: boot_spec_v1 where
  "sample_spec =
     \<lparr>label = ''NixOS 24.11'', kernel = [''/'', ''nix'', ''store'', ''abc-linux-6.6'', ''bzImage''],
      kernel_params = [''quiet''], init = [''/'', ''nix'', ''init''],
      initrd = Some [''/'', ''nix'', ''initrd''], initrd_secrets = None,
      toplevel = [''/'', ''nix'', ''system'']\<rparr>"

definition sample_generation :: Generation where
  "sample_generation =
     Generation 7 (Some ''2024-11-30'') None
       \<lparr>eb_bootspec = BootSpec sample_spec [], lanzaboote_extension = LanzabooteExtension_default\<rparr> []"

theorem os_release_of_generation_reads_back_witness:
  "map_of (os_release_from_str (os_release_display (os_release_from_generation sample_generation)))
     ''VERSION_ID'' = Some (''Generation 7, 2024-11-30'')"
proof -
  have "plain_generation sample_generation"
    unfolding plain_generation_def sample_generation_def sample_spec_def LanzabooteExtension_default_def
    by simp code_simp
  moreover have "describe sample_generation = ''Generation 7, 2024-11-30''"
    by (simp add: describe_def sample_generation_def describe_specialisation_def dec_def digits_of.simps)
      code_simp
  ultimately show ?thesis
    using os_release_of_generation_reads_back [of sample_generation] by simp
qed

text \<open>
  C18: A double-quoted value in which the shell's special characters are escaped with a backslash
  is read back exactly, whatever bytes it contains.\<close>

theorem os_release_double_quoted:
  assumes "clean_key k"
  shows "os_release_from_str (k @ ''='' @ [QUOTE] @ shell_escape v @ [QUOTE, LF]) = [(k, v)]"
proof -
  have "foldl os_step os_start (k @ ''='' @ [QUOTE] @ shell_escape v @ [QUOTE, LF]) = at_entry [(k, v)]"
    using run_quoted_entry [OF assms, of "[]" v] by (simp add: os_start_def at_entry_def)
  then show ?thesis by (simp add: os_release_from_str_def os_finish_def at_entry_def)
qed

theorem os_release_double_quoted_witness:
  "os_release_from_str (''VERSION='' @ [QUOTE] @ shell_escape (''a$b'' @ [QUOTE, LF]) @ [QUOTE, LF]) =
     [(''VERSION'', ''a$b'' @ [QUOTE, LF])]"
proof -
  have "clean_key ''VERSION''" by code_simp
  from os_release_double_quoted [OF this, of "''a$b'' @ [QUOTE, LF]"] show ?thesis by simp
qed

end
