(* ===== verification/Pe_Image.thy ===== *)
theory Pe_Image
  imports Os_Release
begin

text \<open>
  Building and reading PE images in the installer (\<open>tool/shared/src/pe.rs\<close>): the parameters of a
  stub, the placement of the sections that are attached to it, the call of \<open>objcopy\<close>, UEFI path
  names, and reading the data of a section.
\<close>

subsection \<open>Reading a section\<close>

fun find_section :: "string \<Rightarrow> section_table list \<Rightarrow> (section_table option, error) outcome" where
  "find_section name [] = Ok None"
| "find_section name (s # ss) =
     (case sec_name s of
        None \<Rightarrow> Panic
      | Some n \<Rightarrow> if n = name then Ok (Some s) else find_section name ss)"

definition section_bytes :: "bytes \<Rightarrow> section_table \<Rightarrow> (bytes, error) outcome" where
  "section_bytes d s =
     (let start = unat (pointer_to_raw_data s); stop = start + unat (virtual_size s)
      in if \<not> virtual_size s \<le> size_of_raw_data s then Panic
         else if length d < stop then Panic
         else Ok (take (unat (virtual_size s)) (drop start d)))"

definition read_section_data :: "env \<Rightarrow> bytes \<Rightarrow> string \<Rightarrow> (bytes option, error) outcome" where
  "read_section_data E d name =
     (case pe_parse E d of
        None \<Rightarrow> Ok None
      | Some pe \<Rightarrow>
          and_then (find_section name (sections pe)) (\<lambda>r.
            case r of None \<Rightarrow> Ok None | Some s \<Rightarrow> and_then (section_bytes d s) (\<lambda>b. Ok (Some b))))"

subsection \<open>UEFI paths\<close>

definition uefi_path :: "path \<Rightarrow> (string, error) outcome" where
  "uefi_path p =
     (case path_to_str p of
        None \<Rightarrow> Err (Msg ''Failed to convert to an UEFI path'')
      | Some x \<Rightarrow> Ok (replace_char CHR ''/'' BACKSLASH x))"

definition esp_relative_uefi_path :: "path \<Rightarrow> path \<Rightarrow> (string, error) outcome" where
  "esp_relative_uefi_path esp p =
     (case path_strip_prefix p esp of
        None \<Rightarrow> Err (Msg ''Failed to strip esp prefix'')
      | Some r \<Rightarrow> and_then (uefi_path r) (\<lambda>u. Ok (BACKSLASH # u)))"

subsection \<open>Stub parameters\<close>

record StubParameters =
  lanzaboote_store_path :: path
  kernel_cmdline :: "string list"
  os_release_contents :: bytes
  kernel_store_path :: path
  initrd_store_path :: path
  kernel_path_at_esp :: string
  initrd_path_at_esp :: string

definition StubParameters_new ::
  "path \<Rightarrow> path \<Rightarrow> path \<Rightarrow> path \<Rightarrow> path \<Rightarrow> path \<Rightarrow> (StubParameters, error) outcome" where
  "StubParameters_new lanzaboote_stub kernel_path initrd_path kernel_target initrd_target esp =
     and_then (esp_relative_uefi_path esp kernel_target) (\<lambda>k.
     and_then (esp_relative_uefi_path esp initrd_target) (\<lambda>i.
       Ok \<lparr>lanzaboote_store_path = lanzaboote_stub, kernel_cmdline = [], os_release_contents = [],
           kernel_store_path = kernel_path, initrd_store_path = initrd_path,
           kernel_path_at_esp = k, initrd_path_at_esp = i\<rparr>))"

definition with_os_release_contents :: "bytes \<Rightarrow> StubParameters \<Rightarrow> StubParameters" where
  "with_os_release_contents c p = p\<lparr>os_release_contents := c\<rparr>"

definition with_cmdline :: "string list \<Rightarrow> StubParameters \<Rightarrow> StubParameters" where
  "with_cmdline c p = p\<lparr>kernel_cmdline := c\<rparr>"

subsection \<open>Attaching sections\<close>

record Section =
  s_name :: string
  s_file_path :: path
  s_offset :: u64

definition to_objcopy :: "Section \<Rightarrow> string list" where
  "to_objcopy s =
     [''--add-section'', s_name s @ ''='' @ path_display (s_file_path s),
      ''--change-section-vma'', s_name s @ ''=0x'' @ hex (unat (s_offset s))]"

definition wrap_in_pe :: "env \<Rightarrow> path \<Rightarrow> Section list \<Rightarrow> path \<Rightarrow> unit io" where
  "wrap_in_pe E stub ss output =
     bind_io (command E ''objcopy'' (concat (map to_objcopy ss) @ [path_display stub, path_display output]))
       (\<lambda>b. if b then ret () else fail (Msg ''Failed to wrap in pe''))"

definition image_base :: "pe \<Rightarrow> (u64, error) outcome" where
  "image_base pe = expect (optional_image_base pe)"

definition stub_offset :: "env \<Rightarrow> path \<Rightarrow> u64 io" where
  "stub_offset E binary =
     bind_io (io_read binary) (\<lambda>d.
     bind_io (lift (ok_or (Msg ''Failed to parse PE binary file'') (pe_parse E d))) (\<lambda>pe.
     bind_io (lift (image_base pe)) (\<lambda>base.
       if sections pe = [] then panic
       else let s = last (sections pe) in ret (ucast (virtual_size s + virtual_address s) + base))))"

text \<open>Each section is placed where the one before it ends.\<close>

fun place_sections :: "u64 \<Rightarrow> (string \<times> path \<times> u64) list \<Rightarrow> Section list" where
  "place_sections offs [] = []"
| "place_sections offs ((n, f, sz) # rest) =
     \<lparr>s_name = n, s_file_path = f, s_offset = offs\<rparr> # place_sections (offs + sz) rest"

definition lanzaboote_image :: "env \<Rightarrow> path \<Rightarrow> StubParameters \<Rightarrow> path io" where
  "lanzaboote_image E tempdir sp =
     bind_io (write_secure_file E tempdir (join_with '' '' (kernel_cmdline sp))) (\<lambda>kernel_cmdline_file.
     bind_io (write_secure_file E tempdir (kernel_path_at_esp sp)) (\<lambda>kernel_path_file.
     bind_io (file_hash E (kernel_store_path sp)) (\<lambda>kernel_hash.
     bind_io (write_secure_file E tempdir kernel_hash) (\<lambda>kernel_hash_file.
     bind_io (write_secure_file E tempdir (initrd_path_at_esp sp)) (\<lambda>initrd_path_file.
     bind_io (file_hash E (initrd_store_path sp)) (\<lambda>initrd_hash.
     bind_io (write_secure_file E tempdir initrd_hash) (\<lambda>initrd_hash_file.
     bind_io (write_secure_file E tempdir (os_release_contents sp)) (\<lambda>os_release.
     bind_io (stub_offset E (lanzaboote_store_path sp)) (\<lambda>os_release_offs.
     bind_io (file_size os_release) (\<lambda>os_release_size.
     bind_io (file_size kernel_cmdline_file) (\<lambda>cmdline_size.
     bind_io (file_size initrd_path_file) (\<lambda>initrd_path_size.
     bind_io (file_size kernel_path_file) (\<lambda>kernel_path_size.
     bind_io (file_size initrd_hash_file) (\<lambda>initrd_hash_size.
       let ss = place_sections os_release_offs
                  [(''.osrel'', os_release, os_release_size),
                   (''.cmdline'', kernel_cmdline_file, cmdline_size),
                   (''.initrd'', initrd_path_file, initrd_path_size),
                   (''.linux'', kernel_path_file, kernel_path_size),
                   (''.initrdh'', initrd_hash_file, initrd_hash_size),
                   (''.linuxh'', kernel_hash_file, 0)]
       in bind_io (tmpname E) (\<lambda>n.
          let image_path = path_join tempdir n
          in bind_io (wrap_in_pe E (lanzaboote_store_path sp) ss image_path) (\<lambda>_.
             ret image_path))))))))))))))))"

definition append_initrd_secrets :: "env \<Rightarrow> path \<Rightarrow> path \<Rightarrow> u64 \<Rightarrow> unit io" where
  "append_initrd_secrets E script initrd_path generation_version =
     bind_io (command E (path_display script) [path_display initrd_path])
       (\<lambda>b. if b then ret ()
             else fail (Msg (''Failed to append initrd secrets for generation '' @
                             dec (unat generation_version))))"

end
