(* ===== verification/Io_Frame.thy ===== *)
theory Io_Frame
  imports Tool_Env
begin

text \<open>
  Reasoning about what a computation can do to the file system, in every state it passes through.

  \<open>keeps R m\<close> says that every state of the file system during and after a run of \<open>m\<close>, with any
  faults, is related to the state before. The locale \<open>path_relation\<close> fixes a relation between the
  old and the new node of each path that is reflexive and transitive; inside it every primitive has
  a rule, collected in \<open>keeps_intros\<close>, so that the proof for a composed operation follows its
  program text. A path whose node may change freely is \<open>free\<close>.
\<close>

subsection \<open>Paths below a directory\<close>

lemma below_prefix: "below p q \<longleftrightarrow> prefix p q"
  unfolding below_def by (metis append_take_drop_id prefix_def append_eq_conv_conj)

lemma below_refl [simp]: "below p p"
  by (simp add: below_def)

lemma below_append [simp]: "below p (p @ q)"
  by (simp add: below_def)

lemma below_trans: "below p q \<Longrightarrow> below q r \<Longrightarrow> below p r"
  unfolding below_prefix by (rule prefix_order.trans)

lemma below_antisym: "below p q \<Longrightarrow> below q p \<Longrightarrow> p = q"
  unfolding below_prefix by (rule prefix_order.antisym)

lemma below_linear: "below p r \<Longrightarrow> below q r \<Longrightarrow> below p q \<or> below q p"
  unfolding below_prefix by (metis prefix_same_cases)

text \<open>Absolute paths, as command line arguments name them.\<close>

definition component :: "string \<Rightarrow> bool" where
  "component c \<longleftrightarrow> c \<noteq> [] \<and> c \<noteq> ''.'' \<and> CHR ''/'' \<notin> set c"

definition abs_path :: "path \<Rightarrow> bool" where
  "abs_path p \<longleftrightarrow> p \<noteq> [] \<and> hd p = ''/'' \<and> list_all component (tl p)"

lemma abs_path_append: "abs_path p \<Longrightarrow> list_all component cs \<Longrightarrow> abs_path (p @ cs)"
  by (cases p) (auto simp: abs_path_def)

definition relative_name :: "string \<Rightarrow> bool" where
  "relative_name s \<longleftrightarrow> s \<noteq> [] \<and> hd s \<noteq> CHR ''/''"

lemma hd_split_on: "s \<noteq> [] \<Longrightarrow> hd s \<noteq> x \<Longrightarrow> hd (split_on x s) \<noteq> []"
  by (cases s) (auto split: list.splits)

lemma path_join_relative:
  assumes "relative_name s" "p \<noteq> []"
  shows "path_join p s = p @ filter (\<lambda>c. c \<noteq> [] \<and> c \<noteq> ''.'') (split_on CHR ''/'' s)"
proof -
  have nosep: "''/'' \<notin> set (split_on CHR ''/'' s)"
    using split_on_sep_free by fastforce
  have head: "hd (split_on CHR ''/'' s) \<noteq> []"
    using assms(1) hd_split_on by (simp add: relative_name_def)
  then have "''/'' \<notin> set (path_of s)"
    using nosep hd_split_on [of s "CHR ''/''"] assms(1)
    by (auto simp: path_of_def Let_def relative_name_def)
  then have "\<not> is_absolute (path_of s)"
    unfolding is_absolute_def by (metis list.set_sel(1))
  then show ?thesis
    using assms head by (auto simp: path_join_def path_of_def Let_def intro!: filter_cong)
qed

lemma path_join_below: "relative_name s \<Longrightarrow> p \<noteq> [] \<Longrightarrow> below p (path_join p s)"
  by (simp add: path_join_relative)

lemma abs_path_join: "relative_name s \<Longrightarrow> abs_path p \<Longrightarrow> abs_path (path_join p s)"
  by (auto simp: path_join_relative abs_path_append list_all_iff component_def abs_path_def
        dest: split_on_sep_free)

lemma path_of_display: "abs_path p \<Longrightarrow> path_of (path_display p) = p"
proof -
  assume p: "abs_path p"
  then obtain cs where cs: "p = ''/'' # cs" "list_all component cs"
    by (cases p) (auto simp: abs_path_def)
  show ?thesis
  proof (cases "cs = []")
    case True
    then show ?thesis by (simp add: cs path_display_def path_of_def is_absolute_def)
  next
    case False
    have "split_on CHR ''/'' (join_with ''/'' cs) = cs"
      using cs False by (intro split_on_join) (auto simp: list_all_iff component_def)
    moreover have "filter (\<lambda>c. c \<noteq> [] \<and> c \<noteq> ''.'') cs = cs"
      using cs(2) by (auto simp: list_all_iff component_def intro: filter_True)
    ultimately show ?thesis
      by (simp add: cs(1) path_display_def path_of_def is_absolute_def)
  qed
qed

named_theorems keeps_intros \<open>rules for what computations keep of the file system\<close>

definition extends :: "(fs \<Rightarrow> fs \<Rightarrow> bool) \<Rightarrow> world \<Rightarrow> world \<Rightarrow> bool" where
  "extends R w w' \<longleftrightarrow>
     (\<exists>h. history w' = history w @ h \<and> (\<forall>s \<in> set h \<union> {files w'}. R (files w) s))"

definition keeps :: "(fs \<Rightarrow> fs \<Rightarrow> bool) \<Rightarrow> 'a io \<Rightarrow> bool" where
  "keeps R m \<longleftrightarrow> (\<forall>w. extends R w (snd (m w)))"

lemma extends_draws [simp]: "extends R (w\<lparr>draws := n\<rparr>) w' = extends R w w'"
  by (simp add: extends_def)

lemma extends_files: "extends R w w' \<Longrightarrow> R (files w) (files w')"
  by (auto simp: extends_def)

lemma keeps_extends: "keeps R m \<Longrightarrow> m w = (r, w') \<Longrightarrow> extends R w w'"
  unfolding keeps_def by (metis snd_conv)

text \<open>The part of the history one run adds.\<close>

definition states_of :: "'a io \<Rightarrow> world \<Rightarrow> fs set" where
  "states_of m w = set (drop (length (history w)) (history (snd (m w)))) \<union> {files (snd (m w))}"

lemma final_state: "files (snd (m w)) \<in> states_of m w"
  by (simp add: states_of_def)

lemma keeps_states: "keeps R m \<Longrightarrow> s \<in> states_of m w \<Longrightarrow> R (files w) s"
  unfolding states_of_def keeps_def extends_def by (metis append_eq_conv_conj)

subsection \<open>Relations on whole file systems\<close>

locale fs_relation =
  fixes R :: "fs \<Rightarrow> fs \<Rightarrow> bool"
  assumes R_refl: "R s s"
    and R_trans: "R s t \<Longrightarrow> R t u \<Longrightarrow> R s u"
begin

lemma extends_refl: "extends R w w"
  by (simp add: extends_def R_refl)

lemma extends_trans: "extends R w w' \<Longrightarrow> extends R w' w'' \<Longrightarrow> extends R w w''"
proof -
  assume "extends R w w'" "extends R w' w''"
  then obtain h h' where h: "history w' = history w @ h" "\<forall>s \<in> set h \<union> {files w'}. R (files w) s"
    and h': "history w'' = history w' @ h'" "\<forall>s \<in> set h' \<union> {files w''}. R (files w') s"
    unfolding extends_def by blast
  have "R (files w) (files w')" using h(2) by simp
  then have "R (files w) s" if "s \<in> set (h @ h') \<union> {files w''}" for s
    using that h(2) h'(2) R_trans [of "files w" "files w'" s] by auto
  moreover have "history w'' = history w @ h @ h'" using h(1) h'(1) by simp
  ultimately show "extends R w w''"
    unfolding extends_def by blast
qed

lemma keeps_ret [keeps_intros]: "keeps R (ret a)"
  by (simp add: keeps_def ret_def extends_refl)

lemma keeps_fail [keeps_intros]: "keeps R (fail e)"
  by (simp add: keeps_def fail_def extends_refl)

lemma keeps_panic [keeps_intros]: "keeps R panic"
  by (simp add: keeps_def panic_def extends_refl)

lemma keeps_lift [keeps_intros]: "keeps R (lift x)"
  by (simp add: keeps_def lift_def extends_refl)

lemma keeps_tmpname [keeps_intros]: "keeps R (tmpname E)"
  by (simp add: keeps_def tmpname_def extends_def R_refl)

lemma extends_syscall: "R (files w) (snd (f k (files w))) \<Longrightarrow> k = (case faults w of [] \<Rightarrow> 0 | k # _ \<Rightarrow> k) \<Longrightarrow>
    extends R w (snd (syscall f w))"
  by (simp add: extends_def syscall_def Let_def split_beta)

lemma keeps_syscall:
  assumes "\<And>k s. R s (snd (f k s))"
  shows "keeps R (syscall f)"
  unfolding keeps_def using extends_syscall assms by blast

text \<open>When the continuation relies on what the first computation returns.\<close>

lemma extends_bind:
  assumes "extends R w (snd (m w))" "\<And>a w'. m w = (Ok a, w') \<Longrightarrow> extends R w' (snd (f a w'))"
  shows "extends R w (snd (bind_io m f w))"
proof -
  obtain r w' where mw: "m w = (r, w')" by (cases "m w")
  then show ?thesis
    using assms extends_trans [of w w'] by (cases r) (auto simp: bind_io_def)
qed

lemma keeps_bind_result:
  assumes m: "keeps R m" and f: "\<And>a w w'. m w = (Ok a, w') \<Longrightarrow> extends R w' (snd (f a w'))"
  shows "keeps R (bind_io m f)"
  using m f extends_bind unfolding keeps_def by blast

lemma keeps_bind [keeps_intros]:
  assumes "keeps R m" "\<And>a. keeps R (f a)"
  shows "keeps R (bind_io m f)"
  using assms(1)
proof (rule keeps_bind_result)
  show "extends R w' (snd (f a w'))" for a w'
    using assms(2) unfolding keeps_def by blast
qed

lemma keeps_try [keeps_intros]: "keeps R m \<Longrightarrow> keeps R (try_io m)"
proof -
  have "snd (try_io m w) = snd (m w)" for w
    by (auto simp: try_io_def split: prod.splits outcome.splits)
  then show "keeps R m \<Longrightarrow> keeps R (try_io m)" by (simp add: keeps_def)
qed

lemma keeps_seq [keeps_intros]: "(\<And>x. x \<in> set xs \<Longrightarrow> keeps R (f x)) \<Longrightarrow> keeps R (seq_io f xs)"
  by (induction xs) (auto intro: keeps_ret keeps_bind)

lemma keeps_reads [keeps_intros]:
  "keeps R (io_exists p)" "keeps R (io_is_dir p)" "keeps R (io_read p)" "keeps R (io_read_dir p)"
  "keeps R io_sync"
  unfolding io_exists_def io_is_dir_def io_read_def io_read_dir_def io_sync_def
  by (auto intro: keeps_syscall simp: R_refl)

lemma keeps_file_hash [keeps_intros]: "keeps R (file_hash E p)"
  unfolding file_hash_def by (intro keeps_intros)

lemma keeps_file_size [keeps_intros]: "keeps R (file_size p)"
  unfolding file_size_def by (intro keeps_intros)

lemma keeps_if [keeps_intros]: "keeps R a \<Longrightarrow> keeps R b \<Longrightarrow> keeps R (if c then a else b)"
  by simp

lemma keeps_option [keeps_intros]:
  "keeps R a \<Longrightarrow> (\<And>x. c = Some x \<Longrightarrow> keeps R (f x)) \<Longrightarrow> keeps R (case c of None \<Rightarrow> a | Some x \<Rightarrow> f x)"
  by (cases c) auto

lemma keeps_outcome [keeps_intros]:
  "(\<And>x. keeps R (f x)) \<Longrightarrow> (\<And>e. keeps R (g e)) \<Longrightarrow> keeps R p \<Longrightarrow>
     keeps R (case c of Ok x \<Rightarrow> f x | Err e \<Rightarrow> g e | Panic \<Rightarrow> p)"
  by (cases c) auto

end

subsection \<open>Relations path by path\<close>

definition pointwise :: "(path \<Rightarrow> node option \<Rightarrow> node option \<Rightarrow> bool) \<Rightarrow> fs \<Rightarrow> fs \<Rightarrow> bool" where
  "pointwise \<phi> s t \<longleftrightarrow> (\<forall>p. \<phi> p (fs_get s p) (fs_get t p))"

definition free :: "(path \<Rightarrow> node option \<Rightarrow> node option \<Rightarrow> bool) \<Rightarrow> path \<Rightarrow> bool" where
  "free \<phi> p \<longleftrightarrow> (\<forall>a b. \<phi> p a b)"

definition may_mkdir :: "(path \<Rightarrow> node option \<Rightarrow> node option \<Rightarrow> bool) \<Rightarrow> path \<Rightarrow> bool" where
  "may_mkdir \<phi> p \<longleftrightarrow> \<phi> p None (Some Dir)"

locale path_relation =
  fixes \<phi> :: "path \<Rightarrow> node option \<Rightarrow> node option \<Rightarrow> bool"
  assumes phi_refl: "\<phi> p a a"
    and phi_trans: "\<phi> p a b \<Longrightarrow> \<phi> p b c \<Longrightarrow> \<phi> p a c"

sublocale path_relation \<subseteq> rel: fs_relation "pointwise \<phi>"
proof
  show "pointwise \<phi> s s" for s by (simp add: pointwise_def phi_refl)
  show "pointwise \<phi> s t \<Longrightarrow> pointwise \<phi> t u \<Longrightarrow> pointwise \<phi> s u" for s t u
    unfolding pointwise_def using phi_trans by blast
qed

context path_relation
begin

lemma free_may_mkdir: "free \<phi> p \<Longrightarrow> may_mkdir \<phi> p"
  by (simp add: free_def may_mkdir_def)

lemma pointwise_put: "free \<phi> p \<Longrightarrow> pointwise \<phi> s (fs_put p n s)"
  by (simp add: pointwise_def free_def phi_refl)

lemma pointwise_change:
  "(\<And>q. \<not> free \<phi> q \<Longrightarrow> fs_get t q = fs_get s q) \<Longrightarrow> pointwise \<phi> s t"
  unfolding pointwise_def by (metis free_def phi_refl)

lemma keeps_create [keeps_intros]: "free \<phi> p \<Longrightarrow> keeps (pointwise \<phi>) (io_create m p)"
  unfolding io_create_def by (rule rel.keeps_syscall) (simp add: pointwise_put rel.R_refl)

lemma keeps_write_all [keeps_intros]: "free \<phi> p \<Longrightarrow> keeps (pointwise \<phi>) (io_write_all p d)"
  unfolding io_write_all_def
  by (rule rel.keeps_syscall) (auto simp: pointwise_put rel.R_refl split: option.split node.split)

lemma keeps_copy [keeps_intros]: "free \<phi> b \<Longrightarrow> keeps (pointwise \<phi>) (io_copy a b)"
  unfolding io_copy_def
  by (rule rel.keeps_syscall) (auto simp: pointwise_put rel.R_refl split: option.split node.split)

lemma keeps_set_mode [keeps_intros]:
  "(\<And>d m'. \<phi> p (Some (File d m')) (Some (File d m))) \<Longrightarrow> keeps (pointwise \<phi>) (io_set_mode p m)"
  unfolding io_set_mode_def
  by (rule rel.keeps_syscall) (auto simp: pointwise_def phi_refl split: option.split node.split)

lemma keeps_remove_file [keeps_intros]:
  "(\<And>n. \<phi> p (Some n) None) \<Longrightarrow> keeps (pointwise \<phi>) (io_remove_file p)"
  unfolding io_remove_file_def
  by (rule rel.keeps_syscall) (auto simp: pointwise_def phi_refl split: option.split node.split)

lemma keeps_remove_dir_all [keeps_intros]:
  "(\<And>q n. below p q \<Longrightarrow> \<phi> q (Some n) None) \<Longrightarrow> keeps (pointwise \<phi>) (io_remove_dir_all p)"
proof -
  assume drop: "\<And>q n. below p q \<Longrightarrow> \<phi> q (Some n) None"
  have "\<phi> q (fs_get s q) None" if "below p q" for q s
    using drop [OF that] phi_refl by (cases "fs_get s q") auto
  then show ?thesis
    unfolding io_remove_dir_all_def
    by (intro rel.keeps_syscall) (auto simp: pointwise_def phi_refl)
qed

lemma pointwise_mkdirs:
  "(\<And>i. i < length cs \<Longrightarrow> may_mkdir \<phi> (pre @ take (Suc i) cs)) \<Longrightarrow> pointwise \<phi> s (snd (mkdirs pre cs s))"
proof (induction pre cs s rule: mkdirs.induct)
  case (2 pre c cs s)
  let ?p = "pre @ [c]"
  have sub: "\<And>i. i < length cs \<Longrightarrow> may_mkdir \<phi> (?p @ take (Suc i) cs)"
    using "2.prems" by (metis Suc_less_eq append.assoc append_Cons append_Nil length_Cons take_Suc_Cons)
  have head: "may_mkdir \<phi> ?p" using "2.prems" [of 0] by simp
  show ?case
  proof (cases "is_dir s ?p \<or> fs_get s ?p \<noteq> None")
    case True
    then show ?thesis
      using "2.IH"(1) sub by (auto simp: Let_def rel.R_refl)
  next
    case False
    then have "pointwise \<phi> s (fs_put ?p Dir s)"
      using head by (simp add: pointwise_def may_mkdir_def phi_refl)
    moreover have "pointwise \<phi> (fs_put ?p Dir s) (snd (mkdirs ?p cs (fs_put ?p Dir s)))"
      using "2.IH"(2) False sub by simp
    ultimately show ?thesis
      using False rel.R_trans by (auto simp: Let_def)
  qed
qed (simp add: rel.R_refl)

lemma keeps_create_dir_all [keeps_intros]:
  "(\<And>q. below q p \<Longrightarrow> q \<noteq> [] \<Longrightarrow> may_mkdir \<phi> q) \<Longrightarrow> keeps (pointwise \<phi>) (io_create_dir_all p)"
  unfolding io_create_dir_all_def
proof (rule rel.keeps_syscall)
  fix k s
  assume mk: "\<And>q. below q p \<Longrightarrow> q \<noteq> [] \<Longrightarrow> may_mkdir \<phi> q"
  have "pointwise \<phi> s (snd (mkdirs [] p s))"
  proof (rule pointwise_mkdirs)
    fix i assume "i < length p"
    then have "below (take (Suc i) p) p" "take (Suc i) p \<noteq> []" by (auto simp: below_def min_def)
    then show "may_mkdir \<phi> ([] @ take (Suc i) p)" using mk by simp
  qed
  then show "pointwise \<phi> s (snd (if k \<noteq> 0 then (Err Io, s) else mkdirs [] p s))"
    by (simp add: rel.R_refl)
qed

lemma new_tempdir_result:
  "new_tempdir E w = (Ok p, w') \<Longrightarrow> p = tempdir_pick E (draws w) (files w)"
  by (auto simp: new_tempdir_def syscall_def Let_def split: if_splits)

lemma keeps_rename [keeps_intros]:
  assumes fr: "\<And>q. below a q \<or> below b q \<Longrightarrow> free \<phi> q"
  shows "keeps (pointwise \<phi>) (io_rename a b)"
  unfolding io_rename_def
proof (rule rel.keeps_syscall, goal_cases)
  case (1 k s)
  have move: "fs_get (map (\<lambda>(q, n). (if take (length a) q = a then b @ drop (length a) q else q, n)) s') q
      = fs_get s' q" if "\<not> below a q" "\<not> below b q" for s' q
    using that by (induction s') (auto simp: fs_get_def below_def)
  have *: "pointwise \<phi> s t" if "\<And>q. \<not> below a q \<Longrightarrow> \<not> below b q \<Longrightarrow> fs_get t q = fs_get s q" for t
    using fr that by (intro pointwise_change) blast
  show ?case
    by (auto simp: rel.R_refl move split: option.split node.split intro!: *)
qed

text \<open>Moving a complete file onto its target.\<close>

lemma extends_rename:
  assumes "fs_get (files w) a = Some (File d m)" "free \<phi> a" "\<And>x. \<phi> b x (Some (File d m))"
  shows "extends (pointwise \<phi>) w (snd (io_rename a b w))"
  unfolding io_rename_def
proof (rule rel.extends_syscall [OF _ refl], goal_cases)
  case 1
  have "pointwise \<phi> (files w) (fs_put b (File d m) (fs_del a (files w)))"
    using assms(2,3) by (auto simp: pointwise_def free_def phi_refl)
  then show ?case using assms(1) by (simp add: rel.R_refl)
qed

lemma keeps_new_tempdir:
  assumes "\<And>n s. free \<phi> (tempdir_pick E n s)"
  shows "keeps (pointwise \<phi>) (new_tempdir E)"
proof -
  have "keeps (pointwise \<phi>) (syscall (\<lambda>k s. let p = tempdir_pick E n s
          in if k \<noteq> 0 then (Err Io, s) else (Ok p, fs_put p Dir s)))" for n
    by (rule rel.keeps_syscall) (simp add: rel.R_refl pointwise_put assms Let_def)
  then have "extends (pointwise \<phi>) (w\<lparr>draws := Suc (draws w)\<rparr>) (snd (new_tempdir E w))" for w
    unfolding keeps_def new_tempdir_def by blast
  then show ?thesis by (simp add: keeps_def)
qed

lemma keeps_with_tempdir:
  assumes fr: "\<And>n s q. below (tempdir_pick E n s) q \<Longrightarrow> free \<phi> q"
    and body: "\<And>n s. keeps (pointwise \<phi>) (body (tempdir_pick E n s))"
  shows "keeps (pointwise \<phi>) (with_tempdir E body)"
  unfolding keeps_def
proof
  fix w
  obtain r w' where new: "new_tempdir E w = (r, w')" by (cases "new_tempdir E w")
  have ext: "extends (pointwise \<phi>) w w'"
    using keeps_extends [OF keeps_new_tempdir new] fr [OF below_refl] by blast
  show "extends (pointwise \<phi>) w (snd (with_tempdir E body w))"
  proof (cases r)
    case (Ok p)
    have p: "p = tempdir_pick E (draws w) (files w)"
      using new Ok by (simp add: new_tempdir_result)
    have "extends (pointwise \<phi>) w' (snd (body p w'))"
      using body unfolding p keeps_def by blast
    moreover have "keeps (pointwise \<phi>) (io_remove_dir_all p)"
      using fr unfolding p by (intro keeps_remove_dir_all) (simp add: free_def)
    then have "extends (pointwise \<phi>) (snd (body p w')) (snd (io_remove_dir_all p (snd (body p w'))))"
      unfolding keeps_def by blast
    ultimately have "extends (pointwise \<phi>) w (snd (io_remove_dir_all p (snd (body p w'))))"
      using rel.extends_trans [OF ext] rel.extends_trans by blast
    moreover have "snd (with_tempdir E body w) = snd (io_remove_dir_all p (snd (body p w')))"
      using new Ok by (simp add: with_tempdir_def split_beta Let_def)
    ultimately show ?thesis by simp
  qed (use ext new in \<open>simp_all add: with_tempdir_def\<close>)
qed

lemma keeps_command:
  assumes "\<And>k s. pointwise \<phi> s (snd (run E prog args k s))"
  shows "keeps (pointwise \<phi>) (command E prog args)"
  unfolding command_def
proof (rule rel.keeps_syscall)
  fix k s
  show "pointwise \<phi> s (snd (case run E prog args k s of (None, s') \<Rightarrow> (Err Io, s') | (Some b, s') \<Rightarrow> (Ok b, s')))"
    using assms [of s k] by (cases "run E prog args k s"; cases "fst (run E prog args k s)") auto
qed

end

subsection \<open>Paths that stay as they are\<close>

definition protect :: "(path \<Rightarrow> bool) \<Rightarrow> path \<Rightarrow> node option \<Rightarrow> node option \<Rightarrow> bool" where
  "protect P p a b \<longleftrightarrow> (P p \<longrightarrow> a = b)"

interpretation protected: path_relation "protect P" for P
  by unfold_locales (auto simp: protect_def)

lemma pointwise_protect: "pointwise (protect P) s t \<longleftrightarrow> (\<forall>p. P p \<longrightarrow> fs_get s p = fs_get t p)"
  by (simp add: pointwise_def protect_def)

lemma free_protect: "free (protect P) p \<longleftrightarrow> \<not> P p"
  by (auto simp: free_def protect_def)

interpretation same: fs_relation "(=)"
  by unfold_locales auto

lemma keeps_same:
  assumes "keeps (=) m" "\<And>s. R s s"
  shows "keeps R m"
  using assms unfolding keeps_def extends_def by metis

lemma extends_mono: "extends R w w' \<Longrightarrow> (\<And>s t. R s t \<Longrightarrow> Q s t) \<Longrightarrow> extends Q w w'"
  unfolding extends_def by blast

lemma keeps_mono:
  assumes "keeps R m" "\<And>s t. R s t \<Longrightarrow> Q s t"
  shows "keeps Q m"
  using assms extends_mono unfolding keeps_def by blast

subsection \<open>Successful runs\<close>

lemma syscall_Ok:
  "syscall f w = (Ok a, w') \<Longrightarrow> \<exists>k. fst (f k (files w)) = Ok a \<and> files w' = snd (f k (files w))"
  by (auto simp: syscall_def Let_def split: prod.splits)
    (metis fst_conv snd_conv)

lemma node_cases:
  obtains "x = None" | "x = Some Dir" | d m where "x = Some (File d m)"
  by (cases x) (auto intro: node.exhaust)

lemma bind_io_Ok:
  "bind_io m f w = (Ok b, w'') \<longleftrightarrow> (\<exists>a w'. m w = (Ok a, w') \<and> f a w' = (Ok b, w''))"
  by (auto simp: bind_io_def split: prod.splits outcome.splits)

lemma ret_Ok [simp]: "ret a w = (Ok b, w') \<longleftrightarrow> b = a \<and> w' = w"
  by (auto simp: ret_def)

lemma fail_Ok [simp]: "fail e w \<noteq> (Ok b, w')"
  by (simp add: fail_def)

lemma panic_Ok [simp]: "panic w \<noteq> (Ok b, w')"
  by (simp add: panic_def)

lemma lift_Ok [simp]: "lift r w = (Ok b, w') \<longleftrightarrow> r = Ok b \<and> w' = w"
  by (auto simp: lift_def)

lemma command_Ok:
  assumes "command E prog args w = (Ok b, w')"
  shows "\<exists>k. run E prog args k (files w) = (Some b, files w')"
proof -
  obtain k where k: "fst (case run E prog args k (files w) of (None, s') \<Rightarrow> (Err Io, s') | (Some b, s') \<Rightarrow> (Ok b, s')) = Ok b"
    "files w' = snd (case run E prog args k (files w) of (None, s') \<Rightarrow> (Err Io, s') | (Some b, s') \<Rightarrow> (Ok b, s'))"
    using syscall_Ok [OF assms [unfolded command_def]] by blast
  obtain r s' where "run E prog args k (files w) = (r, s')" by fastforce
  with k show ?thesis by (cases r) auto
qed

lemma io_copy_Ok:
  assumes "io_copy a b w = (Ok u, w')"
  shows "\<exists>d m. fs_get (files w) a = Some (File d m) \<and> files w' = fs_put b (File d m) (files w)"
  using syscall_Ok [OF assms [unfolded io_copy_def]]
  by (cases "fs_get (files w) a" rule: node_cases) (auto split: if_split_asm)

lemma io_read_Ok:
  assumes "io_read p w = (Ok d, w')"
  shows "(\<exists>m. fs_get (files w) p = Some (File d m)) \<and> files w' = files w"
  using syscall_Ok [OF assms [unfolded io_read_def]]
  by (cases "fs_get (files w) p" rule: node_cases) (auto split: if_split_asm)

lemma io_exists_Ok:
  assumes "io_exists p w = (Ok b, w')"
  shows "(b \<longrightarrow> present (files w) p) \<and> files w' = files w"
  using syscall_Ok [OF assms [unfolded io_exists_def]] by auto

lemma io_create_Ok:
  assumes "io_create m p w = (Ok u, w')"
  shows "\<exists>m'. files w' = fs_put p (File [] m') (files w)"
  using syscall_Ok [OF assms [unfolded io_create_def]]
  by (cases "fs_get (files w) p" rule: node_cases) (auto split: if_split_asm)

lemma io_write_all_Ok:
  assumes "io_write_all p d w = (Ok u, w')"
  shows "\<exists>m'. files w' = fs_put p (File d m') (files w)"
  using syscall_Ok [OF assms [unfolded io_write_all_def]]
  by (cases "fs_get (files w) p" rule: node_cases) (auto split: if_split_asm)

lemma io_sync_Ok:
  assumes "io_sync w = (Ok u, w')"
  shows "files w' = files w"
  using syscall_Ok [OF assms [unfolded io_sync_def]] by (auto split: if_split_asm)

lemma io_set_mode_Ok:
  assumes "io_set_mode p m w = (Ok u, w')"
  shows "(\<exists>d m'. fs_get (files w) p = Some (File d m') \<and> files w' = fs_put p (File d m) (files w)) \<or>
         fs_get (files w) p = Some Dir \<and> files w' = files w"
  using syscall_Ok [OF assms [unfolded io_set_mode_def]]
  by (cases "fs_get (files w) p" rule: node_cases) (auto split: if_split_asm)

lemma io_rename_file_Ok:
  assumes "io_rename a b w = (Ok u, w')" "fs_get (files w) a = Some (File d m)"
  shows "fs_get (files w') b = Some (File d m) \<and> (\<forall>q. q \<noteq> a \<and> q \<noteq> b \<longrightarrow> fs_get (files w') q = fs_get (files w) q)"
  using syscall_Ok [OF assms(1) [unfolded io_rename_def]] assms(2)
  by (auto split: if_split_asm)

subsection \<open>Paths that may only appear\<close>

definition appear :: "path \<Rightarrow> node option \<Rightarrow> node option \<Rightarrow> bool" where
  "appear p a b \<longleftrightarrow> a = None \<or> b = a"

interpretation appear: path_relation appear
  by unfold_locales (auto simp: appear_def)

lemma create_dir_all_appear: "keeps (pointwise appear) (io_create_dir_all p)"
  by (rule appear.keeps_create_dir_all) (simp add: may_mkdir_def appear_def)

end
