(* ===== verification/Esp_Paths.thy ===== *)
theory Esp_Paths
  imports Io_Frame
begin

text \<open>
  The places the installer writes to: the paths on the EFI system partition
  (\<open>architecture.rs\<close>, \<open>esp.rs\<close>) and the directories of \<open>systemd-pcrlock\<close> (\<open>pcrlock.rs\<close>).
\<close>

subsection \<open>Architectures\<close>

datatype Architecture = X86 | AArch64

primrec efi_representation :: "Architecture \<Rightarrow> string" where
  "efi_representation X86 = ''x64''"
| "efi_representation AArch64 = ''aa64''"

definition efi_fallback_filename :: "Architecture \<Rightarrow> string" where
  "efi_fallback_filename a = ''BOOT'' @ to_ascii_uppercase (efi_representation a) @ ''.EFI''"

definition from_nixos_system :: "string \<Rightarrow> (Architecture, error) outcome" where
  "from_nixos_system s =
     (if s = ''x86_64-linux'' then Ok X86
      else if s = ''aarch64-linux'' then Ok AArch64
      else Err (Msg (''Unsupported NixOS system: '' @ s @ ''.'')))"

definition systemd_filename :: "Architecture \<Rightarrow> string" where
  "systemd_filename a = ''systemd-boot'' @ efi_representation a @ ''.efi''"

subsection \<open>Paths on the ESP\<close>

record SystemdEspPaths =
  esp :: path
  efi :: path
  nixos :: path
  linux :: path
  efi_fallback_dir :: path
  efi_fallback :: path
  systemd :: path
  systemd_boot :: path
  loader :: path
  systemd_boot_loader_config :: path

definition SystemdEspPaths_new :: "path \<Rightarrow> Architecture \<Rightarrow> SystemdEspPaths" where
  "SystemdEspPaths_new e a =
     (let efi = path_join e ''EFI'';
          efi_nixos = path_join efi ''nixos'';
          efi_linux = path_join efi ''Linux'';
          efi_systemd = path_join efi ''systemd'';
          efi_efi_fallback_dir = path_join efi ''BOOT'';
          loader = path_join e ''loader''
      in \<lparr>esp = e, efi = efi, nixos = efi_nixos, linux = efi_linux,
          efi_fallback_dir = efi_efi_fallback_dir,
          efi_fallback = path_join efi_efi_fallback_dir (efi_fallback_filename a),
          systemd = efi_systemd, systemd_boot = path_join efi_systemd (systemd_filename a),
          loader = loader, systemd_boot_loader_config = path_join loader ''loader.conf''\<rparr>)"

definition esp_paths_iter :: "SystemdEspPaths \<Rightarrow> path list" where
  "esp_paths_iter p =
     [esp p, efi p, nixos p, linux p, efi_fallback_dir p, efi_fallback p, systemd p, systemd_boot p,
      loader p, systemd_boot_loader_config p]"

definition nixos_path :: "SystemdEspPaths \<Rightarrow> path" where
  "nixos_path p = nixos p"

definition linux_path :: "SystemdEspPaths \<Rightarrow> path" where
  "linux_path p = linux p"

subsection \<open>Directories of systemd-pcrlock\<close>

record PcrlockPaths =
  pcrlock :: path
  lanzaboote :: path
  bootloader :: path

definition PcrlockPaths_new :: "path \<Rightarrow> PcrlockPaths" where
  "PcrlockPaths_new d =
     \<lparr>pcrlock = d, lanzaboote = path_join d ''635-lanzaboote.pcrlock.d'',
      bootloader = path_join d ''630-bootloader.pcrlock.d''\<rparr>"

definition bootloader_measurement :: "PcrlockPaths \<Rightarrow> string \<Rightarrow> path" where
  "bootloader_measurement p name = path_join (bootloader p) (name @ ''.pcrlock'')"

definition lanzaboote_measurement :: "PcrlockPaths \<Rightarrow> string \<Rightarrow> path" where
  "lanzaboote_measurement p name = path_join (lanzaboote p) (name @ ''.pcrlock'')"

definition pcrlock_iter :: "PcrlockPaths \<Rightarrow> path list" where
  "pcrlock_iter p = [pcrlock p, lanzaboote p]"

definition lock_pe :: "env \<Rightarrow> path \<Rightarrow> path \<Rightarrow> unit io" where
  "lock_pe E binary_path pcrlock_component =
     bind_io (command E ''systemd-pcrlock''
                [''lock-pe'', path_display binary_path, ''--pcrlock'', path_display pcrlock_component])
       (\<lambda>b. if b then ret () else fail (Msg ''Failed to lock PE binary''))"

subsection \<open>The paths written out\<close>

lemma efi_fallback_filename_plain: "plain_name (efi_fallback_filename a)"
  by (cases a; hypsubst; code_simp)

lemma systemd_filename_plain: "plain_name (systemd_filename a)"
  by (cases a; hypsubst; code_simp)

lemma esp_paths_new:
  "SystemdEspPaths_new e a =
     \<lparr>esp = e, efi = e @ [''EFI''], nixos = e @ [''EFI'', ''nixos''], linux = e @ [''EFI'', ''Linux''],
      efi_fallback_dir = e @ [''EFI'', ''BOOT''],
      efi_fallback = e @ [''EFI'', ''BOOT'', efi_fallback_filename a],
      systemd = e @ [''EFI'', ''systemd''], systemd_boot = e @ [''EFI'', ''systemd'', systemd_filename a],
      loader = e @ [''loader''], systemd_boot_loader_config = e @ [''loader'', ''loader.conf'']\<rparr>"
proof -
  have "plain_name ''EFI''" "plain_name ''nixos''" "plain_name ''Linux''" "plain_name ''systemd''"
    "plain_name ''BOOT''" "plain_name ''loader''" "plain_name ''loader.conf''"
    by code_simp+
  then show ?thesis by (simp add: SystemdEspPaths_new_def efi_fallback_filename_plain systemd_filename_plain Let_def)
qed

lemma pcrlock_paths_new:
  "PcrlockPaths_new d =
     \<lparr>pcrlock = d, lanzaboote = d @ [''635-lanzaboote.pcrlock.d''], bootloader = d @ [''630-bootloader.pcrlock.d'']\<rparr>"
proof -
  have "plain_name ''635-lanzaboote.pcrlock.d''" "plain_name ''630-bootloader.pcrlock.d''"
    by code_simp+
  then show ?thesis by (simp add: PcrlockPaths_new_def)
qed

end
