(* ===== verification/Signer.thy ===== *)
theory Signer
  imports Pe_Image Esp_Paths
begin

text \<open>
  The signers (\<open>signature/mod.rs\<close>, \<open>empty.rs\<close>, \<open>local.rs\<close>).

  The trait \<open>Signer\<close> is the record of its methods; \<open>EmptyKeyPair\<close> and \<open>LocalKeyPair\<close> are two values
  of it. What the installer relies on is the locale \<open>signer_contract\<close>, which both satisfy: only the
  output of a signing operation is written, and the output of a successful one is a signed image of
  the input.
\<close>

subsection \<open>The trait\<close>

record signer =
  sign_store_path :: "path \<Rightarrow> bytes io"
  build_and_sign_stub :: "StubParameters \<Rightarrow> bytes io"
  get_public_key :: "bytes io"
  sign_and_copy :: "path \<Rightarrow> path \<Rightarrow> unit io"
  verify :: "bytes \<Rightarrow> bool io"
  verify_path :: "path \<Rightarrow> bool io"

text \<open>\<open>std::fs::write\<close> creates the file and writes it.\<close>

definition io_write_file :: "path \<Rightarrow> bytes \<Rightarrow> unit io" where
  "io_write_file p d = bind_io (io_create 0x1B6 p) (\<lambda>_. io_write_all p d)"

text \<open>The provided methods of the trait, for signers that do not override them.\<close>

definition default_sign_and_copy :: "(path \<Rightarrow> bytes io) \<Rightarrow> path \<Rightarrow> path \<Rightarrow> unit io" where
  "default_sign_and_copy sign src to = bind_io (sign src) (\<lambda>d. io_write_file to d)"

definition default_verify_path :: "(bytes \<Rightarrow> bool io) \<Rightarrow> path \<Rightarrow> bool io" where
  "default_verify_path vf src =
     bind_io (try_io (io_read src)) (\<lambda>r. case r of Ok d \<Rightarrow> vf d | _ \<Rightarrow> panic)"

subsection \<open>Signers\<close>

definition EmptyKeyPair :: "env \<Rightarrow> signer" where
  "EmptyKeyPair E =
     \<lparr>sign_store_path = io_read,
      build_and_sign_stub = (\<lambda>stub. with_tempdir E (\<lambda>d. bind_io (lanzaboote_image E d stub) io_read)),
      get_public_key = ret ''unsigned'',
      sign_and_copy = io_copy,
      verify = (\<lambda>_. ret True),
      verify_path = (\<lambda>_. ret True)\<rparr>"

record LocalKeyPair =
  private_key :: path
  public_key :: path

definition LocalKeyPair_new :: "path \<Rightarrow> path \<Rightarrow> LocalKeyPair" where
  "LocalKeyPair_new pub priv = \<lparr>private_key = priv, public_key = pub\<rparr>"

definition local_sign_and_copy :: "env \<Rightarrow> LocalKeyPair \<Rightarrow> path \<Rightarrow> path \<Rightarrow> unit io" where
  "local_sign_and_copy E kp src to =
     bind_io (command E ''sbsign''
                [''--key'', path_display (private_key kp), ''--cert'', path_display (public_key kp),
                 path_display src, ''--output'', path_display to])
       (\<lambda>b. if b then ret () else fail (Msg ''Failed to sign''))"

definition local_verify_path :: "env \<Rightarrow> LocalKeyPair \<Rightarrow> path \<Rightarrow> bool io" where
  "local_verify_path E kp p =
     command E ''sbverify'' [''--cert'', path_display (public_key kp), path_display p]"

definition local_sign_store_path :: "env \<Rightarrow> LocalKeyPair \<Rightarrow> path \<Rightarrow> bytes io" where
  "local_sign_store_path E kp store_path =
     with_tempdir E (\<lambda>d.
       let to = path_join d ''signed.efi''
       in bind_io (local_sign_and_copy E kp store_path to) (\<lambda>_. io_read to))"

definition local_build_and_sign_stub :: "env \<Rightarrow> LocalKeyPair \<Rightarrow> StubParameters \<Rightarrow> bytes io" where
  "local_build_and_sign_stub E kp stub =
     with_tempdir E (\<lambda>d.
       bind_io (lanzaboote_image E d stub) (\<lambda>image.
         let to = path_join d ''signed-stub.efi''
         in bind_io (local_sign_and_copy E kp image to) (\<lambda>_. io_read to)))"

definition local_verify :: "env \<Rightarrow> LocalKeyPair \<Rightarrow> bytes \<Rightarrow> bool io" where
  "local_verify E kp pe_binary =
     with_tempdir E (\<lambda>d. bind_io (write_secure_file E d pe_binary) (\<lambda>p. local_verify_path E kp p))"

definition local_signer :: "env \<Rightarrow> LocalKeyPair \<Rightarrow> signer" where
  "local_signer E kp =
     \<lparr>sign_store_path = local_sign_store_path E kp,
      build_and_sign_stub = local_build_and_sign_stub E kp,
      get_public_key = io_read (public_key kp),
      sign_and_copy = local_sign_and_copy E kp,
      verify = local_verify E kp,
      verify_path = local_verify_path E kp\<rparr>"

subsection \<open>The contract\<close>

locale signer_contract =
  fixes S :: signer and signs :: "bytes \<Rightarrow> bytes \<Rightarrow> bool"
  assumes key_pure: "keeps (=) (get_public_key S)"
    and verify_pure: "keeps (=) (verify_path S p)"
    and sign_writes: "abs_path to \<Longrightarrow> keeps (pointwise (protect (\<lambda>p. p \<noteq> to))) (sign_and_copy S src to)"
    and sign_result: "abs_path src \<Longrightarrow> abs_path to \<Longrightarrow> sign_and_copy S src to w = (Ok (), w') \<Longrightarrow>
      \<exists>d m d' m'. fs_get (files w) src = Some (File d m) \<and> fs_get (files w') to = Some (File d' m') \<and> signs d d'"

subsection \<open>Both signers satisfy it\<close>

interpretation empty: signer_contract "EmptyKeyPair E" "\<lambda>d d'. d' = d" for E
  by unfold_locales
    (auto simp: EmptyKeyPair_def free_protect intro!: keeps_intros dest!: io_copy_Ok)

text \<open>What is relied on of \<open>sbsign\<close> and \<open>sbverify\<close>.\<close>

definition writes_last :: "env \<Rightarrow> string \<Rightarrow> bool" where
  "writes_last E prog \<longleftrightarrow>
     (\<forall>args out k s q. abs_path out \<and> q \<noteq> out \<longrightarrow>
        fs_get (snd (run E prog (args @ [path_display out]) k s)) q = fs_get s q)"

definition leaves_files :: "env \<Rightarrow> string \<Rightarrow> bool" where
  "leaves_files E prog \<longleftrightarrow> (\<forall>args k s. snd (run E prog args k s) = s)"

definition sbsign_signs :: "env \<Rightarrow> LocalKeyPair \<Rightarrow> (bytes \<Rightarrow> bytes \<Rightarrow> bool) \<Rightarrow> bool" where
  "sbsign_signs E kp signs \<longleftrightarrow>
     (\<forall>src out k s s'. abs_path src \<and> abs_path out \<and>
        run E ''sbsign'' [''--key'', path_display (private_key kp), ''--cert'', path_display (public_key kp),
                          path_display src, ''--output'', path_display out] k s = (Some True, s') \<longrightarrow>
        (\<exists>d m d' m'. fs_get s src = Some (File d m) \<and> fs_get s' out = Some (File d' m') \<and> signs d d'))"

lemma writes_lastD:
  assumes "writes_last E prog" "abs_path out" "args = as @ [path_display out]"
  shows "keeps (pointwise (protect (\<lambda>p. p \<noteq> out))) (command E prog args)"
  using assms by (intro protected.keeps_command) (simp add: writes_last_def pointwise_protect)

lemma local_contract:
  assumes "writes_last E ''sbsign''" "leaves_files E ''sbverify''" "sbsign_signs E kp signs"
  shows "signer_contract (local_signer E kp) signs"
proof
  show "keeps (=) (get_public_key (local_signer E kp))"
    by (simp add: local_signer_def same.keeps_reads)
  show "keeps (=) (verify_path (local_signer E kp) p)" for p
    using assms(2) by (auto simp: local_signer_def local_verify_path_def command_def leaves_files_def
        split_beta split: option.split intro!: same.keeps_syscall)
  show "keeps (pointwise (protect (\<lambda>p. p \<noteq> to))) (sign_and_copy (local_signer E kp) src to)"
    if "abs_path to" for src to
  proof -
    have "keeps (pointwise (protect (\<lambda>p. p \<noteq> to))) (command E ''sbsign''
            [''--key'', path_display (private_key kp), ''--cert'', path_display (public_key kp),
             path_display src, ''--output'', path_display to])"
      by (rule writes_lastD [OF assms(1) that]) simp
    then show ?thesis
      by (auto simp: local_signer_def local_sign_and_copy_def intro!: keeps_intros)
  qed
  show "\<exists>d m d' m'. fs_get (files w) src = Some (File d m) \<and> fs_get (files w') to = Some (File d' m') \<and> signs d d'"
    if "abs_path src" "abs_path to" "sign_and_copy (local_signer E kp) src to w = (Ok (), w')" for src to w w'
    using that assms(3)
    by (auto simp: local_signer_def local_sign_and_copy_def bind_io_Ok sbsign_signs_def
        dest!: command_Ok split: if_splits)
qed

end
