(* ===== verification/Gc.thy ===== *)
theory Gc
  imports Io_Frame
begin

text \<open>
  The garbage collector (\<open>gc.rs\<close>): a set of roots, and the removal of everything below a directory
  that is not a root. The order in which the directory walk delivers paths, and whether it still
  delivers paths whose directory has been removed meanwhile, is left to the parameter \<open>walk\<close>.
\<close>

type_synonym Roots = "path set"

definition Roots_new :: Roots where
  "Roots_new = {}"

definition roots_extend :: "path list \<Rightarrow> Roots \<Rightarrow> Roots" where
  "roots_extend ps r = r \<union> set ps"

definition in_use :: "Roots \<Rightarrow> path option \<Rightarrow> bool" where
  "in_use r e = (case e of Some p \<Rightarrow> p \<in> r | None \<Rightarrow> False)"

definition walk_dir :: "env \<Rightarrow> path \<Rightarrow> path option list io" where
  "walk_dir E d = syscall (\<lambda>k s. (Ok (walk E d s), s))"

definition remove_entry :: "path option \<Rightarrow> unit io" where
  "remove_entry e =
     (case e of
        None \<Rightarrow> fail Io
      | Some p \<Rightarrow>
          bind_io (io_is_dir p) (\<lambda>d.
            if d then io_remove_dir_all p
            else bind_io (try_io (io_remove_file p)) (\<lambda>_. ret ())))"

definition collect_garbage_with_filter :: "env \<Rightarrow> Roots \<Rightarrow> path \<Rightarrow> (path \<Rightarrow> bool) \<Rightarrow> unit io" where
  "collect_garbage_with_filter E r directory predicate =
     bind_io (walk_dir E directory) (\<lambda>es.
       seq_io remove_entry
         (filter (\<lambda>e. case e of Some p \<Rightarrow> predicate p | None \<Rightarrow> False)
            (filter (\<lambda>e. \<not> in_use r e) es)))"

definition collect_garbage :: "env \<Rightarrow> Roots \<Rightarrow> path \<Rightarrow> unit io" where
  "collect_garbage E r directory = collect_garbage_with_filter E r directory (\<lambda>_. True)"

subsection \<open>What is garbage\<close>

text \<open>
  A path is garbage when it, or one of the directories above it up to the collected directory,
  matches the predicate and is not a root.
\<close>

definition garbage :: "Roots \<Rightarrow> (path \<Rightarrow> bool) \<Rightarrow> path \<Rightarrow> path \<Rightarrow> bool" where
  "garbage r P d q \<longleftrightarrow> list_ex (\<lambda>p. below d p \<and> p \<notin> r \<and> P p) (prefixes q)"

lemma garbage_iff: "garbage r P d q \<longleftrightarrow> (\<exists>p. below d p \<and> below p q \<and> p \<notin> r \<and> P p)"
  by (auto simp: garbage_def list_ex_iff below_prefix)

text \<open>What the walk promises: only paths below the directory, and all of them except those below
  a directory that is removed before the walk reaches them.\<close>

definition walk_sound :: "env \<Rightarrow> bool" where
  "walk_sound E \<longleftrightarrow> (\<forall>d s p. Some p \<in> set (walk E d s) \<longrightarrow> below d p)"

definition walk_complete :: "env \<Rightarrow> Roots \<Rightarrow> (path \<Rightarrow> bool) \<Rightarrow> path \<Rightarrow> fs \<Rightarrow> bool" where
  "walk_complete E r P d s \<longleftrightarrow>
     (\<forall>p. below d p \<and> present s p \<longrightarrow>
          Some p \<in> set (walk E d s) \<or> (\<exists>q. below d q \<and> below q p \<and> q \<noteq> p \<and> q \<notin> r \<and> P q \<and> present s q))"

text \<open>Every node lies in directories.\<close>

definition fs_tree :: "fs \<Rightarrow> bool" where
  "fs_tree s \<longleftrightarrow> (\<forall>p q. fs_get s q \<noteq> None \<and> below p q \<and> p \<noteq> q \<longrightarrow> is_dir s p)"

subsection \<open>Lemmas\<close>

definition selected :: "Roots \<Rightarrow> (path \<Rightarrow> bool) \<Rightarrow> path option list \<Rightarrow> path option list" where
  "selected r P es = filter (\<lambda>e. case e of Some p \<Rightarrow> P p | None \<Rightarrow> False) (filter (\<lambda>e. \<not> in_use r e) es)"

lemma set_selected: "set (selected r P es) = Some ` {p. Some p \<in> set es \<and> p \<notin> r \<and> P p}"
  by (auto simp: selected_def in_use_def split: option.splits)

context path_relation
begin

lemma keeps_remove_entry:
  assumes "\<And>q a. below p q \<Longrightarrow> \<phi> q (Some a) None"
  shows "keeps (pointwise \<phi>) (remove_entry (Some p))"
  unfolding remove_entry_def option.case by (intro keeps_intros) (use assms in auto)

lemma keeps_walk_dir [keeps_intros]: "keeps (pointwise \<phi>) (walk_dir E d)"
  unfolding walk_dir_def by (rule rel.keeps_syscall) (simp add: rel.R_refl)

lemma walk_dir_result: "walk_dir E d w = (Ok es, w') \<Longrightarrow> es = walk E d (files w)"
  by (auto simp: walk_dir_def syscall_def Let_def)

lemma keeps_collect:
  assumes "walk_sound E" "\<And>q a. garbage r P d q \<Longrightarrow> \<phi> q (Some a) None"
  shows "keeps (pointwise \<phi>) (collect_garbage_with_filter E r d P)"
  unfolding collect_garbage_with_filter_def selected_def [symmetric]
proof (rule rel.keeps_bind_result [OF keeps_walk_dir])
  fix es w w'
  assume "walk_dir E d w = (Ok es, w')"
  then have es: "es = walk E d (files w)" by (rule walk_dir_result)
  have "keeps (pointwise \<phi>) (seq_io remove_entry (selected r P es))"
  proof (rule rel.keeps_seq)
    fix e assume "e \<in> set (selected r P es)"
    then obtain p where "e = Some p" "below d p" "p \<notin> r" "P p"
      using assms(1) unfolding set_selected es walk_sound_def by auto
    then show "keeps (pointwise \<phi>) (remove_entry e)"
      using assms(2) garbage_iff by (metis keeps_remove_entry)
  qed
  then show "extends (pointwise \<phi>) w' (snd (seq_io remove_entry (selected r P es) w'))"
    unfolding keeps_def by blast
qed

end

subsection \<open>Runs without faults\<close>

definition pruned :: "(path \<Rightarrow> bool) \<Rightarrow> fs \<Rightarrow> fs \<Rightarrow> bool" where
  "pruned D s t \<longleftrightarrow> (\<forall>q. fs_get t q = (if D q then None else fs_get s q))"

lemma fs_tree_pruned:
  assumes "fs_tree s" "pruned (below p) s t"
  shows "fs_tree t"
  unfolding fs_tree_def
proof (intro allI impI)
  fix r q
  assume rq: "fs_get t q \<noteq> None \<and> below r q \<and> r \<noteq> q"
  then have "\<not> below p q" "fs_get s q \<noteq> None"
    using assms(2) by (auto simp: pruned_def split: if_splits)
  with rq have "is_dir s r" "\<not> below p r"
    using assms(1) below_trans unfolding fs_tree_def by blast+
  then show "is_dir t r" using assms(2) by (simp add: is_dir_def pruned_def)
qed

lemma fs_tree_file:
  assumes "fs_tree s" "\<not> is_dir s p" "below p q" "q \<noteq> p"
  shows "fs_get s q = None"
  using assms unfolding fs_tree_def by metis

lemma fs_tree_check:
  "fs_tree s \<longleftrightarrow> list_all (\<lambda>(q, _). list_all (\<lambda>p. p = q \<or> is_dir s p) (prefixes q)) s"
proof -
  have "fs_get s q \<noteq> None \<longleftrightarrow> q \<in> fst ` set s" for q
    by (simp add: fs_get_def map_of_eq_None_iff)
  then show ?thesis
    unfolding fs_tree_def below_prefix list_all_iff by fastforce
qed

lemma syscall_fault_free:
  "faults w = [] \<Longrightarrow> syscall f w = (fst (f 0 (files w)), w\<lparr>files := snd (f 0 (files w)), history := history w @ [snd (f 0 (files w))]\<rparr>)"
  by (simp add: syscall_def Let_def split_beta)

lemma remove_entry_fault_free:
  assumes "faults w = []" "fs_tree (files w)"
  shows "\<exists>w'. remove_entry (Some p) w = (Ok (), w') \<and> faults w' = [] \<and>
              pruned (below p) (files w) (files w')"
proof (cases "is_dir (files w) p")
  case True
  then show ?thesis
    using assms(1)
    by (simp add: remove_entry_def bind_io_def io_is_dir_def io_remove_dir_all_def syscall_fault_free pruned_def)
next
  case False
  note single = fs_tree_file [OF assms(2) False]
  show ?thesis
  proof (cases "fs_get (files w) p")
    case None
    then have gone: "fs_get (files w) q = None" if "below p q" for q
      using single that by (cases "q = p") auto
    with None show ?thesis
      using assms(1) False
      by (simp add: remove_entry_def bind_io_def io_is_dir_def io_remove_file_def try_io_def ret_def
          syscall_fault_free pruned_def)
  next
    case (Some n)
    then obtain d m where "n = File d m" using False by (cases n) (auto simp: is_dir_def)
    with Some show ?thesis
      using assms(1) False single
      by (auto simp: remove_entry_def bind_io_def io_is_dir_def io_remove_file_def try_io_def ret_def
          syscall_fault_free pruned_def)
  qed
qed

lemma pruned_compose:
  "pruned D s t \<Longrightarrow> pruned D' t u \<Longrightarrow> pruned (\<lambda>q. D q \<or> D' q) s u"
  by (simp add: pruned_def)

lemma remove_entries_fault_free:
  assumes "faults w = []" "fs_tree (files w)"
  shows "\<exists>w'. seq_io remove_entry (map Some ps) w = (Ok (), w') \<and> faults w' = [] \<and>
              pruned (\<lambda>q. \<exists>p \<in> set ps. below p q) (files w) (files w')"
  using assms
proof (induction ps arbitrary: w)
  case Nil
  then show ?case by (simp add: ret_def pruned_def)
next
  case (Cons p ps)
  obtain w1 where w1: "remove_entry (Some p) w = (Ok (), w1)" "faults w1 = []"
    "pruned (below p) (files w) (files w1)"
    using remove_entry_fault_free [OF Cons.prems] by blast
  obtain w2 where w2: "seq_io remove_entry (map Some ps) w1 = (Ok (), w2)" "faults w2 = []"
    "pruned (\<lambda>q. \<exists>p \<in> set ps. below p q) (files w1) (files w2)"
    using Cons.IH [OF w1(2) fs_tree_pruned [OF Cons.prems(2) w1(3)]] by blast
  have "pruned (\<lambda>q. \<exists>p \<in> set (p # ps). below p q) (files w) (files w2)"
    using pruned_compose [OF w1(3) w2(3)] by simp
  with w1(1) w2(1,2) show ?case by (simp add: bind_io_def)
qed

text \<open>The topmost selected directory above a garbage path is delivered by the walk.\<close>

lemma walk_delivers_cause:
  assumes "walk_complete E r P d s" "fs_tree s" "fs_get s q \<noteq> None" "garbage r P d q"
  shows "\<exists>p. Some p \<in> set (walk E d s) \<and> p \<notin> r \<and> P p \<and> below p q"
proof -
  define C where "C p \<longleftrightarrow> below d p \<and> below p q \<and> p \<notin> r \<and> P p" for p
  obtain p where p: "C p" and least: "\<And>p'. C p' \<Longrightarrow> length p \<le> length p'"
    using assms(4) ex_has_least_nat [of C _ length] unfolding garbage_iff C_def by blast
  have "present s p"
    using p assms(2,3) unfolding C_def fs_tree_def present_def by metis
  moreover have "\<not> (\<exists>p'. below d p' \<and> below p' p \<and> p' \<noteq> p \<and> p' \<notin> r \<and> P p' \<and> present s p')"
  proof
    assume "\<exists>p'. below d p' \<and> below p' p \<and> p' \<noteq> p \<and> p' \<notin> r \<and> P p' \<and> present s p'"
    then obtain p' where p': "below d p'" "below p' p" "p' \<noteq> p" "p' \<notin> r" "P p'" by blast
    then have "C p'" using p below_trans unfolding C_def by blast
    moreover have "length p' < length p"
      using p'(2,3) by (auto simp: below_prefix prefix_def)
    ultimately show False using least by fastforce
  qed
  ultimately have "Some p \<in> set (walk E d s)"
    using assms(1) p unfolding walk_complete_def C_def by blast
  with p show ?thesis unfolding C_def by blast
qed

lemma list_of_somes: "\<forall>e \<in> set es. e \<noteq> None \<Longrightarrow> es = map Some (map the es)"
  by (induction es) auto

lemma collect_garbage_exactly:
  assumes "walk_sound E" "walk_complete E r P d (files w)" "fs_tree (files w)" "faults w = []"
  shows "\<exists>w'. collect_garbage_with_filter E r d P w = (Ok (), w') \<and> faults w' = [] \<and>
              pruned (garbage r P d) (files w) (files w')"
proof -
  let ?es = "selected r P (walk E d (files w))"
  define ps where "ps = map the ?es"
  have es: "?es = map Some ps"
    unfolding ps_def by (rule list_of_somes) (auto simp: set_selected)
  have ps: "set ps = {p. Some p \<in> set (walk E d (files w)) \<and> p \<notin> r \<and> P p}"
    unfolding ps_def set_map set_selected by force
  define w1 where "w1 = w\<lparr>history := history w @ [files w]\<rparr>"
  have files1: "files w1 = files w" by (simp add: w1_def)
  have walk: "walk_dir E d w = (Ok (walk E d (files w)), w1)"
    using assms(4) by (simp add: walk_dir_def syscall_fault_free w1_def)
  obtain w' where w': "seq_io remove_entry ?es w1 = (Ok (), w')" "faults w' = []"
    "pruned (\<lambda>q. \<exists>p \<in> set ps. below p q) (files w1) (files w')"
    using remove_entries_fault_free [of w1 ps] assms(3,4) unfolding es by (auto simp: w1_def)
  have "(\<exists>p \<in> set ps. below p q) \<longleftrightarrow> garbage r P d q" if "fs_get (files w) q \<noteq> None" for q
    using walk_delivers_cause [OF assms(2,3) that] assms(1)
    unfolding ps garbage_iff walk_sound_def by blast
  then have "pruned (garbage r P d) (files w) (files w')"
    using w'(3) unfolding pruned_def files1 by (metis (full_types))
  then show ?thesis
    using walk w'(1,2) unfolding collect_garbage_with_filter_def selected_def [symmetric]
    by (simp add: bind_io_def)
qed

subsection \<open>Properties\<close>

text \<open>
  C14: The garbage collector never touches what it must keep: whatever the order of the walk and
  whatever I/O faults occur, in every state during and after a collection each path that is not
  garbage, in particular everything outside the directory and each root whose directories are
  roots, has the node it had before.\<close>

theorem collect_garbage_keeps_live:
  assumes "walk_sound E" "\<not> garbage r P d q" "s \<in> states_of (collect_garbage_with_filter E r d P) w"
  shows "fs_get s q = fs_get (files w) q"
proof -
  have "keeps (pointwise (protect (\<lambda>q. \<not> garbage r P d q))) (collect_garbage_with_filter E r d P)"
    by (rule protected.keeps_collect [OF assms(1)]) (simp add: protect_def)
  from keeps_states [OF this assms(3)] assms(2) show ?thesis
    by (simp add: pointwise_protect)
qed

definition walk_list :: "path \<Rightarrow> fs \<Rightarrow> path option list" where
  "walk_list d s = map Some (filter (below d) (map fst s))"

definition sample_env :: env where
  "sample_env =
     \<lparr>sha256 = id, base32 = (\<lambda>_. ''h''), pe_parse = (\<lambda>_. None), inputs_to_json = (\<lambda>_. []),
      boot_json_from_slice = (\<lambda>_. None), synthesize_latest = (\<lambda>_ _. None),
      try_into_bootspec = (\<lambda>_. None), sort_key_from_value = (\<lambda>_. None), mtime = (\<lambda>_ _. None),
      date_from_timestamp = (\<lambda>_. None), alphanumeric = (\<lambda>_. CHR ''a''),
      unicode_digits = (\<lambda>s. s \<noteq> [] \<and> set s \<subseteq> set ''0123456789''),
      tempdir_pick = (\<lambda>n _. [''/'', ''tmp'', ''t'' @ dec n]), walk = walk_list,
      run = (\<lambda>_ _ _ s. (None, s))\<rparr>"

definition sample_esp :: fs where
  "sample_esp =
     [([''/'', ''e''], Dir), ([''/'', ''e'', ''nixos''], Dir),
      ([''/'', ''e'', ''nixos'', ''old.efi''], File ''o'' 0), ([''/'', ''e'', ''nixos'', ''new.efi''], File ''n'' 0)]"

definition sample_world :: world where
  "sample_world = \<lparr>files = sample_esp, history = [], faults = [], draws = 0\<rparr>"

definition sample_roots :: Roots where
  "sample_roots = {[''/'', ''e'', ''nixos''], [''/'', ''e'', ''nixos'', ''new.efi'']}"

lemma sample_walk_sound: "walk_sound sample_env"
  by (auto simp: walk_sound_def sample_env_def walk_list_def)

theorem collect_garbage_keeps_live_witness:
  "fs_get (files (snd (collect_garbage_with_filter sample_env sample_roots [''/'', ''e'', ''nixos''] (\<lambda>_. True)
                         sample_world)))
     [''/'', ''e'', ''nixos'', ''new.efi''] = Some (File ''n'' 0)"
proof -
  have "\<not> garbage sample_roots (\<lambda>_. True) [''/'', ''e'', ''nixos''] [''/'', ''e'', ''nixos'', ''new.efi'']"
    by (simp add: garbage_def sample_roots_def below_def)
  from collect_garbage_keeps_live [OF sample_walk_sound this final_state]
  show ?thesis by (simp add: sample_world_def sample_esp_def fs_get_def)
qed

text \<open>
  C15: Without I/O faults a collection succeeds and removes exactly the garbage: a path is gone
  when it is garbage and unchanged otherwise.\<close>

theorem collect_garbage_removes_garbage:
  assumes "walk_sound E" "walk_complete E r P d (files w)" "fs_tree (files w)" "faults w = []"
  shows "\<exists>w'. collect_garbage_with_filter E r d P w = (Ok (), w') \<and>
              (\<forall>q. fs_get (files w') q = (if garbage r P d q then None else fs_get (files w) q))"
  using collect_garbage_exactly [OF assms] unfolding pruned_def by blast

lemma sample_tree: "fs_tree sample_esp"
  by (simp add: fs_tree_check sample_esp_def fs_get_def is_dir_def)

lemma walk_list_complete:
  assumes "d \<noteq> []" "d \<noteq> [''/'']"
  shows "walk_complete (E\<lparr>walk := walk_list\<rparr>) r P d s"
proof -
  have "Some p \<in> set (walk_list d s)" if "below d p" "present s p" for p
  proof -
    have "p \<noteq> [] \<and> p \<noteq> [''/'']"
      using that(1) assms by (auto simp: below_prefix prefix_Cons)
    then have "fs_get s p \<noteq> None"
      using that(2) by (auto simp: present_def is_dir_def)
    then have "p \<in> fst ` set s" by (simp add: fs_get_def map_of_eq_None_iff)
    with that(1) show ?thesis by (simp add: walk_list_def image_iff)
  qed
  then show ?thesis by (simp add: walk_complete_def)
qed

lemma sample_walk_complete: "walk_complete sample_env r P [''/'', ''e'', ''nixos''] s"
  using walk_list_complete [of "[''/'', ''e'', ''nixos'']" sample_env] by (simp add: sample_env_def)

theorem collect_garbage_removes_garbage_witness:
  "\<exists>w'. collect_garbage_with_filter sample_env sample_roots [''/'', ''e'', ''nixos''] (\<lambda>_. True) sample_world
          = (Ok (), w') \<and> fs_get (files w') [''/'', ''e'', ''nixos'', ''old.efi''] = None"
proof -
  have "garbage sample_roots (\<lambda>_. True) [''/'', ''e'', ''nixos''] [''/'', ''e'', ''nixos'', ''old.efi'']"
    by (simp add: garbage_def sample_roots_def below_def)
  then show ?thesis
    using collect_garbage_removes_garbage [of sample_env sample_roots "\<lambda>_. True" "[''/'', ''e'', ''nixos'']" sample_world]
      sample_walk_sound sample_walk_complete sample_tree
    by (auto simp: sample_world_def)
qed

end
