(* ===== verification/Systemd_Version.thy ===== *)
theory Systemd_Version
  imports Pe_Image
begin

text \<open>
  Versions of systemd (\<open>tool/systemd/src/version.rs\<close>): their order, parsing, and reading the
  version from the \<open>.osrel\<close> section of a systemd-boot binary.

  The minor version is a signed 32 bit number; parsing only lets values of that range through and
  the code never calculates with it, so that it is an integer here.
\<close>

subsection \<open>Versions and their order\<close>

datatype SystemdVersion = SystemdVersion (major: u32) (minor: int) (patch: u32)

text \<open>The derived order compares the fields in the order of their declaration.\<close>

instantiation SystemdVersion :: linorder
begin

definition less_eq_SystemdVersion :: "SystemdVersion \<Rightarrow> SystemdVersion \<Rightarrow> bool" where
  "less_eq_SystemdVersion a b \<longleftrightarrow>
     major a < major b \<or> major a = major b \<and>
       (minor a < minor b \<or> minor a = minor b \<and> patch a \<le> patch b)"

definition less_SystemdVersion :: "SystemdVersion \<Rightarrow> SystemdVersion \<Rightarrow> bool" where
  "less_SystemdVersion a b \<longleftrightarrow>
     major a < major b \<or> major a = major b \<and>
       (minor a < minor b \<or> minor a = minor b \<and> patch a < patch b)"

instance
  by standard (auto simp: less_eq_SystemdVersion_def less_SystemdVersion_def SystemdVersion.expand)

end

subsection \<open>Parsing\<close>

definition parse_u32 :: "string \<Rightarrow> (u32, error) outcome" where
  "parse_u32 s = map_err (\<lambda>_. Msg ''invalid number'') (and_then (ok_or () (parse_unsigned 32 s)) (\<lambda>n. Ok (of_nat n)))"

definition parse_i32 :: "string \<Rightarrow> (int, error) outcome" where
  "parse_i32 s = ok_or (Msg ''invalid number'') (parse_signed 32 s)"

definition version_from_str :: "string \<Rightarrow> (SystemdVersion, error) outcome" where
  "version_from_str s =
     (case split_once ''-rc'' s of
        Some (major_str, rc_str) \<Rightarrow>
          and_then (parse_u32 major_str) (\<lambda>a. and_then (parse_u32 rc_str) (\<lambda>c.
            Ok (SystemdVersion a (-1) c)))
      | None \<Rightarrow>
          (case split_once ''.'' s of
             Some (major_str, minor_str) \<Rightarrow>
               and_then (parse_u32 major_str) (\<lambda>a. and_then (parse_i32 minor_str) (\<lambda>b.
                 Ok (SystemdVersion a b 0)))
           | None \<Rightarrow> and_then (parse_u32 s) (\<lambda>a. Ok (SystemdVersion a 0 0))))"

text \<open>
  \<open>CStr::from_bytes_with_nul\<close> demands that the only zero byte is the last one.
\<close>

definition NUL :: char where
  "NUL = char_of (0 :: nat)"

definition osrel_text :: "bytes \<Rightarrow> (string, error) outcome" where
  "osrel_text d =
     (if d = [] then Panic
      else if last d = NUL
      then (if NUL \<in> set (butlast d) then Err (Msg ''Failed to parse C string.'')
            else if \<not> utf8_valid (butlast d) then Err (Msg ''Failed to convert C string to Rust string.'')
            else Ok (butlast d))
      else if last d = LF
      then (if \<not> utf8_valid d then Err (Msg ''Failed to convert section data to Rust string.'')
            else Ok d)
      else Err (Msg ''unexpected content''))"

definition version_from_osrel :: "bytes \<Rightarrow> (SystemdVersion, error) outcome" where
  "version_from_osrel d =
     and_then (osrel_text d) (\<lambda>t.
     and_then (ok_or (Msg ''Failed to extract VERSION key'') (map_of (os_release_from_str t) ''VERSION''))
       version_from_str)"

definition version_of_binary :: "env \<Rightarrow> bytes \<Rightarrow> (SystemdVersion, error) outcome" where
  "version_of_binary E d =
     and_then (read_section_data E d ''.osrel'') (\<lambda>sec.
     and_then (ok_or (Msg ''PE section .osrel is empty'') sec) version_from_osrel)"

definition from_systemd_boot_binary :: "env \<Rightarrow> path \<Rightarrow> SystemdVersion io" where
  "from_systemd_boot_binary E p = bind_io (io_read p) (\<lambda>d. lift (version_of_binary E d))"

subsection \<open>Parsing printed versions\<close>

lemma parse_u32_dec: "n < 2 ^ 32 \<Longrightarrow> parse_u32 (dec n) = Ok (of_nat n)"
  by (simp add: parse_u32_def)

lemma parse_i32_dec: "n < 2 ^ 31 \<Longrightarrow> parse_i32 (dec n) = Ok (int n)"
  using parse_signed_dec [of n 32] by (simp add: parse_i32_def)

lemma dec_no_punct [simp]: "CHR ''-'' \<notin> set (dec n)" "CHR ''.'' \<notin> set (dec n)"
  using dec_chars by fastforce+

lemma version_from_str_release:
  "a < 2 ^ 32 \<Longrightarrow> version_from_str (dec a) = Ok (SystemdVersion (of_nat a) 0 0)"
  by (simp add: version_from_str_def split_once_cons_None parse_u32_dec)

lemma version_from_str_minor:
  "a < 2 ^ 32 \<Longrightarrow> b < 2 ^ 31 \<Longrightarrow> version_from_str (dec a @ ''.'' @ dec b) = Ok (SystemdVersion (of_nat a) (int b) 0)"
  using split_once_cons [of "CHR ''.''" "dec a" "[]" "dec b"] split_once_cons_None [of "CHR ''-''" "dec a @ ''.'' @ dec b" "''rc''"]
  by (simp add: version_from_str_def parse_u32_dec parse_i32_dec)

lemma version_from_str_rc:
  "a < 2 ^ 32 \<Longrightarrow> c < 2 ^ 32 \<Longrightarrow>
     version_from_str (dec a @ ''-rc'' @ dec c) = Ok (SystemdVersion (of_nat a) (- 1) (of_nat c))"
  using split_once_cons [of "CHR ''-''" "dec a" "''rc''" "dec c"]
  by (simp add: version_from_str_def parse_u32_dec)

lemmas version_from_str_forms = version_from_str_release version_from_str_minor version_from_str_rc

subsection \<open>The os-release of a systemd-boot binary\<close>

definition systemd_boot_osrel :: "string \<Rightarrow> bytes" where
  "systemd_boot_osrel v = ''ID=systemd-boot'' @ [LF] @ ''VERSION='' @ [QUOTE] @ v @ [QUOTE, LF]"

lemma shell_escape_id: "set v \<inter> set SHELL_NEED_ESCAPE = {} \<Longrightarrow> shell_escape v = v"
  by (induction v) (auto simp: shell_escape_def escape_char_def)

lemma systemd_boot_osrel_version:
  assumes "set v \<inter> set SHELL_NEED_ESCAPE = {}"
  shows "map_of (os_release_from_str (systemd_boot_osrel v)) ''VERSION'' = Some v"
proof -
  have keys: "clean_key ''ID''" "clean_key ''VERSION''" "clean_value ''systemd-boot''"
    by code_simp+
  have "systemd_boot_osrel v =
      (''ID'' @ ''='' @ ''systemd-boot'' @ [LF]) @ (''VERSION'' @ ''='' @ [QUOTE] @ shell_escape v @ [QUOTE, LF])"
    by (simp add: systemd_boot_osrel_def shell_escape_id [OF assms])
  then have "foldl os_step (at_entry []) (systemd_boot_osrel v) =
      at_entry (btree_insert ''VERSION'' v (btree_insert ''ID'' ''systemd-boot'' []))"
    by (simp only: foldl_append [of _ _ "_ @ ''='' @ ''systemd-boot'' @ _"]
          run_entry [OF keys(1,3)] run_quoted_entry [OF keys(2)])
  then show ?thesis
    by (simp add: os_release_from_str_def os_start_def at_entry_def os_finish_def btree_insert_lookup
             del: btree_insert.simps)
qed

lemma systemd_boot_osrel_text:
  assumes "is_ascii v" "NUL \<notin> set v"
  shows "osrel_text (systemd_boot_osrel v) = Ok (systemd_boot_osrel v)"
    "osrel_text (systemd_boot_osrel v @ [NUL]) = Ok (systemd_boot_osrel v)"
proof -
  have frame: "is_ascii ''ID=systemd-boot''" "is_ascii [LF]" "is_ascii ''VERSION=''" "is_ascii [QUOTE]" "is_ascii [QUOTE, LF]"
    "NUL \<notin> set ''ID=systemd-boot''" "NUL \<noteq> LF" "NUL \<notin> set ''VERSION=''" "NUL \<noteq> QUOTE"
    by code_simp+
  then have "is_ascii (systemd_boot_osrel v)"
    using assms(1) unfolding systemd_boot_osrel_def by (simp only: is_ascii_append simp_thms)
  then have "utf8_valid (systemd_boot_osrel v)" by (rule ascii_utf8_valid)
  moreover have "NUL \<notin> set (systemd_boot_osrel v)"
    using frame assms(2) unfolding systemd_boot_osrel_def by simp
  moreover have "last (systemd_boot_osrel v) = LF" "systemd_boot_osrel v \<noteq> []"
    by (simp_all add: systemd_boot_osrel_def)
  ultimately show "osrel_text (systemd_boot_osrel v) = Ok (systemd_boot_osrel v)"
    "osrel_text (systemd_boot_osrel v @ [NUL]) = Ok (systemd_boot_osrel v)"
    using frame(7) by (auto simp: osrel_text_def)
qed

definition version_text :: "string \<Rightarrow> bool" where
  "version_text v \<longleftrightarrow> set v \<subseteq> set ''0123456789.-rc''"

lemma version_text_ok:
  assumes "version_text v"
  shows "set v \<inter> set SHELL_NEED_ESCAPE = {}" "is_ascii v" "NUL \<notin> set v"
proof -
  have "list_all (\<lambda>c. c \<notin> set SHELL_NEED_ESCAPE \<and> (of_char c :: nat) < 128 \<and> c \<noteq> NUL) ''0123456789.-rc''"
    by code_simp
  then show "set v \<inter> set SHELL_NEED_ESCAPE = {}" "is_ascii v" "NUL \<notin> set v"
    using assms unfolding version_text_def is_ascii_def list_all_iff by blast+
qed

subsection \<open>Properties\<close>

text \<open>
  C20: The order of parsed versions is the order of releases: release candidates by their number,
  all of them before the release, the release before its minor releases, minor releases by their
  number, and everything before the next major version.\<close>

theorem systemd_version_order:
  assumes "a < a'" "a' < 2 ^ 32" "0 < b" "b < b'" "b' < 2 ^ 31" "c < c'" "c' < 2 ^ 32"
  shows "\<exists>rc rc' rel m m' next.
           version_from_str (dec a @ ''-rc'' @ dec c) = Ok rc \<and>
           version_from_str (dec a @ ''-rc'' @ dec c') = Ok rc' \<and>
           version_from_str (dec a) = Ok rel \<and>
           version_from_str (dec a @ ''.'' @ dec b) = Ok m \<and>
           version_from_str (dec a @ ''.'' @ dec b') = Ok m' \<and>
           version_from_str (dec a' @ ''-rc'' @ dec c) = Ok next \<and>
           rc < rc' \<and> rc' < rel \<and> rel < m \<and> m < m' \<and> m' < next"
proof -
  have less: "(of_nat x :: u32) < of_nat y" if "x < y" "y < 2 ^ 32" for x y :: nat
    using that by (simp add: word_less_nat_alt unat_of_nat)
  let ?v = SystemdVersion and ?n = "of_nat :: nat \<Rightarrow> u32"
  have "?v (?n a) (- 1) (?n c) < ?v (?n a) (- 1) (?n c')" "?v (?n a) (- 1) (?n c') < ?v (?n a) 0 0"
    "?v (?n a) 0 0 < ?v (?n a) (int b) 0" "?v (?n a) (int b) 0 < ?v (?n a) (int b') 0"
    "?v (?n a) (int b') 0 < ?v (?n a') (- 1) (?n c)"
    using assms by (simp_all add: less_SystemdVersion_def less)
  moreover have "a < 2 ^ 32" "b < 2 ^ 31" "c < 2 ^ 32" using assms by linarith+
  ultimately show ?thesis
    using assms version_from_str_release [of a] version_from_str_minor [of a b] version_from_str_minor [of a b']
      version_from_str_rc [of a c] version_from_str_rc [of a c'] version_from_str_rc [of a' c]
    by metis
qed

theorem systemd_version_order_witness:
  "\<exists>rc rel. version_from_str (dec 255 @ ''-rc'' @ dec 1) = Ok rc \<and> version_from_str (dec 255) = Ok rel \<and> rc < rel"
proof -
  obtain rc rc' rel where "version_from_str (dec 255 @ ''-rc'' @ dec 1) = Ok rc"
    "version_from_str (dec 255) = Ok rel" "rc < rc'" "rc' < rel"
    using systemd_version_order [of 255 256 1 2 1 2] by auto
  then show ?thesis by (meson less_trans)
qed

text \<open>
  C21: The version in the os-release section of a systemd-boot binary is found whether the section
  is NUL-terminated or not.\<close>

theorem version_from_osrel_reads_version:
  assumes "version_text v"
  shows "version_from_osrel (systemd_boot_osrel v) = version_from_str v \<and>
         version_from_osrel (systemd_boot_osrel v @ [NUL]) = version_from_str v"
  using systemd_boot_osrel_text [OF version_text_ok(2,3) [OF assms]]
    systemd_boot_osrel_version [OF version_text_ok(1) [OF assms]]
  by (simp add: version_from_osrel_def)

theorem version_from_osrel_reads_version_witness:
  "version_from_osrel (systemd_boot_osrel (dec 252 @ ''.'' @ dec 1) @ [NUL]) = Ok (SystemdVersion 252 1 0)"
proof -
  have "version_text (dec 252 @ ''.'' @ dec 1)"
    unfolding version_text_def using dec_chars by fastforce
  then show ?thesis
    using version_from_osrel_reads_version [of "dec 252 @ ''.'' @ dec 1"] version_from_str_minor [of 252 1]
    by simp
qed

end
