(* ===== verification/Installer.thy ===== *)
theory Installer
  imports Signer Gc Systemd_Version
begin

text \<open>
  The installer (\<open>tool/systemd/src/install.rs\<close>) and the install command (\<open>cli.rs\<close>).

  The mutable state of the Rust struct \<open>Installer\<close> is the record \<open>installer\<close>, passed along and
  returned. This theory only holds the definitions; what they keep of the file system and what they
  achieve is shown in the theories \<open>Install_Safety\<close> and \<open>Install_Result\<close>.
\<close>

subsection \<open>State\<close>

record InstallerBuilder =
  b_lanzaboote_stub :: path
  b_arch :: Architecture
  b_systemd :: path
  b_systemd_boot_loader_config :: path
  b_configuration_limit :: usize
  b_bootcounting_initial_tries :: u32
  b_pcrlock_directory :: "path option"
  b_esp :: path
  b_generation_links :: "path list"

definition InstallerBuilder_new ::
  "path \<Rightarrow> Architecture \<Rightarrow> path \<Rightarrow> path \<Rightarrow> usize \<Rightarrow> u32 \<Rightarrow> path option \<Rightarrow> path \<Rightarrow> path list \<Rightarrow> InstallerBuilder" where
  "InstallerBuilder_new stub a sd conf limit tries pcrdir e links =
     \<lparr>b_lanzaboote_stub = stub, b_arch = a, b_systemd = sd, b_systemd_boot_loader_config = conf,
      b_configuration_limit = limit, b_bootcounting_initial_tries = tries,
      b_pcrlock_directory = pcrdir, b_esp = e, b_generation_links = links\<rparr>"

record installer =
  broken_gens :: "u64 set"
  gc_roots :: Roots
  i_lanzaboote_stub :: path
  i_systemd :: path
  i_loader_config :: path
  i_signer :: signer
  configuration_limit :: usize
  bootcounting_initial_tries :: u32
  pcrlock_paths :: "PcrlockPaths option"
  esp_paths :: SystemdEspPaths
  generation_links :: "path list"
  i_arch :: Architecture

definition add_roots :: "path list \<Rightarrow> installer \<Rightarrow> installer" where
  "add_roots ps st = st\<lparr>gc_roots := roots_extend ps (gc_roots st)\<rparr>"

definition build :: "InstallerBuilder \<Rightarrow> signer \<Rightarrow> installer" where
  "build b S =
     (let esp_paths = SystemdEspPaths_new (b_esp b) (b_arch b);
          roots = roots_extend (esp_paths_iter esp_paths) Roots_new;
          pcrlock_paths = map_option PcrlockPaths_new (b_pcrlock_directory b);
          roots = (case pcrlock_paths of Some p \<Rightarrow> roots_extend (pcrlock_iter p) roots | None \<Rightarrow> roots)
      in \<lparr>broken_gens = {}, gc_roots = roots, i_lanzaboote_stub = b_lanzaboote_stub b,
          i_systemd = b_systemd b, i_loader_config = b_systemd_boot_loader_config b, i_signer = S,
          configuration_limit = b_configuration_limit b,
          bootcounting_initial_tries = b_bootcounting_initial_tries b,
          pcrlock_paths = pcrlock_paths, esp_paths = esp_paths,
          generation_links = b_generation_links b, i_arch = b_arch b\<rparr>)"

subsection \<open>Copying files\<close>

text \<open>\<open>File::open\<close> and \<open>fs::metadata\<close>, as far as the code looks at their result.\<close>

definition io_open :: "path \<Rightarrow> unit io" where
  "io_open p = syscall (\<lambda>k s. (if k = 0 \<and> present s p then Ok () else Err Io, s))"

definition ensure_parent_dir :: "path \<Rightarrow> unit io" where
  "ensure_parent_dir p =
     (case path_parent p of
        Some parent \<Rightarrow> bind_io (try_io (io_create_dir_all parent)) (\<lambda>_. ret ())
      | None \<Rightarrow> ret ())"

definition atomic_copy :: "path \<Rightarrow> path \<Rightarrow> unit io" where
  "atomic_copy src to =
     (let tmp = with_extension to ''.tmp''
      in bind_io (io_open src) (\<lambda>_.
         bind_io (io_create 0x1B6 tmp) (\<lambda>_.
         bind_io (io_read src) (\<lambda>d.
         bind_io (io_write_all tmp d) (\<lambda>_.
         bind_io io_sync (\<lambda>_.
           io_rename tmp to))))))"

definition set_permission_bits :: "path \<Rightarrow> u32 \<Rightarrow> unit io" where
  "set_permission_bits p m = bind_io (io_open p) (\<lambda>_. io_set_mode p m)"

definition force_install :: "path \<Rightarrow> path \<Rightarrow> unit io" where
  "force_install src to =
     bind_io (ensure_parent_dir to) (\<lambda>_.
     bind_io (atomic_copy src to) (\<lambda>_.
       set_permission_bits to 0x1ED))"

definition install_file :: "env \<Rightarrow> path \<Rightarrow> path \<Rightarrow> unit io" where
  "install_file E src to =
     bind_io (io_exists to) (\<lambda>ex.
     bind_io (if \<not> ex then ret True
              else bind_io (file_hash E src) (\<lambda>a. bind_io (file_hash E to) (\<lambda>b. ret (a \<noteq> b)))) (\<lambda>c.
       if c then force_install src to else ret ()))"

definition install_signed :: "signer \<Rightarrow> path \<Rightarrow> path \<Rightarrow> unit io" where
  "install_signed S src to =
     (let to_tmp = with_extension to ''.tmp''
      in bind_io (ensure_parent_dir to_tmp) (\<lambda>_.
         bind_io (sign_and_copy S src to_tmp) (\<lambda>_.
           io_rename to_tmp to)))"

subsection \<open>Names of stubs\<close>

definition stub_prefix :: "env \<Rightarrow> signer \<Rightarrow> Generation \<Rightarrow> string io" where
  "stub_prefix E S g =
     bind_io (get_public_key S) (\<lambda>public_key.
       let b = bootspec (eb_bootspec (spec g));
           stub_inputs = [(''toplevel'', path_display (toplevel b)), (''public_key'', public_key)];
           stub_input_hash = base32 E (sha256 E (inputs_to_json E stub_inputs))
       in ret (case specialisation_name g of
                 Some n \<Rightarrow> ''nixos-generation-'' @ generation_display g @ ''-specialisation-'' @ n @
                           ''-'' @ stub_input_hash
               | None \<Rightarrow> ''nixos-generation-'' @ generation_display g @ ''-'' @ stub_input_hash))"

definition stub_name :: "env \<Rightarrow> signer \<Rightarrow> Generation \<Rightarrow> u32 \<Rightarrow> string io" where
  "stub_name E S g tries =
     bind_io (stub_prefix E S g) (\<lambda>pre.
       ret (if 0 < tries then pre @ ''+'' @ dec (unat tries) @ ''.efi'' else pre @ ''.efi''))"

text \<open>The pattern \<open>^prefix(\+\d+(-\d+)?)?\.efi$\<close>.\<close>

definition stub_matches :: "env \<Rightarrow> string \<Rightarrow> string \<Rightarrow> bool" where
  "stub_matches E pre name \<longleftrightarrow>
     starts_with name pre \<and> ends_with (drop (length pre) name) ''.efi'' \<and>
     (let rest = drop (length pre) name; middle = take (length rest - 4) rest
      in middle = [] \<or>
         hd middle = CHR ''+'' \<and>
         (let ns = split_on CHR ''-'' (tl middle)
          in length ns \<le> 2 \<and> list_all (unicode_digits E) ns))"

subsection \<open>Generations that are installed already\<close>

definition resolve_efi_path :: "path \<Rightarrow> bytes \<Rightarrow> (path, error) outcome" where
  "resolve_efi_path e efi_path =
     (if efi_path = [] then Panic
      else if \<not> utf8_valid (tl efi_path) then Err (Msg ''invalid utf-8'')
      else Ok (path_join e (replace_char BACKSLASH CHR ''/'' (tl efi_path))))"

definition section_path :: "env \<Rightarrow> path \<Rightarrow> bytes \<Rightarrow> string \<Rightarrow> (path, error) outcome" where
  "section_path E e stub name =
     and_then (read_section_data E stub name) (\<lambda>d.
     and_then (ok_or (Msg ''Missing path.'') d) (resolve_efi_path e))"

definition read_installed_generation :: "env \<Rightarrow> installer \<Rightarrow> string \<Rightarrow> (path \<times> path \<times> path) io" where
  "read_installed_generation E st pre =
     bind_io (io_read_dir (linux (esp_paths st))) (\<lambda>names.
     bind_io (case filter (\<lambda>n. utf8_valid n \<and> stub_matches E pre n) names of
                n # _ \<Rightarrow> ret (path_join (linux (esp_paths st)) n)
              | [] \<Rightarrow> fail (Msg ''While determining stub name'')) (\<lambda>stub_target.
     bind_io (io_read stub_target) (\<lambda>stub.
     bind_io (lift (section_path E (esp (esp_paths st)) stub ''.linux'')) (\<lambda>kernel_path.
     bind_io (lift (section_path E (esp (esp_paths st)) stub ''.initrd'')) (\<lambda>initrd_path.
     bind_io (io_exists kernel_path) (\<lambda>k.
     bind_io (if \<not> k then ret False else io_exists initrd_path) (\<lambda>i.
       if i then ret (stub_target, kernel_path, initrd_path)
       else fail (Msg ''Missing kernel or initrd.''))))))))"

definition register_installed_generation :: "env \<Rightarrow> installer \<Rightarrow> Generation \<Rightarrow> (bool \<times> installer) io" where
  "register_installed_generation E st g =
     bind_io (stub_prefix E (i_signer st) g) (\<lambda>pre.
     bind_io (try_io (read_installed_generation E st pre)) (\<lambda>r.
       case r of
         Ok (s, k, i) \<Rightarrow>
           (let st = add_roots [s, k, i] st
            in case pcrlock_paths st of
                 None \<Rightarrow> ret (True, st)
               | Some pp \<Rightarrow>
                   let m = lanzaboote_measurement pp (version_tag g)
                   in bind_io (io_exists m) (\<lambda>ex.
                        if ex then ret (True, add_roots [m] st) else ret (False, st)))
       | _ \<Rightarrow> ret (False, st)))"

subsection \<open>Installing a generation\<close>

definition install_nixos_ca :: "env \<Rightarrow> installer \<Rightarrow> path \<Rightarrow> string \<Rightarrow> (path \<times> installer) io" where
  "install_nixos_ca E st src lbl =
     bind_io (file_hash E src) (\<lambda>hash.
       let to = path_join (nixos (esp_paths st)) (lbl @ ''-'' @ base32 E hash @ ''.efi'');
           st = add_roots [to] st
       in bind_io (install_file E src to) (\<lambda>_. ret (to, st)))"

definition assemble_kernel_cmdline :: "path \<Rightarrow> string list \<Rightarrow> (string list, error) outcome" where
  "assemble_kernel_cmdline ini params =
     and_then (expect (path_to_str ini)) (\<lambda>i. Ok ((''init='' @ i) # params))"

definition kernel_version :: "path \<Rightarrow> (string, error) outcome" where
  "kernel_version k =
     (case path_parent k of
        None \<Rightarrow> Err (Msg ''Failed to extract the kernel directory name.'')
      | Some p \<Rightarrow>
          (case path_file_name p of
             None \<Rightarrow> Err (Msg ''Failed to extract the kernel directory name.'')
           | Some n \<Rightarrow>
               if utf8_valid n then Ok (last (split_on CHR ''-'' n))
               else Err (Msg ''Failed to extract the kernel directory name.'')))"

definition initrd_source :: "env \<Rightarrow> path \<Rightarrow> boot_spec_v1 \<Rightarrow> path io" where
  "initrd_source E tempdir b =
     (if initrd_secrets b \<noteq> None
      then bind_io (lift (ok_or (Msg ''Lanzaboote does not support missing initrd yet.'') (initrd b))) (\<lambda>i.
           bind_io (io_read i) (\<lambda>d. write_secure_file E tempdir d))
      else lift (expect (initrd b)))"

definition install_into :: "env \<Rightarrow> installer \<Rightarrow> Generation \<Rightarrow> path \<Rightarrow> installer io" where
  "install_into E st g tempdir =
     (let b = bootspec (eb_bootspec (spec g))
      in bind_io (lift (kernel_version (kernel b))) (\<lambda>kv.
         bind_io (install_nixos_ca E st (kernel b) (''kernel-'' @ kv)) (\<lambda>(kernel_target, st).
         bind_io (initrd_source E tempdir b) (\<lambda>initrd_location.
         bind_io (case initrd_secrets b of
                    Some script \<Rightarrow> append_initrd_secrets E script initrd_location (version g)
                  | None \<Rightarrow> ret ()) (\<lambda>_.
         bind_io (install_nixos_ca E st initrd_location (''initrd-'' @ kv)) (\<lambda>(initrd_target, st).
         bind_io (lift (assemble_kernel_cmdline (init b) (kernel_params b))) (\<lambda>cmdline.
         bind_io (lift (StubParameters_new (i_lanzaboote_stub st) (kernel b) initrd_location
                          kernel_target initrd_target (esp (esp_paths st)))) (\<lambda>sp.
         bind_io (lanzaboote_image E tempdir
                    (with_os_release_contents (os_release_display (os_release_from_generation g))
                       (with_cmdline cmdline sp))) (\<lambda>image.
         bind_io (case pcrlock_paths st of
                    None \<Rightarrow> ret st
                  | Some pp \<Rightarrow>
                      let m = lanzaboote_measurement pp (version_tag g)
                      in bind_io (lock_pe E image m) (\<lambda>_. ret (add_roots [m] st))) (\<lambda>st.
         bind_io (stub_name E (i_signer st) g (bootcounting_initial_tries st)) (\<lambda>name.
           let stub_target = path_join (linux (esp_paths st)) name;
               st = add_roots [stub_target] st
           in bind_io (install_signed (i_signer st) image stub_target) (\<lambda>_. ret st))))))))))))"

definition install_generation :: "env \<Rightarrow> installer \<Rightarrow> Generation \<Rightarrow> installer io" where
  "install_generation E st g =
     bind_io (register_installed_generation E st g) (\<lambda>(installed, st).
       if installed then ret st else with_tempdir E (install_into E st g))"

fun read_generations :: "env \<Rightarrow> u64 set \<Rightarrow> GenerationLink list \<Rightarrow> (Generation list \<times> u64 set) io" where
  "read_generations E broken [] = ret ([], broken)"
| "read_generations E broken (link # links) =
     bind_io (try_io (from_link E link)) (\<lambda>r.
       case r of
         Ok g \<Rightarrow> bind_io (read_generations E broken links) (\<lambda>(gs, broken). ret (g # gs, broken))
       | _ \<Rightarrow> read_generations E (insert (gl_version link) broken) links)"

fun install_generations :: "env \<Rightarrow> installer \<Rightarrow> Generation list \<Rightarrow> installer io" where
  "install_generations E st [] = ret st"
| "install_generations E st (g # gs) = bind_io (install_generation E st g) (\<lambda>st. install_generations E st gs)"

definition install_generations_from_links :: "env \<Rightarrow> installer \<Rightarrow> GenerationLink list \<Rightarrow> installer io" where
  "install_generations_from_links E st links =
     bind_io (read_generations E (broken_gens st) links) (\<lambda>(gs, broken).
       if gs = [] then fail (Msg ''No bootable generations found!'')
       else bind_io (install_generations E (st\<lparr>broken_gens := broken\<rparr>)
                       (concat (map (\<lambda>g. g # map snd (specialisations g)) gs))) (\<lambda>st.
            bind_io (io_open (esp (esp_paths st))) (\<lambda>_.
            bind_io io_sync (\<lambda>_. ret st))))"

subsection \<open>Installing the boot loader\<close>

definition newer_systemd_boot :: "env \<Rightarrow> path \<Rightarrow> path \<Rightarrow> bool io" where
  "newer_systemd_boot E src to =
     bind_io (io_exists to) (\<lambda>ex.
       if \<not> ex then ret True
       else bind_io (from_systemd_boot_binary E src) (\<lambda>src_version.
            bind_io (try_io (from_systemd_boot_binary E to)) (\<lambda>r.
              case r of Ok to_version \<Rightarrow> ret (to_version < src_version) | _ \<Rightarrow> ret True)))"

definition or_io :: "bool io \<Rightarrow> bool io \<Rightarrow> bool io" where
  "or_io a b = bind_io a (\<lambda>x. if x then ret True else b)"

definition and_io :: "bool io \<Rightarrow> bool io \<Rightarrow> bool io" where
  "and_io a b = bind_io a (\<lambda>x. if x then b else ret False)"

definition replace_systemd_boot :: "env \<Rightarrow> installer \<Rightarrow> path \<Rightarrow> unit io" where
  "replace_systemd_boot E st src =
     bind_io (case pcrlock_paths st of
                None \<Rightarrow> ret ()
              | Some pp \<Rightarrow> lock_pe E src (bootloader_measurement pp ''next'')) (\<lambda>_.
     bind_io (seq_io (install_signed (i_signer st) src)
                [efi_fallback (esp_paths st), systemd_boot (esp_paths st)]) (\<lambda>_.
       case pcrlock_paths st of
         None \<Rightarrow> ret ()
       | Some pp \<Rightarrow> io_rename (bootloader_measurement pp ''next'') (bootloader_measurement pp ''current'')))"

definition install_systemd_boot :: "env \<Rightarrow> installer \<Rightarrow> unit io" where
  "install_systemd_boot E st =
     (let src = path_join (path_join (i_systemd st) ''lib/systemd/boot/efi'') (systemd_filename (i_arch st));
          p = esp_paths st
      in bind_io (or_io (newer_systemd_boot E src (efi_fallback p)) (newer_systemd_boot E src (systemd_boot p)))
         (\<lambda>newer.
         bind_io (and_io (verify_path (i_signer st) (efi_fallback p)) (verify_path (i_signer st) (systemd_boot p)))
         (\<lambda>signed.
         bind_io (case pcrlock_paths st of
                    None \<Rightarrow> ret True
                  | Some pp \<Rightarrow> io_exists (bootloader_measurement pp ''current''))
         (\<lambda>measured.
         bind_io (if newer \<or> \<not> signed \<or> \<not> measured then replace_systemd_boot E st src else ret ())
         (\<lambda>_. install_file E (i_loader_config st) (systemd_boot_loader_config p))))))"

subsection \<open>The whole installation\<close>

definition newest :: "usize \<Rightarrow> GenerationLink list \<Rightarrow> GenerationLink list" where
  "newest limit links =
     (let links = linorder_class.sort_key gl_version links
      in if 0 < limit then rev (take (unat limit) (rev links)) else links)"

fun collect_io :: "('a \<Rightarrow> 'b io) \<Rightarrow> 'a list \<Rightarrow> 'b list io" where
  "collect_io f [] = ret []"
| "collect_io f (x # xs) = bind_io (f x) (\<lambda>y. bind_io (collect_io f xs) (\<lambda>ys. ret (y # ys)))"

definition is_nixos_entry :: "path \<Rightarrow> bool" where
  "is_nixos_entry p =
     (case path_file_name p of
        Some n \<Rightarrow> utf8_valid n \<and> starts_with n ''nixos-''
      | None \<Rightarrow> False)"

definition collect_all_garbage :: "env \<Rightarrow> installer \<Rightarrow> unit io" where
  "collect_all_garbage E st =
     (if broken_gens st = {}
      then bind_io (collect_garbage E (gc_roots st) (nixos (esp_paths st))) (\<lambda>_.
           bind_io (collect_garbage_with_filter E (gc_roots st) (linux (esp_paths st)) is_nixos_entry) (\<lambda>_.
             case pcrlock_paths st of
               None \<Rightarrow> ret ()
             | Some pp \<Rightarrow> collect_garbage E (gc_roots st) (lanzaboote pp)))
      else ret ())"

definition install :: "env \<Rightarrow> installer \<Rightarrow> installer io" where
  "install E st =
     bind_io (collect_io (from_path E) (generation_links st)) (\<lambda>links.
     bind_io (install_generations_from_links E st (newest (configuration_limit st) links)) (\<lambda>st.
     bind_io (install_systemd_boot E st) (\<lambda>_.
     bind_io (collect_all_garbage E st) (\<lambda>_. ret st))))"

subsection \<open>The install command\<close>

record InstallCommand =
  c_system :: string
  c_systemd :: path
  c_systemd_boot_loader_config :: path
  c_allow_unsigned :: bool
  c_public_key :: "path option"
  c_private_key :: "path option"
  c_configuration_limit :: usize
  c_bootcounting_initial_tries :: u32
  c_pcrlock_directory :: "path option"
  c_esp :: path
  c_generations :: "path list"

definition io_try_exists :: "path \<Rightarrow> bool io" where
  "io_try_exists p = syscall (\<lambda>k s. (if k \<noteq> 0 then Err Io else Ok (present s p), s))"

definition missing :: "path \<Rightarrow> bool io" where
  "missing p = bind_io (try_io (io_try_exists p)) (\<lambda>r. ret (case r of Ok b \<Rightarrow> \<not> b | _ \<Rightarrow> True))"

definition cli_install :: "env \<Rightarrow> path option \<Rightarrow> InstallCommand \<Rightarrow> installer io" where
  "cli_install E stub_var args =
     bind_io (lift (ok_or (Msg ''Failed to read LANZABOOTE_STUB env variable'') stub_var)) (\<lambda>stub.
     bind_io (lift (expect (c_public_key args))) (\<lambda>pub.
     bind_io (lift (expect (c_private_key args))) (\<lambda>priv.
     bind_io (lift (from_nixos_system (c_system args))) (\<lambda>a.
       let b = InstallerBuilder_new stub a (c_systemd args) (c_systemd_boot_loader_config args)
                 (c_configuration_limit args) (c_bootcounting_initial_tries args)
                 (c_pcrlock_directory args) (c_esp args) (c_generations args)
       in bind_io (if \<not> c_allow_unsigned args then ret False else and_io (missing pub) (missing priv)) (\<lambda>unsigned.
            if unsigned then install E (build b (EmptyKeyPair E))
            else install E (build b (local_signer E (LocalKeyPair_new pub priv))))))))"

end
