(* ===== verification/Install_Safety.thy ===== *)
theory Install_Safety
  imports Installer
begin

text \<open>
  What an installation can do to the file system, in every state it passes through and with any
  I/O faults.

  The relation \<open>boot_rel\<close> describes the only changes allowed: outside the EFI system partition, the
  temporary directory and the pcrlock directory nothing changes (except for missing directories on
  the way to them); on the partition a file that is not a temporary file either keeps its data, or
  is removed by the garbage collector from the directories lanzaboote owns, or is replaced as a whole
  by a file that is right for its place: content-addressed files carry the hash of their data in
  their name, and boot entries and boot loaders are output of the signer.
\<close>

subsection \<open>Allowed changes\<close>

text \<open>
  \<open>rm\<close> says which paths may be removed: those \<open>removable\<close> by the garbage collector, or none.
\<close>

definition same_data :: "node option \<Rightarrow> node option \<Rightarrow> bool" where
  "same_data a b \<longleftrightarrow> a = b \<or> (\<exists>d m m'. a = Some (File d m) \<and> b = Some (File d m'))"

definition tmp_name :: "path \<Rightarrow> bool" where
  "tmp_name p \<longleftrightarrow> p \<noteq> [] \<and> ends_with (last p) ''..tmp''"

definition ca_name :: "env \<Rightarrow> path \<Rightarrow> path \<Rightarrow> bytes \<Rightarrow> bool" where
  "ca_name E dir p d \<longleftrightarrow>
     (\<exists>lbl. relative_name lbl \<and> p = path_join dir (lbl @ ''-'' @ base32 E (sha256 E d) @ ''.efi''))"

definition removable :: "SystemdEspPaths \<Rightarrow> path \<Rightarrow> bool" where
  "removable P p \<longleftrightarrow> below (nixos P) p \<or> garbage {} is_nixos_entry (linux P) p"

definition proper_file :: "env \<Rightarrow> (bytes \<Rightarrow> bytes \<Rightarrow> bool) \<Rightarrow> SystemdEspPaths \<Rightarrow> path \<Rightarrow> bytes \<Rightarrow> bool" where
  "proper_file E signs P p d \<longleftrightarrow>
     ca_name E (nixos P) p d \<or>
     (below (linux P) p \<or> p = efi_fallback P \<or> p = systemd_boot P) \<and> (\<exists>d0. signs d0 d) \<or>
     p = systemd_boot_loader_config P"

definition esp_rel ::
  "env \<Rightarrow> (bytes \<Rightarrow> bytes \<Rightarrow> bool) \<Rightarrow> SystemdEspPaths \<Rightarrow> (path \<Rightarrow> bool) \<Rightarrow> path \<Rightarrow>
     node option \<Rightarrow> node option \<Rightarrow> bool" where
  "esp_rel E signs P rm p a b \<longleftrightarrow>
     same_data a b \<or> tmp_name p \<or>
     (b = Some Dir \<and> (a = None \<or> rm p)) \<or>
     (b = None \<and> rm p) \<or>
     (\<exists>d m. b = Some (File d m) \<and> proper_file E signs P p d)"

definition boot_rel ::
  "env \<Rightarrow> (bytes \<Rightarrow> bytes \<Rightarrow> bool) \<Rightarrow> SystemdEspPaths \<Rightarrow> (path \<Rightarrow> bool) \<Rightarrow> path list \<Rightarrow> path \<Rightarrow>
     node option \<Rightarrow> node option \<Rightarrow> bool" where
  "boot_rel E signs P rm areas p a b \<longleftrightarrow>
     (if below (esp P) p then esp_rel E signs P rm p a b
      else if list_ex (\<lambda>d. below d p) areas then True
      else a = b \<or> list_ex (below p) (esp P # areas) \<and> a = None \<and> b = Some Dir)"

lemma same_data_refl [simp]: "same_data a a"
  by (simp add: same_data_def)

lemma same_data_trans: "same_data a b \<Longrightarrow> same_data b c \<Longrightarrow> same_data a c"
  by (auto simp: same_data_def)

lemma same_data_simps [simp]:
  "same_data a None \<longleftrightarrow> a = None" "same_data a (Some Dir) \<longleftrightarrow> a = Some Dir"
  by (auto simp: same_data_def)

lemma esp_rel_trans: "esp_rel E signs P rm p a b \<Longrightarrow> esp_rel E signs P rm p b c \<Longrightarrow> esp_rel E signs P rm p a c"
  by (cases c rule: node_cases; cases b rule: node_cases) (auto simp: esp_rel_def same_data_def)

interpretation boot: path_relation "boot_rel E signs P rm areas" for E signs P rm areas
proof
  show "boot_rel E signs P rm areas p a a" for p a
    by (simp add: boot_rel_def esp_rel_def)
  show "boot_rel E signs P rm areas p a b \<Longrightarrow> boot_rel E signs P rm areas p b c \<Longrightarrow> boot_rel E signs P rm areas p a c" for p a b c
    unfolding boot_rel_def by (auto intro: esp_rel_trans split: if_splits)
qed

subsection \<open>Targets and their temporary files\<close>

definition slot :: "path \<Rightarrow> bool" where
  "slot p \<longleftrightarrow> abs_path p \<and> 2 \<le> length p \<and> last p \<noteq> ''..''"

lemma slot_file_name: "slot p \<Longrightarrow> path_file_name p = Some (last p) \<and> component (last p)"
proof -
  assume p: "slot p"
  then have "tl p \<noteq> []" "last p = last (tl p)" "list_all component (tl p)"
    by (cases p; auto simp: slot_def abs_path_def)+
  then have c: "component (last p)" unfolding list_all_iff by (metis last_in_set)
  moreover have "last p \<noteq> ''/''" using c by (auto simp: component_def)
  ultimately show ?thesis
    using p by (auto simp: path_file_name_def slot_def abs_path_def component_def)
qed

lemma abs_path_butlast: "abs_path p \<Longrightarrow> 2 \<le> length p \<Longrightarrow> abs_path (butlast p)"
  by (cases p) (auto simp: abs_path_def list_all_iff dest: in_set_butlastD)

lemma slot_tmp:
  assumes "slot p"
  defines "t \<equiv> with_extension p ''.tmp''"
  shows "abs_path t" "tmp_name t" "butlast t = butlast p" "path_parent t = Some (butlast p)"
proof -
  have t: "t = butlast p @ [file_stem (last p) @ ''..tmp'']"
    using slot_file_name [OF assms(1)] unfolding t_def by (simp add: with_extension_tmp)
  obtain r where r: "last p = file_stem (last p) @ r" using file_stem_prefix by blast
  have "CHR ''/'' \<notin> set (last p)"
    using slot_file_name [OF assms(1)] by (simp add: component_def)
  then have "CHR ''/'' \<notin> set (file_stem (last p))" by (subst (asm) r) simp
  then have "component (file_stem (last p) @ ''..tmp'')"
    by (auto simp: component_def append_eq_Cons_conv)
  moreover have "abs_path (butlast p)"
    using assms(1) abs_path_butlast unfolding slot_def by blast
  ultimately show "abs_path t" by (simp add: t abs_path_append)
  show "tmp_name t" by (simp add: t tmp_name_def ends_with_def)
  show "butlast t = butlast p" by (simp add: t)
  have "butlast p \<noteq> []" using assms(1) by (cases p) (auto simp: slot_def)
  then show "path_parent t = Some (butlast p)"
    by (auto simp: t path_parent_def)
qed

lemma slot_parent: "slot p \<Longrightarrow> path_parent p = Some (butlast p)"
  by (cases p) (auto simp: slot_def path_parent_def)

lemma tmp_neq: "slot p \<Longrightarrow> \<not> tmp_name p \<Longrightarrow> with_extension p ''.tmp'' \<noteq> p"
  using slot_tmp(2) by metis

lemma below_butlast: "below d p \<Longrightarrow> p \<noteq> d \<Longrightarrow> below d (butlast p)"
  unfolding below_prefix by (metis prefix_order.le_less prefix_snoc append_butlast_last_id prefix_bot.extremum_strict strict_prefix_def)

lemma below_same_dir: "below d p \<Longrightarrow> p \<noteq> d \<Longrightarrow> butlast t = butlast p \<Longrightarrow> below d t"
  by (metis below_butlast below_prefix prefix_order.trans prefixeq_butlast)

text \<open>A name with the given ending, joined to a directory.\<close>

lemma last_split_on: "c \<notin> set b \<Longrightarrow> \<exists>a. last (split_on c (s @ b)) = a @ b"
proof (induction s)
  case Nil
  then show ?case by (simp add: split_on_id)
next
  case (Cons x s)
  then show ?case
    by (cases "split_on c (s @ b)") (auto split: if_splits)
qed

lemma slot_join:
  assumes "abs_path dir" "relative_name (s @ x)" "CHR ''/'' \<notin> set x" "3 \<le> length x"
  shows "slot (path_join dir (s @ x)) \<and> below dir (path_join dir (s @ x)) \<and>
         path_join dir (s @ x) \<noteq> dir \<and> (\<exists>a. last (path_join dir (s @ x)) = a @ x)"
proof -
  let ?cs = "split_on CHR ''/'' (s @ x)"
  obtain a where a: "last ?cs = a @ x" using last_split_on [OF assms(3)] by blast
  have dir: "dir \<noteq> []" using assms(1) by (auto simp: abs_path_def)
  have "?cs = butlast ?cs @ [a @ x]" using a by (metis append_butlast_last_id split_on_nonempty)
  moreover have keep: "a @ x \<noteq> [] \<and> a @ x \<noteq> ''.'' \<and> a @ x \<noteq> ''..''"
    using assms(4) by (auto simp: Cons_eq_append_conv append_eq_Cons_conv)
  ultimately have "filter (\<lambda>c. c \<noteq> [] \<and> c \<noteq> ''.'') ?cs =
      filter (\<lambda>c. c \<noteq> [] \<and> c \<noteq> ''.'') (butlast ?cs) @ filter (\<lambda>c. c \<noteq> [] \<and> c \<noteq> ''.'') [a @ x]"
    by (metis filter_append)
  with keep obtain pre where "filter (\<lambda>c. c \<noteq> [] \<and> c \<noteq> ''.'') ?cs = pre @ [a @ x]"
    by auto
  then have eq: "path_join dir (s @ x) = dir @ pre @ [a @ x]"
    using path_join_relative [OF assms(2) dir] by simp
  moreover have "abs_path (path_join dir (s @ x))" using abs_path_join assms by blast
  ultimately show ?thesis
    using keep dir by (auto simp: slot_def Suc_le_eq)
qed

subsection \<open>Copying into place\<close>

lemma ensure_parent_dir_appear: "keeps (pointwise appear) (ensure_parent_dir p)"
  unfolding ensure_parent_dir_def
  by (intro appear.rel.keeps_option appear.rel.keeps_bind appear.rel.keeps_ret appear.rel.keeps_try
      create_dir_all_appear)

lemma ensure_parent_dir_file:
  assumes "ensure_parent_dir p w = (r, w')" "fs_get (files w) q = Some n"
  shows "fs_get (files w') q = Some n"
proof -
  have "pointwise appear (files w) (files w')"
    using extends_files [OF keeps_extends [OF ensure_parent_dir_appear assms(1)]] .
  then have "appear q (fs_get (files w) q) (fs_get (files w') q)"
    by (simp add: pointwise_def)
  then show ?thesis using assms(2) by (simp add: appear_def)
qed

context path_relation
begin

lemma keeps_ensure_parent_dir:
  assumes "path_parent p = Some d" "\<And>q. below q d \<Longrightarrow> q \<noteq> [] \<Longrightarrow> may_mkdir \<phi> q"
  shows "keeps (pointwise \<phi>) (ensure_parent_dir p)"
  unfolding ensure_parent_dir_def assms(1) option.case
  by (intro rel.keeps_bind rel.keeps_try keeps_create_dir_all rel.keeps_ret assms(2))

lemma keeps_io_open [keeps_intros]: "keeps (pointwise \<phi>) (io_open p)"
  unfolding io_open_def by (rule rel.keeps_syscall) (simp add: rel.R_refl)

lemma io_open_Ok: "io_open p w = (Ok u, w') \<Longrightarrow> files w' = files w"
  unfolding io_open_def by (drule syscall_Ok) (auto split: if_splits)

lemma keepsE: "keeps R m \<Longrightarrow> extends R w (snd (m w))"
  by (simp add: keeps_def)

lemma extends_atomic_copy:
  assumes tmp: "free \<phi> (with_extension to ''.tmp'')" "with_extension to ''.tmp'' \<noteq> src"
    and ok: "\<And>d m x m'. fs_get (files w) src = Some (File d m) \<Longrightarrow> \<phi> to x (Some (File d m'))"
  shows "extends (pointwise \<phi>) w (snd (atomic_copy src to w))"
  unfolding atomic_copy_def Let_def
proof (intro rel.extends_bind)
  fix u w1 u2 w2 d w3 u4 w4 u5 w5
  assume runs: "io_open src w = (Ok u, w1)" "io_create 0x1B6 (with_extension to ''.tmp'') w1 = (Ok u2, w2)"
    "io_read src w2 = (Ok d, w3)" "io_write_all (with_extension to ''.tmp'') d w3 = (Ok u4, w4)"
    "io_sync w4 = (Ok u5, w5)"
  have f1: "files w1 = files w" using runs(1) by (rule io_open_Ok)
  obtain m2 where f2: "files w2 = fs_put (with_extension to ''.tmp'') (File [] m2) (files w)"
    using io_create_Ok [OF runs(2)] f1 by auto
  obtain m where src: "fs_get (files w) src = Some (File d m)" and f3: "files w3 = files w2"
    using io_read_Ok [OF runs(3)] f2 tmp(2) by auto
  obtain m4 where "files w4 = fs_put (with_extension to ''.tmp'') (File d m4) (files w3)"
    using io_write_all_Ok [OF runs(4)] by blast
  then have "fs_get (files w5) (with_extension to ''.tmp'') = Some (File d m4)"
    using io_sync_Ok [OF runs(5)] by simp
  then show "extends (pointwise \<phi>) w5 (snd (io_rename (with_extension to ''.tmp'') to w5))"
    using ok [OF src] tmp(1) by (intro extends_rename)
qed (auto intro!: keepsE keeps_intros tmp(1))

lemma keeps_set_permission_bits:
  "(\<And>d m'. \<phi> p (Some (File d m')) (Some (File d m))) \<Longrightarrow> keeps (pointwise \<phi>) (set_permission_bits p m)"
  unfolding set_permission_bits_def by (intro rel.keeps_bind keeps_io_open keeps_set_mode)

lemma extends_force_install:
  assumes par: "path_parent to = Some d" "\<And>q. below q d \<Longrightarrow> q \<noteq> [] \<Longrightarrow> may_mkdir \<phi> q"
    and tmp: "free \<phi> (with_extension to ''.tmp'')" "with_extension to ''.tmp'' \<noteq> src"
    and ok: "\<And>x m'. \<phi> to x (Some (File c m'))" and src: "fs_get (files w) src = Some (File c m)"
    and mode: "\<And>b m m'. \<phi> to (Some (File b m)) (Some (File b m'))"
  shows "extends (pointwise \<phi>) w (snd (force_install src to w))"
  unfolding force_install_def
proof (intro rel.extends_bind)
  fix u w1
  assume "ensure_parent_dir to w = (Ok u, w1)"
  then have "fs_get (files w1) src = Some (File c m)"
    using src ensure_parent_dir_file by blast
  then show "extends (pointwise \<phi>) w1 (snd (atomic_copy src to w1))"
    using tmp ok by (intro extends_atomic_copy) auto
qed (auto intro!: keepsE keeps_ensure_parent_dir [OF par(1)] par(2) keeps_set_permission_bits mode)

lemma keeps_file_hash_of: "keeps (pointwise \<phi>) (file_hash E p)"
  by (rule rel.keeps_file_hash)

lemma file_hash_Ok: "file_hash E p w = (Ok h, w') \<Longrightarrow>
    (\<exists>d m. fs_get (files w) p = Some (File d m) \<and> h = sha256 E d) \<and> files w' = files w"
  by (auto simp: file_hash_def bind_io_Ok dest!: io_read_Ok)

lemma install_check_Ok:
  assumes "(if \<not> ex then ret True
            else bind_io (file_hash E src) (\<lambda>a. bind_io (file_hash E to) (\<lambda>b. ret (a \<noteq> b)))) w = (Ok c, w')"
  shows "files w' = files w"
  using assms by (auto simp: bind_io_Ok split: if_splits dest!: file_hash_Ok)

lemma extends_install_file:
  assumes par: "path_parent to = Some d" "\<And>q. below q d \<Longrightarrow> q \<noteq> [] \<Longrightarrow> may_mkdir \<phi> q"
    and tmp: "free \<phi> (with_extension to ''.tmp'')" "with_extension to ''.tmp'' \<noteq> src"
    and ok: "\<And>x m'. \<phi> to x (Some (File c m'))" and src: "fs_get (files w) src = Some (File c m)"
    and mode: "\<And>b m m'. \<phi> to (Some (File b m)) (Some (File b m'))"
  shows "extends (pointwise \<phi>) w (snd (install_file E src to w))"
  unfolding install_file_def
proof (intro rel.extends_bind)
  fix ex w1 c' w2
  assume runs: "io_exists to w = (Ok ex, w1)"
    "(if \<not> ex then ret True
      else bind_io (file_hash E src) (\<lambda>a. bind_io (file_hash E to) (\<lambda>b. ret (a \<noteq> b)))) w1 = (Ok c', w2)"
  then have "fs_get (files w2) src = Some (File c m)"
    using src install_check_Ok [OF runs(2)] io_exists_Ok [OF runs(1)] by simp
  then have "extends (pointwise \<phi>) w2 (snd (force_install src to w2))"
    by (intro extends_force_install [where d = d and c = c and m = m]) (simp_all add: par tmp ok mode)
  then show "extends (pointwise \<phi>) w2 (snd ((if c' then force_install src to else ret ()) w2))"
    by (simp add: ret_def rel.extends_refl)
qed (auto intro!: keepsE keeps_intros)

lemma extends_install_signed:
  assumes contract: "signer_contract S signs" and abs: "abs_path src" "abs_path (with_extension to ''.tmp'')"
    and par: "path_parent (with_extension to ''.tmp'') = Some d" "\<And>q. below q d \<Longrightarrow> q \<noteq> [] \<Longrightarrow> may_mkdir \<phi> q"
    and tmp: "free \<phi> (with_extension to ''.tmp'')"
    and ok: "\<And>x d0 d' m. signs d0 d' \<Longrightarrow> \<phi> to x (Some (File d' m))"
  shows "keeps (pointwise \<phi>) (install_signed S src to)"
  unfolding install_signed_def Let_def
proof (rule rel.keeps_bind)
  let ?t = "with_extension to ''.tmp''"
  show "keeps (pointwise \<phi>) (ensure_parent_dir ?t)"
    by (rule keeps_ensure_parent_dir [OF par(1)]) (rule par(2))
  have "keeps (pointwise \<phi>) (sign_and_copy S src ?t)"
  proof (rule keeps_mono [OF signer_contract.sign_writes [OF contract abs(2)]])
    fix s t assume "pointwise (protect (\<lambda>p. p \<noteq> ?t)) s t"
    then have "fs_get t q = fs_get s q" if "\<not> free \<phi> q" for q
      using that tmp unfolding pointwise_protect by metis
    then show "pointwise \<phi> s t" by (rule pointwise_change)
  qed
  then show "keeps (pointwise \<phi>) (bind_io (sign_and_copy S src ?t) (\<lambda>_. io_rename ?t to))"
  proof (rule rel.keeps_bind_result)
    fix u w w' assume "sign_and_copy S src ?t w = (Ok u, w')"
    then obtain d0 d' m' where "fs_get (files w') ?t = Some (File d' m')" "signs d0 d'"
      using signer_contract.sign_result [OF contract abs] by (metis (full_types) unit.exhaust)
    then show "extends (pointwise \<phi>) w' (snd (io_rename ?t to w'))"
      using tmp ok by (intro extends_rename) auto
  qed
qed

end

end
