(* ===== verification/Install_Site.thy ===== *)
theory Install_Site
  imports Install_Safety
begin

text \<open>
  The installer as a whole only makes the changes \<open>boot_rel\<close> allows.

  The locale \<open>install_site\<close> is the interface to the outside: the signer's contract, where the
  partition, the temporary directory and the pcrlock directory are, and what the child processes
  write. Inside it every operation of the installer is shown to keep the relation.
\<close>

subsection \<open>Computations that keep a relation and return good results\<close>

definition yields :: "(fs \<Rightarrow> fs \<Rightarrow> bool) \<Rightarrow> 'a io \<Rightarrow> ('a \<Rightarrow> bool) \<Rightarrow> bool" where
  "yields R m Q \<longleftrightarrow> keeps R m \<and> (\<forall>w a w'. m w = (Ok a, w') \<longrightarrow> Q a)"

lemma yields_keeps: "yields R m Q \<Longrightarrow> keeps R m"
  by (simp add: yields_def)

lemma yieldsD: "yields R m Q \<Longrightarrow> m w = (Ok a, w') \<Longrightarrow> Q a"
  by (auto simp: yields_def)

lemma yieldsI: "keeps R m \<Longrightarrow> (\<And>w a w'. m w = (Ok a, w') \<Longrightarrow> Q a) \<Longrightarrow> yields R m Q"
  by (auto simp: yields_def)

lemma yields_any: "keeps R m \<Longrightarrow> yields R m (\<lambda>_. True)"
  by (simp add: yields_def)

lemma yields_mono: "yields R m Q \<Longrightarrow> (\<And>a. Q a \<Longrightarrow> Q' a) \<Longrightarrow> yields R m Q'"
  by (auto simp: yields_def)

context fs_relation
begin

lemma yields_ret: "Q a \<Longrightarrow> yields R (ret a) Q"
  by (simp add: yields_def keeps_ret)

lemma yields_fail: "yields R (fail e) Q"
  by (simp add: yields_def keeps_fail)

lemma yields_lift: "(\<And>a. r = Ok a \<Longrightarrow> Q a) \<Longrightarrow> yields R (lift r) Q"
  by (simp add: yields_def keeps_lift)

lemma yields_bind:
  assumes m: "yields R m Q" and f: "\<And>a. Q a \<Longrightarrow> yields R (f a) Q'"
  shows "yields R (bind_io m f) Q'"
proof (rule yieldsI)
  show "keeps R (bind_io m f)"
  proof (rule keeps_bind_result [OF yields_keeps [OF m]])
    fix a w w' assume "m w = (Ok a, w')"
    then have "keeps R (f a)" using yieldsD [OF m] f yields_keeps by blast
    then show "extends R w' (snd (f a w'))" by (simp add: keeps_def)
  qed
  show "Q' b" if "bind_io m f w = (Ok b, w'')" for w b w''
    using that m f unfolding bind_io_Ok yields_def by blast
qed

lemma yields_bind_keeps:
  assumes "keeps R m" "\<And>a. yields R (f a) Q'"
  shows "yields R (bind_io m f) Q'"
  using yields_bind [OF yields_any [OF assms(1)]] assms(2) by blast

lemma yields_if: "(c \<Longrightarrow> yields R a Q) \<Longrightarrow> (\<not> c \<Longrightarrow> yields R b Q) \<Longrightarrow> yields R (if c then a else b) Q"
  by simp

end

context path_relation
begin

lemma yields_with_tempdir:
  assumes fr: "\<And>n s q. below (tempdir_pick E n s) q \<Longrightarrow> free \<phi> q"
    and body: "\<And>n s. yields (pointwise \<phi>) (body (tempdir_pick E n s)) Q"
  shows "yields (pointwise \<phi>) (with_tempdir E body) Q"
proof (rule yieldsI)
  show "keeps (pointwise \<phi>) (with_tempdir E body)"
    using fr body yields_keeps by (intro keeps_with_tempdir) blast+
  fix w a w' assume "with_tempdir E body w = (Ok a, w')"
  then obtain p w1 w2 where "new_tempdir E w = (Ok p, w1)" "body p w1 = (Ok a, w2)"
    by (auto simp: with_tempdir_def Let_def split: prod.splits outcome.splits)
  then show "Q a" using new_tempdir_result yieldsD [OF body] by metis
qed

end

subsection \<open>Names\<close>

lemma relative_append [simp]: "relative_name a \<Longrightarrow> relative_name (a @ b)"
  by (auto simp: relative_name_def)

lemma relative_dec [simp]: "relative_name (dec n)"
  using hd_dec_digit [of n] by (auto simp: relative_name_def)

lemma tmpname_relative:
  assumes "\<And>n. alphanumeric E n \<noteq> CHR ''/''" "tmpname E w = (Ok a, w')"
  shows "relative_name a"
proof -
  have "a = alphanumeric E (draws w) # map (\<lambda>i. alphanumeric E (draws w + i)) [1..<TEMPFILE_RANDOM_LENGTH]"
    using assms(2) by (auto simp: tmpname_def TEMPFILE_RANDOM_LENGTH_def upt_rec)
  then show ?thesis using assms(1) by (simp add: relative_name_def)
qed

subsection \<open>The site of an installation\<close>

definition spec_sources :: "env \<Rightarrow> path \<Rightarrow> boot_spec_v1 \<Rightarrow> bool" where
  "spec_sources E e b \<longleftrightarrow>
     \<not> below e (kernel b) \<and>
     (case initrd b of None \<Rightarrow> True | Some i \<Rightarrow> \<not> below e i) \<and>
     (case initrd_secrets b of None \<Rightarrow> True | Some script \<Rightarrow> writes_last E (path_display script))"

definition all_sources :: "env \<Rightarrow> path \<Rightarrow> boot_spec \<Rightarrow> bool" where
  "all_sources E e bs \<longleftrightarrow>
     spec_sources E e (bootspec bs) \<and>
     list_all (\<lambda>(_, sp). spec_sources E e (bootspec (sp_generation sp))) (bs_specialisations bs)"

definition pcrlock_writes :: "env \<Rightarrow> bool" where
  "pcrlock_writes E \<longleftrightarrow>
     (\<forall>args out k s q. abs_path out \<and> q \<noteq> out \<longrightarrow>
        (let s' = snd (run E ''systemd-pcrlock'' (args @ [path_display out]) k s)
         in fs_get s' q = fs_get s q \<or>
            below q out \<and> q \<noteq> [] \<and> fs_get s q = None \<and> fs_get s' q = Some Dir))"

definition site_areas :: "path \<Rightarrow> path option \<Rightarrow> path list" where
  "site_areas tmp pcr = tmp # (case pcr of None \<Rightarrow> [] | Some d \<Rightarrow> [d])"

definition apart :: "path \<Rightarrow> path \<Rightarrow> bool" where
  "apart p q \<longleftrightarrow> \<not> below p q \<and> \<not> below q p"

locale install_site = signer_contract S signs
  for S :: signer and signs :: "bytes \<Rightarrow> bytes \<Rightarrow> bool" +
  fixes E :: env and e :: path and arch :: Architecture and tmp :: path and pcr :: "path option"
    and systemd_dir :: path and conf :: path and rm :: "path \<Rightarrow> bool"
  assumes esp_abs: "abs_path e"
    and tmp_apart: "apart e tmp"
    and pcr_place: "pcr = Some d \<Longrightarrow> abs_path d \<and> apart e d"
    and tempdirs: "below tmp (tempdir_pick E n s) \<and> abs_path (tempdir_pick E n s)"
    and random_names: "alphanumeric E n \<noteq> CHR ''/''"
    and sources: "try_into_bootspec E t = Some bs \<Longrightarrow> all_sources E e bs"
    and objcopy: "writes_last E ''objcopy''"
    and pcrlock_tool: "pcrlock_writes E"
    and walks: "walk_sound E"
    and systemd_abs: "abs_path systemd_dir"
    and conf_place: "\<not> below e conf"
begin

abbreviation "P \<equiv> SystemdEspPaths_new e arch"
abbreviation "areas \<equiv> site_areas tmp pcr"
abbreviation "\<rho> \<equiv> boot_rel E signs P rm areas"
abbreviation "R \<equiv> pointwise \<rho>"

lemma esp_P [simp]: "esp P = e"
  by (simp add: esp_paths_new)

lemma free_tmp_file: "below e p \<Longrightarrow> tmp_name p \<Longrightarrow> free \<rho> p"
  by (simp add: free_def boot_rel_def esp_rel_def)

lemma not_esp: "d \<in> set areas \<Longrightarrow> below d p \<Longrightarrow> \<not> below e p"
  using tmp_apart pcr_place below_linear unfolding apart_def site_areas_def
  by (auto split: option.splits)

lemma free_area: "d \<in> set areas \<Longrightarrow> below d p \<Longrightarrow> free \<rho> p"
  using not_esp by (auto simp: free_def boot_rel_def list_ex_iff)

lemma mkdir_area: "d \<in> set (e # areas) \<Longrightarrow> below d p \<or> below p d \<Longrightarrow> may_mkdir \<rho> p"
  by (auto simp: may_mkdir_def boot_rel_def esp_rel_def list_ex_iff)

lemma mkdir_above: "d \<in> set (e # areas) \<Longrightarrow> below d p \<Longrightarrow> below q p \<Longrightarrow> may_mkdir \<rho> q"
  using below_linear mkdir_area by blast

lemma free_tempdir: "below (tempdir_pick E n s) p \<Longrightarrow> free \<rho> p"
  using tempdirs [of n s] below_trans free_area [of tmp p] by (auto simp: site_areas_def)

lemma slot_facts:
  assumes "slot p" "below e p" "p \<noteq> e"
  defines "t \<equiv> with_extension p ''.tmp''"
  shows "free \<rho> t" "abs_path t" "below e t"
    "path_parent t = Some (butlast p)" "path_parent p = Some (butlast p)"
    "below q (butlast p) \<Longrightarrow> may_mkdir \<rho> q"
    "\<rho> p (Some (File b m)) (Some (File b m'))"
proof -
  show "below e t"
    using below_same_dir [OF assms(2,3)] slot_tmp(3) [OF assms(1)] unfolding t_def by blast
  then show "free \<rho> t" using slot_tmp(2) [OF assms(1)] unfolding t_def by (rule free_tmp_file)
  show "abs_path t" "path_parent t = Some (butlast p)" "path_parent p = Some (butlast p)"
    using slot_tmp [OF assms(1)] slot_parent [OF assms(1)] unfolding t_def by auto
  show "below q (butlast p) \<Longrightarrow> may_mkdir \<rho> q"
    using mkdir_above [of e "butlast p" q] below_butlast [OF assms(2,3)] by simp
  show "\<rho> p (Some (File b m)) (Some (File b m'))"
    using assms(2) by (simp add: boot_rel_def esp_rel_def same_data_def)
qed

end

definition site_state :: "signer \<Rightarrow> SystemdEspPaths \<Rightarrow> path option \<Rightarrow> path \<Rightarrow> path \<Rightarrow> installer \<Rightarrow> bool" where
  "site_state S P pcr sd conf st \<longleftrightarrow>
     i_signer st = S \<and> esp_paths st = P \<and> pcrlock_paths st = map_option PcrlockPaths_new pcr \<and>
     i_systemd st = sd \<and> i_loader_config st = conf"

lemma site_state_add_roots [simp]: "site_state S P pcr sd conf (add_roots ps st) = site_state S P pcr sd conf st"
  by (simp add: site_state_def add_roots_def)

subsection \<open>Temporary files\<close>

context install_site
begin

abbreviation "good_state \<equiv> site_state S P pcr systemd_dir conf"

definition in_tmp :: "path \<Rightarrow> bool" where
  "in_tmp p \<longleftrightarrow> below tmp p \<and> abs_path p"

lemma in_tmp_free: "in_tmp p \<Longrightarrow> free \<rho> p"
  using free_area [of tmp p] by (simp add: in_tmp_def site_areas_def)

lemma in_tmp_not_esp: "in_tmp p \<Longrightarrow> \<not> below e p"
  using not_esp [of tmp p] by (simp add: in_tmp_def site_areas_def)

lemma in_tmp_join: "in_tmp d \<Longrightarrow> relative_name n \<Longrightarrow> in_tmp (path_join d n)"
  using path_join_below [of n d] abs_path_join [of n d] below_trans
  unfolding in_tmp_def abs_path_def by blast

lemma yields_tmpname: "yields R (tmpname E) relative_name"
  by (rule yieldsI [OF boot.rel.keeps_tmpname]) (rule tmpname_relative, rule random_names)

lemma yields_write_secure_file:
  assumes "in_tmp d"
  shows "yields R (write_secure_file E d c) in_tmp"
  unfolding write_secure_file_def
proof (rule boot.rel.yields_bind [OF yields_tmpname], unfold Let_def create_secure_file_def)
  fix n assume "relative_name n"
  then have p: "in_tmp (path_join d n)" using assms in_tmp_join by blast
  then show "yields R (bind_io (io_create 0x180 (path_join d n))
      (\<lambda>_. bind_io (io_write_all (path_join d n) c) (\<lambda>_. ret (path_join d n)))) in_tmp"
    by (intro boot.rel.yields_bind_keeps boot.keeps_create boot.keeps_write_all boot.rel.yields_ret in_tmp_free)
qed

lemma keeps_writes_last:
  assumes "writes_last E prog" "abs_path out" "free \<rho> out"
  shows "keeps R (command E prog (args @ [path_display out]))"
proof (rule boot.keeps_command, rule boot.pointwise_change)
  fix k s q assume "\<not> free \<rho> q"
  then show "fs_get (snd (run E prog (args @ [path_display out]) k s)) q = fs_get s q"
    using assms unfolding writes_last_def by metis
qed

lemma keeps_wrap_in_pe:
  assumes "in_tmp out"
  shows "keeps R (wrap_in_pe E stub ss out)"
proof -
  have "keeps R (command E ''objcopy''
      ((concat (map to_objcopy ss) @ [path_display stub]) @ [path_display out]))"
    using assms by (intro keeps_writes_last objcopy in_tmp_free) (auto simp: in_tmp_def)
  then show ?thesis
    unfolding wrap_in_pe_def by (auto intro!: boot.rel.keeps_bind boot.rel.keeps_ret boot.rel.keeps_fail)
qed

lemma keeps_stub_offset: "keeps R (stub_offset E p)"
  unfolding stub_offset_def Let_def
  by (intro boot.rel.keeps_bind boot.rel.keeps_reads boot.rel.keeps_lift boot.rel.keeps_if
      boot.rel.keeps_panic boot.rel.keeps_ret)

lemma yields_lanzaboote_image:
  assumes "in_tmp d"
  shows "yields R (lanzaboote_image E d sp) in_tmp"
proof -
  note secure = boot.rel.yields_bind [OF yields_write_secure_file [OF assms]]
  show ?thesis
    unfolding lanzaboote_image_def
    apply (rule secure)+
    apply (rule boot.rel.yields_bind_keeps [OF boot.rel.keeps_file_hash])
    apply (rule secure)+
    apply (rule boot.rel.yields_bind_keeps [OF boot.rel.keeps_file_hash])
    apply (rule secure)+
    apply (rule boot.rel.yields_bind_keeps [OF keeps_stub_offset])
    apply (rule boot.rel.yields_bind_keeps [OF boot.rel.keeps_file_size])+
    apply (unfold Let_def)
    apply (rule boot.rel.yields_bind [OF yields_tmpname])
    apply (rule boot.rel.yields_bind_keeps)
     apply (rule keeps_wrap_in_pe)
     apply (rule in_tmp_join [OF assms], assumption)
    apply (rule boot.rel.yields_ret)
    apply (rule in_tmp_join [OF assms], assumption)
    done
qed

end

subsection \<open>Files on the partition\<close>

lemma efi_ending: "CHR ''/'' \<notin> set ''.efi''" "3 \<le> length ''.efi''"
  by code_simp+

lemma signer_keeps:
  "keeps (=) m \<Longrightarrow> keeps (pointwise (boot_rel E signs P rm areas)) m"
  by (rule keeps_same) (simp_all add: boot.rel.R_refl)

context install_site
begin

lemma dirs_below:
  "below e (nixos P)" "below e (linux P)" "nixos P \<noteq> e" "linux P \<noteq> e" "abs_path (nixos P)" "abs_path (linux P)"
proof -
  have "list_all component [''EFI'', ''nixos'']" "list_all component [''EFI'', ''Linux'']" by code_simp+
  then show "below e (nixos P)" "below e (linux P)" "nixos P \<noteq> e" "linux P \<noteq> e"
    "abs_path (nixos P)" "abs_path (linux P)"
    using abs_path_append [OF esp_abs] by (simp_all add: esp_paths_new)
qed

lemma efi_slot:
  assumes "relative_name s" "abs_path dir" "below e dir"
  defines "p \<equiv> path_join dir (s @ ''.efi'')"
  shows "slot p" "below e p" "p \<noteq> e" "below dir p"
proof -
  have "relative_name (s @ ''.efi'')" using assms(1) by simp
  from slot_join [OF assms(2) this efi_ending]
  have join: "slot p" "below dir p" "p \<noteq> dir" unfolding p_def by blast+
  then show "slot p" "below dir p" by simp_all
  show "below e p" using below_trans [OF assms(3) join(2)] .
  show "p \<noteq> e" using join(2,3) assms(3) below_antisym by blast
qed

lemma yields_install_nixos_ca:
  assumes "good_state st" "\<not> below e src" "relative_name lbl"
  shows "yields R (install_nixos_ca E st src lbl) (\<lambda>(to, st'). good_state st')"
proof (rule yieldsI)
  show "case a of (to, st') \<Rightarrow> good_state st'" if "install_nixos_ca E st src lbl w = (Ok a, w')" for w a w'
    using that assms(1) by (auto simp: install_nixos_ca_def bind_io_Ok Let_def)
  show "keeps R (install_nixos_ca E st src lbl)"
    unfolding install_nixos_ca_def Let_def
  proof (rule boot.rel.keeps_bind_result [OF boot.rel.keeps_file_hash])
    fix h w w'
    assume "file_hash E src w = (Ok h, w')"
    then obtain d m where h: "h = sha256 E d" and src: "fs_get (files w') src = Some (File d m)"
      using boot.file_hash_Ok by metis
    define to where "to = path_join (nixos (esp_paths st)) (lbl @ ''-'' @ base32 E h @ ''.efi'')"
    have to: "to = path_join (nixos P) ((lbl @ ''-'' @ base32 E (sha256 E d)) @ ''.efi'')"
      using assms(1) by (simp add: to_def site_state_def h)
    have slot: "slot to" "below e to" "to \<noteq> e"
      using efi_slot [of "lbl @ ''-'' @ base32 E (sha256 E d)" "nixos P"] dirs_below assms(3)
      unfolding to by auto
    note facts = slot_facts [OF slot]
    have "ca_name E (nixos P) to d" using assms(3) by (auto simp: ca_name_def to)
    then have ok: "\<rho> to x (Some (File d m'))" for x m'
      using slot(2) by (auto simp: boot_rel_def esp_rel_def proper_file_def)
    have "with_extension to ''.tmp'' \<noteq> src" using facts(3) assms(2) by blast
    then have "extends R w' (snd (install_file E src to w'))"
      using facts ok src
      by (intro boot.extends_install_file [where d = "butlast to" and c = d and m = m]) auto
    then show "extends R w' (snd (bind_io (install_file E src to) (\<lambda>_. ret (to, add_roots [to] st)) w'))"
      by (rule boot.rel.extends_bind) (simp add: ret_def boot.rel.extends_refl)
  qed
qed

lemma keeps_install_signed:
  assumes "slot to" "below e to" "to \<noteq> e" "abs_path src"
    "below (linux P) to \<or> to = efi_fallback P \<or> to = systemd_boot P"
  shows "keeps R (install_signed S src to)"
proof -
  note facts = slot_facts [OF assms(1,2,3)]
  have "\<rho> to x (Some (File d' m))" if "signs d0 d'" for x d0 d' m
    using that assms(2,5) by (auto simp: boot_rel_def esp_rel_def proper_file_def)
  then show ?thesis
    using facts assms(4)
    by (intro boot.extends_install_signed [OF signer_contract_axioms, where d = "butlast to"]) auto
qed

lemma yields_stub_prefix: "yields R (stub_prefix E S g) relative_name"
  unfolding stub_prefix_def Let_def
proof (rule boot.rel.yields_bind_keeps [OF signer_keeps [OF key_pure]], rule boot.rel.yields_ret)
  have "relative_name (''nixos-generation-'' @ r)" for r
    by (simp add: relative_name_def)
  then show "relative_name (case specialisation_name g of
      None \<Rightarrow> ''nixos-generation-'' @ generation_display g @ ''-'' @
        base32 E (sha256 E (inputs_to_json E [(''toplevel'', path_display (toplevel (bootspec (eb_bootspec (spec g))))), (''public_key'', k)]))
    | Some n \<Rightarrow> ''nixos-generation-'' @ generation_display g @ ''-specialisation-'' @ n @ ''-'' @
        base32 E (sha256 E (inputs_to_json E [(''toplevel'', path_display (toplevel (bootspec (eb_bootspec (spec g))))), (''public_key'', k)])))" for k
    by (auto split: option.split)
qed

lemma yields_stub_name:
  "yields R (stub_name E S g tries) (\<lambda>n. \<exists>s. n = s @ ''.efi'' \<and> relative_name s)"
  unfolding stub_name_def
  by (rule boot.rel.yields_bind [OF yields_stub_prefix], rule boot.rel.yields_ret) force

lemma keeps_lock_pe:
  assumes d: "pcr = Some d" and out: "below d out" "abs_path out"
  shows "keeps R (lock_pe E binary out)"
proof -
  let ?args = "[''lock-pe'', path_display binary, ''--pcrlock''] @ [path_display out]"
  have area: "d \<in> set areas" by (simp add: site_areas_def d)
  have "keeps R (command E ''systemd-pcrlock'' ?args)"
  proof (rule boot.keeps_command, unfold pointwise_def, rule allI)
    fix k s q
    let ?s' = "snd (run E ''systemd-pcrlock'' ?args k s)"
    have "fs_get ?s' q = fs_get s q \<or> below q out \<and> q \<noteq> [] \<and> fs_get s q = None \<and> fs_get ?s' q = Some Dir"
      if "q \<noteq> out"
      using pcrlock_tool that out(2) unfolding pcrlock_writes_def Let_def by blast
    moreover have "\<rho> q None (Some Dir)" if "below q out"
      using mkdir_above [of d out q] area out(1) that by (simp add: may_mkdir_def)
    moreover have "free \<rho> out" using free_area [OF area out(1)] .
    ultimately show "\<rho> q (fs_get s q) (fs_get ?s' q)"
      using boot.phi_refl unfolding free_def by metis
  qed
  then show ?thesis
    unfolding lock_pe_def by (auto intro!: boot.rel.keeps_bind boot.rel.keeps_ret boot.rel.keeps_fail)
qed

lemma measurement_place:
  assumes "pcr = Some d"
  shows "below d (lanzaboote_measurement (PcrlockPaths_new d) (version_tag g))"
    "abs_path (lanzaboote_measurement (PcrlockPaths_new d) (version_tag g))"
    "relative_name n \<Longrightarrow> below d (bootloader_measurement (PcrlockPaths_new d) n)"
    "relative_name n \<Longrightarrow> abs_path (bootloader_measurement (PcrlockPaths_new d) n)"
proof -
  have dirs: "below d (d @ [x])" "abs_path (d @ [''635-lanzaboote.pcrlock.d''])"
    "abs_path (d @ [''630-bootloader.pcrlock.d''])" for x
    using pcr_place [OF assms] by (auto intro!: abs_path_append simp: component_def)
  have rel: "relative_name (version_tag g @ ''.pcrlock'')" by (simp add: version_tag_def)
  show "below d (lanzaboote_measurement (PcrlockPaths_new d) (version_tag g))"
    "abs_path (lanzaboote_measurement (PcrlockPaths_new d) (version_tag g))"
    unfolding lanzaboote_measurement_def pcrlock_paths_new PcrlockPaths.simps
    using rel dirs path_join_below [of _ "d @ [''635-lanzaboote.pcrlock.d'']"] below_trans abs_path_join by blast+
  show "relative_name n \<Longrightarrow> below d (bootloader_measurement (PcrlockPaths_new d) n)"
    "relative_name n \<Longrightarrow> abs_path (bootloader_measurement (PcrlockPaths_new d) n)"
    unfolding bootloader_measurement_def pcrlock_paths_new PcrlockPaths.simps
    using dirs path_join_below [of _ "d @ [''630-bootloader.pcrlock.d'']"] below_trans abs_path_join
    by (meson relative_append snoc_eq_iff_butlast)+
qed

end

subsection \<open>Generations\<close>

definition gen_ok :: "env \<Rightarrow> path \<Rightarrow> Generation \<Rightarrow> bool" where
  "gen_ok E e g \<longleftrightarrow> spec_sources E e (bootspec (eb_bootspec (spec g)))"

lemma parse_specialisation_spec:
  "parse_specialisation E link n sp = Ok g \<Longrightarrow> eb_bootspec (spec g) = sp_generation sp"
  by (cases "(E, link, n, sp)" rule: parse_specialisation.cases) (auto simp: outcome_simps)

lemma parse_specialisations_gen_ok:
  assumes "parse_specialisations E link sps = Ok gs"
    "list_all (\<lambda>(_, sp). spec_sources E e (bootspec (sp_generation sp))) sps"
  shows "list_all (\<lambda>(_, g). gen_ok E e g) gs"
  using assms
proof (induction sps arbitrary: gs)
  case (Cons x sps)
  then show ?case
    by (cases x) (auto simp: outcome_simps gen_ok_def dest: parse_specialisation_spec)
qed simp

lemma parse_boot_json_gen_ok:
  assumes "parse_boot_json E link n bj = Ok g" "\<And>t bs. try_into_bootspec E t = Some bs \<Longrightarrow> all_sources E e bs"
  shows "gen_ok E e g \<and> list_all (\<lambda>(_, h). gen_ok E e h) (specialisations g)"
proof -
  obtain bs gs where bs: "try_into_bootspec E (bj_generation bj) = Some bs"
    and gs: "parse_specialisations E link (bs_specialisations bs) = Ok gs"
    and g: "eb_bootspec (spec g) = bs" "specialisations g = gs"
    using assms(1) by (auto simp: parse_boot_json_def outcome_simps split: option.splits)
  show ?thesis
    using assms(2) [OF bs] parse_specialisations_gen_ok [OF gs] g
    by (auto simp: gen_ok_def all_sources_def)
qed

context install_site
begin

lemma keeps_synthesize: "keeps R (synthesize E p)"
  unfolding synthesize_def by (rule boot.rel.keeps_syscall) (simp add: boot.rel.R_refl)

lemma yields_from_link:
  "yields R (from_link E link) (\<lambda>g. gen_ok E e g \<and> list_all (\<lambda>(_, h). gen_ok E e h) (specialisations g))"
  unfolding from_link_def
  by (intro boot.rel.yields_bind_keeps boot.rel.keeps_try boot.rel.keeps_reads boot.rel.keeps_outcome
      boot.rel.keeps_option keeps_synthesize boot.rel.keeps_ret boot.rel.yields_lift)
    (rule parse_boot_json_gen_ok, assumption, rule sources)

lemma yields_initrd_source:
  assumes "in_tmp d" "spec_sources E e b"
  shows "yields R (initrd_source E d b) (\<lambda>i. \<not> below e i \<and> (initrd_secrets b \<noteq> None \<longrightarrow> in_tmp i))"
proof -
  have "yields R (write_secure_file E d c) (\<lambda>i. \<not> below e i \<and> (initrd_secrets b \<noteq> None \<longrightarrow> in_tmp i))" for c
    using yields_write_secure_file [OF assms(1)] by (rule yields_mono) (simp add: in_tmp_not_esp)
  then show ?thesis
    unfolding initrd_source_def using assms(2)
    by (intro boot.rel.yields_if boot.rel.yields_bind_keeps boot.rel.keeps_lift boot.rel.keeps_reads
        boot.rel.yields_lift) (auto simp: outcome_simps spec_sources_def)
qed

lemma keeps_append_initrd_secrets:
  assumes "writes_last E (path_display script)" "in_tmp p"
  shows "keeps R (append_initrd_secrets E script p v)"
proof -
  have "keeps R (command E (path_display script) ([] @ [path_display p]))"
    using assms by (intro keeps_writes_last in_tmp_free) (auto simp: in_tmp_def)
  then show ?thesis
    unfolding append_initrd_secrets_def
    by (auto intro!: boot.rel.keeps_bind boot.rel.keeps_ret boot.rel.keeps_fail)
qed

lemma yields_measure:
  assumes "good_state st"
  shows "yields R (case pcrlock_paths st of
                     None \<Rightarrow> ret st
                   | Some pp \<Rightarrow>
                       let m = lanzaboote_measurement pp (version_tag g)
                       in bind_io (lock_pe E img m) (\<lambda>_. ret (add_roots [m] st))) good_state"
proof (cases pcr)
  case None
  with assms show ?thesis by (simp add: site_state_def boot.rel.yields_ret)
next
  case (Some d)
  have "yields R (bind_io (lock_pe E img m) (\<lambda>_. ret (add_roots [m] st))) good_state"
    if "m = lanzaboote_measurement (PcrlockPaths_new d) (version_tag g)" for m
    using assms measurement_place [OF Some] unfolding that
    by (intro boot.rel.yields_bind_keeps keeps_lock_pe [OF Some] boot.rel.yields_ret) simp_all
  with Some assms show ?thesis by (simp add: site_state_def Let_def)
qed

lemma yields_install_stub:
  assumes "good_state st" "in_tmp img"
  shows "yields R (bind_io (stub_name E (i_signer st) g (bootcounting_initial_tries st)) (\<lambda>name.
           let stub_target = path_join (linux (esp_paths st)) name;
               st = add_roots [stub_target] st
           in bind_io (install_signed (i_signer st) img stub_target) (\<lambda>_. ret st))) good_state"
proof -
  have S: "i_signer st = S" "esp_paths st = P" using assms(1) by (auto simp: site_state_def)
  have "yields R (bind_io (install_signed S img (path_join (linux P) (s @ ''.efi'')))
      (\<lambda>_. ret (add_roots [path_join (linux P) (s @ ''.efi'')] st))) good_state" if "relative_name s" for s
    using efi_slot [OF that dirs_below(6,2)] assms
    by (intro boot.rel.yields_bind_keeps keeps_install_signed boot.rel.yields_ret) (auto simp: in_tmp_def)
  then show ?thesis
    unfolding S Let_def
    by (intro boot.rel.yields_bind [OF yields_stub_name]) (auto simp: S add_roots_def)
qed

lemma yields_install_into:
  assumes "good_state st" "gen_ok E e g" "in_tmp d"
  shows "yields R (install_into E st g d) good_state"
proof -
  let ?b = "bootspec (eb_bootspec (spec g))"
  have src: "\<not> below e (kernel ?b)" "spec_sources E e ?b"
    using assms(2) by (auto simp: gen_ok_def spec_sources_def)
  have lbl: "relative_name (''kernel-'' @ kv)" "relative_name (''initrd-'' @ kv)" for kv
    by (simp_all add: relative_name_def)
  have secrets: "keeps R (case initrd_secrets ?b of
      None \<Rightarrow> ret () | Some script \<Rightarrow> append_initrd_secrets E script i (version g))"
    if "initrd_secrets ?b \<noteq> None \<longrightarrow> in_tmp i" for i
    using that src(2)
    by (intro boot.rel.keeps_option boot.rel.keeps_ret keeps_append_initrd_secrets) (auto simp: spec_sources_def)
  show ?thesis
    unfolding install_into_def Let_def
    apply (rule boot.rel.yields_bind_keeps [OF boot.rel.keeps_lift])
    apply (rule boot.rel.yields_bind [OF yields_install_nixos_ca [OF assms(1) src(1) lbl(1)]])
    apply (clarify)
    apply (rule boot.rel.yields_bind [OF yields_initrd_source [OF assms(3) src(2)]])
    apply (erule conjE)
    apply (rule boot.rel.yields_bind_keeps [OF secrets], assumption)
    apply (rule boot.rel.yields_bind [OF yields_install_nixos_ca [OF _ _ lbl(2)]], assumption, assumption)
    apply (clarify)
    apply (rule boot.rel.yields_bind_keeps [OF boot.rel.keeps_lift])+
    apply (rule boot.rel.yields_bind [OF yields_lanzaboote_image [OF assms(3)]])
    apply (rule boot.rel.yields_bind [OF yields_measure [unfolded Let_def]], assumption)
    apply (rule yields_install_stub [unfolded Let_def], assumption, assumption)
    done
qed

lemma keeps_read_installed: "keeps R (read_installed_generation E st pre)"
  unfolding read_installed_generation_def
  by (intro boot.rel.keeps_bind boot.rel.keeps_reads boot.rel.keeps_lift boot.rel.keeps_if boot.rel.keeps_ret
      boot.rel.keeps_fail) (auto split: list.split intro: boot.rel.keeps_ret boot.rel.keeps_fail)

lemma yields_register:
  assumes "good_state st"
  shows "yields R (register_installed_generation E st g) (\<lambda>(b, st'). good_state st')"
proof -
  have S: "i_signer st = S" using assms by (simp add: site_state_def)
  have "yields R (case pcrlock_paths st' of
      None \<Rightarrow> ret (True, st')
    | Some pp \<Rightarrow> bind_io (io_exists (lanzaboote_measurement pp (version_tag g))) (\<lambda>ex.
        if ex then ret (True, add_roots [lanzaboote_measurement pp (version_tag g)] st') else ret (False, st')))
      (\<lambda>(b, st'). good_state st')" if "good_state st'" for st'
    using that by (cases "pcrlock_paths st'")
      (auto intro!: boot.rel.yields_ret boot.rel.yields_bind_keeps boot.rel.keeps_reads boot.rel.yields_if)
  then show ?thesis
    unfolding register_installed_generation_def Let_def S
    using assms
    by (intro boot.rel.yields_bind [OF yields_stub_prefix]
        boot.rel.yields_bind_keeps [OF boot.rel.keeps_try [OF keeps_read_installed]])
      (auto split: outcome.split intro!: boot.rel.yields_ret)
qed

lemma in_tmp_pick: "in_tmp (tempdir_pick E n s)"
  using tempdirs by (simp add: in_tmp_def)

lemma yields_install_generation:
  assumes "good_state st" "gen_ok E e g"
  shows "yields R (install_generation E st g) good_state"
  unfolding install_generation_def
proof (rule boot.rel.yields_bind [OF yields_register [OF assms(1)]], clarify)
  fix b st' assume st': "good_state st'"
  show "yields R (if b then ret st' else with_tempdir E (install_into E st' g)) good_state"
    using st' assms(2) in_tmp_pick
    by (intro boot.rel.yields_if boot.rel.yields_ret boot.yields_with_tempdir yields_install_into free_tempdir)
qed

lemma yields_install_generations:
  "good_state st \<Longrightarrow> list_all (gen_ok E e) gs \<Longrightarrow> yields R (install_generations E st gs) good_state"
proof (induction gs arbitrary: st)
  case (Cons g gs)
  then show ?case
    by (auto intro!: boot.rel.yields_bind [OF yields_install_generation])
qed (simp add: boot.rel.yields_ret)

lemma yields_read_generations:
  "yields R (read_generations E broken links)
     (\<lambda>(gs, b). list_all (\<lambda>g. gen_ok E e g \<and> list_all (\<lambda>(_, h). gen_ok E e h) (specialisations g)) gs)"
proof (induction links arbitrary: broken)
  case (Cons link links)
  let ?good = "\<lambda>g. gen_ok E e g \<and> list_all (\<lambda>(_, h). gen_ok E e h) (specialisations g)"
  have "yields R (try_io (from_link E link)) (\<lambda>r. case r of Ok g \<Rightarrow> ?good g | _ \<Rightarrow> True)"
  proof (rule yieldsI)
    show "keeps R (try_io (from_link E link))"
      by (intro boot.rel.keeps_try yields_keeps [OF yields_from_link])
    show "case r of Ok g \<Rightarrow> ?good g | _ \<Rightarrow> True" if "try_io (from_link E link) w = (Ok r, w')" for w r w'
      using that yieldsD [OF yields_from_link, of link w]
      by (auto simp: try_io_def split: prod.splits outcome.splits)
  qed
  then show ?case
    unfolding read_generations.simps
  proof (rule boot.rel.yields_bind)
    fix r assume "case r of Ok g \<Rightarrow> ?good g | _ \<Rightarrow> True"
    then show "yields R (case r of
        Ok g \<Rightarrow> bind_io (read_generations E broken links) (\<lambda>(gs, broken). ret (g # gs, broken))
      | _ \<Rightarrow> read_generations E (insert (gl_version link) broken) links)
        (\<lambda>(gs, b). list_all ?good gs)"
      using Cons.IH by (cases r) (auto intro!: boot.rel.yields_bind [OF Cons.IH] boot.rel.yields_ret)
  qed
qed (simp add: boot.rel.yields_ret)

lemma yields_install_from_links:
  assumes "good_state st"
  shows "yields R (install_generations_from_links E st links) good_state"
  unfolding install_generations_from_links_def
proof (rule boot.rel.yields_bind [OF yields_read_generations], clarify)
  fix gs broken
  assume gs: "list_all (\<lambda>g. gen_ok E e g \<and> list_all (\<lambda>(_, h). gen_ok E e h) (specialisations g)) gs"
  have "list_all (gen_ok E e) (concat (map (\<lambda>g. g # map snd (specialisations g)) gs))"
    using gs by (fastforce simp: list_all_iff)
  moreover have "good_state (st\<lparr>broken_gens := broken\<rparr>)"
    using assms by (simp add: site_state_def)
  ultimately show "yields R (if gs = [] then fail (Msg ''No bootable generations found!'')
      else bind_io (install_generations E (st\<lparr>broken_gens := broken\<rparr>)
             (concat (map (\<lambda>g. g # map snd (specialisations g)) gs))) (\<lambda>st.
           bind_io (io_open (esp (esp_paths st))) (\<lambda>_. bind_io io_sync (\<lambda>_. ret st)))) good_state"
    by (intro boot.rel.yields_if boot.rel.yields_fail boot.rel.yields_bind [OF yields_install_generations]
        boot.rel.yields_bind_keeps boot.keeps_io_open boot.rel.keeps_reads boot.rel.yields_ret)
qed

end

subsection \<open>Malformed generations\<close>

lemma try_io_Ok: "try_io m w = (Ok r, w') \<Longrightarrow> m w = (r, w')"
  by (auto simp: try_io_def split: prod.splits outcome.splits)

lemma read_generations_broken:
  assumes "read_generations E broken links w = (Ok (gs, b), w')"
  shows "broken \<subseteq> b \<and>
    (\<forall>link \<in> set links. (\<forall>w. \<not> is_ok (fst (from_link E link w))) \<longrightarrow> gl_version link \<in> b)"
  using assms
proof (induction links arbitrary: broken gs w)
  case (Cons link links)
  obtain r w1 where r: "from_link E link w = (r, w1)"
    and rest: "(case r of
         Ok g \<Rightarrow> bind_io (read_generations E broken links) (\<lambda>(gs, broken). ret (g # gs, broken))
       | _ \<Rightarrow> read_generations E (insert (gl_version link) broken) links) w1 = (Ok (gs, b), w')"
    using Cons.prems by (auto simp: bind_io_Ok dest!: try_io_Ok)
  show ?case
  proof (cases r)
    case (Ok g)
    then have "\<not> (\<forall>w. \<not> is_ok (fst (from_link E link w)))" using r by (metis fst_conv is_ok.simps(1))
    moreover obtain gs' where "read_generations E broken links w1 = (Ok (gs', b), w')"
      using rest Ok by (auto simp: bind_io_Ok)
    ultimately show ?thesis using Cons.IH by auto
  qed (use rest Cons.IH in force)+
qed simp

lemma install_nixos_ca_broken:
  "install_nixos_ca E st src lbl w = (Ok (p, st'), w') \<Longrightarrow> broken_gens st' = broken_gens st"
  by (auto simp: install_nixos_ca_def bind_io_Ok Let_def add_roots_def)

text \<open>What a run delivers, without regard to what it does to the file system.\<close>

definition outputs :: "('a \<Rightarrow> bool) \<Rightarrow> 'a io \<Rightarrow> bool" where
  "outputs P m \<longleftrightarrow> (\<forall>w a w'. m w = (Ok a, w') \<longrightarrow> P a)"

lemma outputs_bind: "(\<And>a. outputs P (f a)) \<Longrightarrow> outputs P (bind_io m f)"
  unfolding outputs_def bind_io_Ok by blast

lemma outputs_bind_where: "outputs Q m \<Longrightarrow> (\<And>a. Q a \<Longrightarrow> outputs P (f a)) \<Longrightarrow> outputs P (bind_io m f)"
  unfolding outputs_def bind_io_Ok by blast

lemma outputs_ret: "P a \<Longrightarrow> outputs P (ret a)"
  by (simp add: outputs_def)

lemma outputs_install_nixos_ca: "outputs (\<lambda>(_, st'). broken_gens st' = broken_gens st) (install_nixos_ca E st src lbl)"
  using install_nixos_ca_broken by (auto simp: outputs_def)

lemma install_into_broken: "install_into E st g d w = (Ok st', w') \<Longrightarrow> broken_gens st' = broken_gens st"
proof -
  let ?same = "\<lambda>st'. broken_gens st' = broken_gens st"
  have "outputs ?same (install_into E st g d)"
    unfolding install_into_def Let_def
  proof (rule outputs_bind, rule outputs_bind_where [OF outputs_install_nixos_ca], clarsimp, rule outputs_bind, rule outputs_bind,
      rule outputs_bind_where [OF outputs_install_nixos_ca], clarsimp, rule outputs_bind, rule outputs_bind, rule outputs_bind,
      rule outputs_bind_where [where Q = ?same])
    fix st1 :: installer and image
    assume "?same st1"
    then show "outputs ?same (case pcrlock_paths st1 of None \<Rightarrow> ret st1
        | Some pp \<Rightarrow> bind_io (lock_pe E image (lanzaboote_measurement pp (version_tag g)))
            (\<lambda>_. ret (add_roots [lanzaboote_measurement pp (version_tag g)] st1)))"
      by (auto simp: outputs_def bind_io_Ok add_roots_def split: option.splits)
  next
    fix st2 :: installer and image
    assume "?same st2"
    then show "outputs ?same (bind_io (stub_name E (i_signer st2) g (bootcounting_initial_tries st2)) (\<lambda>name.
        bind_io (install_signed (i_signer (add_roots [path_join (linux (esp_paths st2)) name] st2)) image
            (path_join (linux (esp_paths st2)) name)) (\<lambda>_. ret (add_roots [path_join (linux (esp_paths st2)) name] st2))))"
      by (intro outputs_bind outputs_ret) (simp add: add_roots_def)
  qed
  then show "install_into E st g d w = (Ok st', w') \<Longrightarrow> broken_gens st' = broken_gens st"
    by (auto simp: outputs_def)
qed

lemma with_tempdir_Ok:
  "with_tempdir E body w = (Ok a, w') \<Longrightarrow>
     \<exists>p w1 w2. new_tempdir E w = (Ok p, w1) \<and> body p w1 = (Ok a, w2) \<and> w' = snd (io_remove_dir_all p w2)"
  by (auto simp: with_tempdir_def Let_def split: prod.splits outcome.splits)

lemma register_Ok:
  assumes "register_installed_generation E st g w = (Ok (b, st'), w')"
  shows "\<exists>pre w1 r w2. stub_prefix E (i_signer st) g w = (Ok pre, w1) \<and>
           read_installed_generation E st pre w1 = (r, w2) \<and>
           (case r of
              Ok (s, k, i) \<Rightarrow> files w' = files w2 \<and> (\<exists>ps. st' = add_roots ps (add_roots [s, k, i] st))
            | _ \<Rightarrow> \<not> b \<and> st' = st \<and> w' = w2)"
proof -
  obtain pre w1 r w2 where run: "stub_prefix E (i_signer st) g w = (Ok pre, w1)"
    "read_installed_generation E st pre w1 = (r, w2)"
    and rest: "(case r of
         Ok (s, k, i) \<Rightarrow>
           (let st = add_roots [s, k, i] st
            in case pcrlock_paths st of
                 None \<Rightarrow> ret (True, st)
               | Some pp \<Rightarrow>
                   let m = lanzaboote_measurement pp (version_tag g)
                   in bind_io (io_exists m) (\<lambda>ex.
                        if ex then ret (True, add_roots [m] st) else ret (False, st)))
       | _ \<Rightarrow> ret (False, st)) w2 = (Ok (b, st'), w')"
    using assms by (auto simp: register_installed_generation_def bind_io_Ok dest!: try_io_Ok)
  have none: "st'' = add_roots [] st''" for st'' by (simp add: add_roots_def roots_extend_def)
  have "case r of
      Ok (s, k, i) \<Rightarrow> files w' = files w2 \<and> (\<exists>ps. st' = add_roots ps (add_roots [s, k, i] st))
    | _ \<Rightarrow> \<not> b \<and> st' = st \<and> w' = w2"
  proof (cases r)
    case (Ok ski)
    obtain s k i where ski: "ski = (s, k, i)" by (cases ski)
    let ?st = "add_roots [s, k, i] st"
    show ?thesis
    proof (cases "pcrlock_paths ?st")
      case None
      then show ?thesis using rest Ok ski none [of ?st] by (auto simp: Let_def)
    next
      case (Some pp)
      then show ?thesis
        using rest Ok ski none [of ?st]
        by (auto simp: Let_def bind_io_Ok split: if_splits dest!: io_exists_Ok)
    qed
  qed (use rest in auto)
  with run show ?thesis by blast
qed

lemma broken_gens_add_roots [simp]: "broken_gens (add_roots ps st) = broken_gens st"
  by (simp add: add_roots_def)

lemma register_broken:
  assumes "register_installed_generation E st g w = (Ok (b, st'), w')"
  shows "broken_gens st' = broken_gens st"
proof -
  obtain pre w1 r w2 where "read_installed_generation E st pre w1 = (r, w2)" and r: "case r of
       Ok (s, k, i) \<Rightarrow> files w' = files w2 \<and> (\<exists>ps. st' = add_roots ps (add_roots [s, k, i] st))
     | _ \<Rightarrow> \<not> b \<and> st' = st \<and> w' = w2"
    using register_Ok [OF assms] by (elim exE conjE)
  show ?thesis
  proof (cases r)
    case (Ok ski)
    with r show ?thesis by (cases ski) auto
  qed (use r in auto)
qed

lemma install_generations_broken:
  "install_generations E st gs w = (Ok st', w') \<Longrightarrow> broken_gens st' = broken_gens st"
proof (induction gs arbitrary: st w)
  case (Cons g gs)
  then obtain st1 w1 where "install_generation E st g w = (Ok st1, w1)"
    and rest: "install_generations E st1 gs w1 = (Ok st', w')"
    by (auto simp: bind_io_Ok)
  then have "broken_gens st1 = broken_gens st"
    by (auto simp: install_generation_def bind_io_Ok split: if_splits
        dest!: register_broken with_tempdir_Ok install_into_broken)
  with Cons.IH [OF rest] show ?case by simp
qed simp

lemma install_from_links_broken:
  assumes "install_generations_from_links E st links w = (Ok st', w')"
    "link \<in> set links" "\<forall>w. \<not> is_ok (fst (from_link E link w))"
  shows "broken_gens st' \<noteq> {}"
proof -
  obtain gs b w1 w2 where gs: "read_generations E (broken_gens st) links w = (Ok (gs, b), w1)"
    and inst: "install_generations E (st\<lparr>broken_gens := b\<rparr>)
      (concat (map (\<lambda>g. g # map snd (specialisations g)) gs)) w1 = (Ok st', w2)"
    using assms(1) by (auto simp: install_generations_from_links_def bind_io_Ok split: if_splits)
  have "gl_version link \<in> b" using read_generations_broken [OF gs] assms(2,3) by blast
  moreover have "broken_gens st' = b" using install_generations_broken [OF inst] by simp
  ultimately show ?thesis by blast
qed

subsection \<open>The boot loader, garbage collection and the whole\<close>

lemma garbage_mono: "garbage r Q d q \<Longrightarrow> garbage {} Q d q"
  by (auto simp: garbage_iff)

lemma garbage_below: "garbage r Q d q \<Longrightarrow> below d q"
  using below_trans by (auto simp: garbage_iff)

context install_site
begin

lemma keeps_from_systemd_boot_binary: "keeps R (from_systemd_boot_binary E p)"
  unfolding from_systemd_boot_binary_def by (intro boot.rel.keeps_bind boot.rel.keeps_reads boot.rel.keeps_lift)

lemma keeps_newer: "keeps R (newer_systemd_boot E src to)"
  unfolding newer_systemd_boot_def
  by (intro boot.rel.keeps_bind boot.rel.keeps_reads boot.rel.keeps_if boot.rel.keeps_ret
      keeps_from_systemd_boot_binary boot.rel.keeps_try boot.rel.keeps_outcome)

lemma bootloader_slots:
  "slot (efi_fallback P)" "slot (systemd_boot P)" "slot (systemd_boot_loader_config P)"
  "below e (efi_fallback P)" "below e (systemd_boot P)" "below e (systemd_boot_loader_config P)"
  "efi_fallback P \<noteq> e" "systemd_boot P \<noteq> e" "systemd_boot_loader_config P \<noteq> e"
proof -
  have "list_all component [''EFI'', ''BOOT'', efi_fallback_filename arch]"
    "list_all component [''EFI'', ''systemd'', systemd_filename arch]"
    "list_all component [''loader'', ''loader.conf'']"
    "efi_fallback_filename arch \<noteq> ''..''" "systemd_filename arch \<noteq> ''..''"
    using efi_fallback_filename_plain [of arch] systemd_filename_plain [of arch]
    by (auto simp: plain_name_def component_def)
  then show "slot (efi_fallback P)" "slot (systemd_boot P)" "slot (systemd_boot_loader_config P)"
    "below e (efi_fallback P)" "below e (systemd_boot P)" "below e (systemd_boot_loader_config P)"
    "efi_fallback P \<noteq> e" "systemd_boot P \<noteq> e" "systemd_boot_loader_config P \<noteq> e"
    using abs_path_append [OF esp_abs] by (simp_all add: esp_paths_new slot_def)
qed

lemma pcrlock_of_state:
  "good_state st \<Longrightarrow> pcrlock_paths st = Some pp \<Longrightarrow> \<exists>d. pcr = Some d \<and> pp = PcrlockPaths_new d"
  by (cases pcr) (auto simp: site_state_def)

lemma keeps_replace:
  assumes "good_state st" "abs_path src"
  shows "keeps R (replace_systemd_boot E st src)"
proof -
  have st: "i_signer st = S" "esp_paths st = P" using assms(1) by (auto simp: site_state_def)
  have rel: "relative_name ''next''" "relative_name ''current''" by (simp_all add: relative_name_def)
  have lock: "keeps R (lock_pe E src (bootloader_measurement pp ''next''))" if "pcrlock_paths st = Some pp" for pp
    using pcrlock_of_state [OF assms(1) that] measurement_place rel keeps_lock_pe by metis
  have ren: "keeps R (io_rename (bootloader_measurement pp ''next'') (bootloader_measurement pp ''current''))"
    if pp: "pcrlock_paths st = Some pp" for pp
  proof -
    obtain d where d: "pcr = Some d" "pp = PcrlockPaths_new d"
      using pcrlock_of_state [OF assms(1) pp] by blast
    have "free \<rho> q" if "below (bootloader_measurement pp n) q" "relative_name n" for n q
      using below_trans [OF measurement_place(3) [OF d(1) that(2)]] that(1) free_area [of d q] d
      by (simp add: site_areas_def)
    then show ?thesis using rel by (intro boot.keeps_rename) blast
  qed
  have "keeps R (seq_io (install_signed S src) [efi_fallback P, systemd_boot P])"
    using bootloader_slots assms(2) by (intro boot.rel.keeps_seq keeps_install_signed) auto
  with lock ren show ?thesis
    unfolding replace_systemd_boot_def st
    by (intro boot.rel.keeps_bind boot.rel.keeps_option boot.rel.keeps_ret)
qed

lemma keeps_install_conf: "keeps R (install_file E conf (systemd_boot_loader_config P))"
  unfolding install_file_def
proof (rule boot.rel.keeps_bind [OF boot.rel.keeps_reads(1)], rule boot.rel.keeps_bind)
  let ?to = "systemd_boot_loader_config P"
  note facts = slot_facts [OF bootloader_slots(3,6,9)]
  have ok: "\<rho> ?to x (Some (File d m))" for x d m
    using bootloader_slots(6) by (auto simp: boot_rel_def esp_rel_def proper_file_def)
  have "with_extension ?to ''.tmp'' \<noteq> conf" using facts(3) conf_place by blast
  then have "keeps R (atomic_copy conf ?to)"
    using facts(1) ok unfolding keeps_def by (auto intro: boot.extends_atomic_copy)
  then have "keeps R (force_install conf ?to)"
    unfolding force_install_def using facts
    by (auto intro!: boot.rel.keeps_bind boot.keeps_ensure_parent_dir boot.keeps_set_permission_bits)
  then show "keeps R (if c then force_install conf ?to else ret ())" for c
    by (simp add: boot.rel.keeps_ret)
  show "keeps R (if \<not> ex then ret True
      else bind_io (file_hash E conf) (\<lambda>a. bind_io (file_hash E ?to) (\<lambda>b. ret (a \<noteq> b))))" for ex
    by (intro boot.rel.keeps_if boot.rel.keeps_ret boot.rel.keeps_bind boot.rel.keeps_file_hash)
qed

lemma keeps_install_systemd_boot:
  assumes "good_state st"
  shows "keeps R (install_systemd_boot E st)"
proof -
  have st: "i_signer st = S" "esp_paths st = P" "i_systemd st = systemd_dir" "i_loader_config st = conf"
    using assms by (auto simp: site_state_def)
  have "relative_name ''lib/systemd/boot/efi''" "relative_name (systemd_filename (i_arch st))"
    by (simp_all add: relative_name_def systemd_filename_def)
  then have "abs_path (path_join (path_join systemd_dir ''lib/systemd/boot/efi'') (systemd_filename (i_arch st)))"
    using systemd_abs abs_path_join by blast
  then show ?thesis
    unfolding install_systemd_boot_def Let_def st or_io_def and_io_def
    by (intro boot.rel.keeps_bind boot.rel.keeps_if keeps_newer boot.rel.keeps_ret boot.rel.keeps_option
        boot.rel.keeps_reads signer_keeps [OF verify_pure] keeps_replace [OF assms] keeps_install_conf)
qed

lemma keeps_collect_all:
  assumes "good_state st" and rm: "\<And>q. removable P q \<Longrightarrow> rm q"
  shows "keeps R (collect_all_garbage E st)"
proof -
  have st: "esp_paths st = P" using assms(1) by (simp add: site_state_def)
  have drop: "\<rho> q (Some n) None" if "removable P q" "below e q" for q n
    using that rm by (simp add: boot_rel_def esp_rel_def)
  have 1: "\<rho> q (Some n) None" if "garbage (gc_roots st) (\<lambda>_. True) (nixos P) q" for q n
    using garbage_below [OF that] dirs_below(1) below_trans by (intro drop) (auto simp: removable_def)
  have 2: "\<rho> q (Some n) None" if "garbage (gc_roots st) is_nixos_entry (linux P) q" for q n
    using garbage_below [OF that] garbage_mono [OF that] dirs_below(2) below_trans
    by (intro drop) (auto simp: removable_def)
  have 3: "\<rho> q (Some n) None"
    if pp: "pcrlock_paths st = Some pp" and g: "garbage (gc_roots st) (\<lambda>_. True) (lanzaboote pp) q" for pp q n
  proof -
    obtain d where d: "pcr = Some d" "pp = PcrlockPaths_new d"
      using pcrlock_of_state [OF assms(1) pp] by blast
    then have "below d q"
      using garbage_below [OF g] below_trans [of d "d @ [''635-lanzaboote.pcrlock.d'']" q]
      by (simp add: pcrlock_paths_new)
    then show ?thesis using free_area [of d q] d by (simp add: site_areas_def free_def)
  qed
  show ?thesis
    unfolding collect_all_garbage_def collect_garbage_def st
    by (intro boot.rel.keeps_if boot.rel.keeps_bind boot.rel.keeps_option boot.rel.keeps_ret
        boot.keeps_collect walks) (erule 1 2 3 | erule (1) 3)+
qed

lemma keeps_from_path: "keeps R (from_path E p)"
proof -
  have "keeps R (read_build_time E p)"
    unfolding read_build_time_def by (rule boot.rel.keeps_syscall) (simp add: boot.rel.R_refl)
  then show ?thesis
    unfolding from_path_def by (intro boot.rel.keeps_bind boot.rel.keeps_lift boot.rel.keeps_try boot.rel.keeps_ret)
qed

lemma keeps_collect_links: "keeps R (collect_io (from_path E) ps)"
  by (induction ps) (auto intro!: boot.rel.keeps_ret boot.rel.keeps_bind keeps_from_path)

lemma keeps_install:
  assumes "good_state st" "\<And>q. removable P q \<Longrightarrow> rm q"
  shows "keeps R (install E st)"
  unfolding install_def
proof (rule boot.rel.keeps_bind [OF keeps_collect_links])
  fix links
  show "keeps R (bind_io (install_generations_from_links E st (newest (configuration_limit st) links)) (\<lambda>st.
      bind_io (install_systemd_boot E st) (\<lambda>_. bind_io (collect_all_garbage E st) (\<lambda>_. ret st))))"
    by (rule yields_keeps [of _ _ "\<lambda>_. True"], rule boot.rel.yields_bind [OF yields_install_from_links [OF assms(1)]])
      (auto intro!: yields_any boot.rel.keeps_bind keeps_install_systemd_boot keeps_collect_all assms(2)
        boot.rel.keeps_ret)
qed

text \<open>With a malformed generation nothing is collected.\<close>

lemma extends_install_broken:
  assumes "good_state st"
    and broken: "\<And>links w1. collect_io (from_path E) (generation_links st) w = (Ok links, w1) \<Longrightarrow>
      \<exists>link \<in> set (newest (configuration_limit st) links). \<forall>w. \<not> is_ok (fst (from_link E link w))"
  shows "extends R w (snd (install E st w))"
  unfolding install_def
proof (rule boot.rel.extends_bind)
  show "extends R w (snd (collect_io (from_path E) (generation_links st) w))"
    using keeps_collect_links by (simp add: keeps_def)
  fix links w1
  assume links: "collect_io (from_path E) (generation_links st) w = (Ok links, w1)"
  show "extends R w1 (snd (bind_io (install_generations_from_links E st (newest (configuration_limit st) links))
      (\<lambda>st. bind_io (install_systemd_boot E st) (\<lambda>_. bind_io (collect_all_garbage E st) (\<lambda>_. ret st))) w1))"
  proof (rule boot.rel.extends_bind)
    show "extends R w1 (snd (install_generations_from_links E st (newest (configuration_limit st) links) w1))"
      using yields_keeps [OF yields_install_from_links [OF assms(1)]] by (simp add: keeps_def)
    fix st' w2
    assume run: "install_generations_from_links E st (newest (configuration_limit st) links) w1 = (Ok st', w2)"
    have "good_state st'" using yieldsD [OF yields_install_from_links [OF assms(1)] run] .
    moreover have "broken_gens st' \<noteq> {}"
      using install_from_links_broken [OF run] broken [OF links] by blast
    ultimately have "keeps R (bind_io (install_systemd_boot E st')
        (\<lambda>_. bind_io (collect_all_garbage E st') (\<lambda>_. ret st')))"
      by (auto simp: collect_all_garbage_def
          intro!: boot.rel.keeps_bind keeps_install_systemd_boot boot.rel.keeps_ret)
    then show "extends R w2 (snd (bind_io (install_systemd_boot E st')
        (\<lambda>_. bind_io (collect_all_garbage E st') (\<lambda>_. ret st')) w2))"
      by (simp add: keeps_def)
  qed
qed

end

end
