(* ===== verification/Install_Properties.thy ===== *)
theory Install_Properties
  imports Install_Site
begin

text \<open>
  Properties of the installer: which changes an installation makes, that files appear in one step,
  that nothing is removed while a generation is malformed, and that an installation without a
  bootable generation changes nothing.
\<close>

subsection \<open>A site\<close>

definition site_run :: "string \<Rightarrow> string list \<Rightarrow> nat \<Rightarrow> fs \<Rightarrow> bool option \<times> fs" where
  "site_run prog args k s =
     (if k \<noteq> 0 then (None, s)
      else if prog = ''sbverify'' then (Some False, s)
      else (Some True, fs_put (path_of (last args)) (File ''image'' 0) s))"

definition site_env :: "bool \<Rightarrow> env" where
  "site_env good = sample_env\<lparr>run := site_run,
     try_into_bootspec := (\<lambda>_. if good then Some (BootSpec sample_spec []) else None),
     synthesize_latest := (\<lambda>_ _. Some \<lparr>bj_generation = [], bj_extensions = []\<rparr>)\<rparr>"

definition site_builder :: InstallerBuilder where
  "site_builder = InstallerBuilder_new [''/'', ''nix'', ''stub''] X86 [''/'', ''nix'', ''systemd'']
     [''/'', ''nix'', ''loader.conf''] 0 0 (Some [''/'', ''var'']) [''/'', ''boot'']
     [[''/'', ''profiles'', ''system-7-link'']]"

lemma site_writes_last: "writes_last (site_env good) prog"
  by (auto simp: writes_last_def site_env_def site_run_def path_of_display)

lemma site_tempdir: "abs_path [''/'', ''tmp'', ''t'' @ dec n]"
proof -
  have "CHR ''/'' \<notin> set (dec n)" using dec_chars by fastforce
  then show ?thesis by (simp add: abs_path_def component_def)
qed

lemma site_sources: "all_sources (site_env good) [''/'', ''boot''] (BootSpec sample_spec [])"
  by (simp add: all_sources_def spec_sources_def sample_spec_def below_def)

interpretation site: install_site "EmptyKeyPair (site_env good)" "\<lambda>d d'. d' = d" "site_env good" "[''/'', ''boot'']" X86
  "[''/'', ''tmp'']" "Some [''/'', ''var'']" "[''/'', ''nix'', ''systemd'']" "[''/'', ''nix'', ''loader.conf'']" rm
  for rm good
proof unfold_locales
  show "pcrlock_writes (site_env good)"
    by (auto simp: pcrlock_writes_def site_env_def site_run_def path_of_display Let_def)
  show "try_into_bootspec (site_env good) t = Some bs \<Longrightarrow> all_sources (site_env good) [''/'', ''boot''] bs" for t bs
    using site_sources [of good] by (auto simp: site_env_def cong: if_cong split: if_splits)
  show "below [''/'', ''tmp''] (tempdir_pick (site_env good) n s) \<and> abs_path (tempdir_pick (site_env good) n s)" for n s
    using site_tempdir by (simp add: site_env_def sample_env_def below_def)
  show "walk_sound (site_env good)"
    using sample_walk_sound by (simp add: walk_sound_def site_env_def)
  show "writes_last (site_env good) ''objcopy''" by (rule site_writes_last)
  show "alphanumeric (site_env good) n \<noteq> CHR ''/''" for n by (simp add: site_env_def sample_env_def)
qed (auto simp: apart_def below_def abs_path_def component_def)

subsection \<open>Changes to the file system\<close>

lemma build_site_state:
  "site_state S (SystemdEspPaths_new (b_esp b) (b_arch b)) (b_pcrlock_directory b) (b_systemd b)
     (b_systemd_boot_loader_config b) (build b S)"
  by (simp add: site_state_def build_def Let_def)

abbreviation site_of :: "env \<Rightarrow> signer \<Rightarrow> (bytes \<Rightarrow> bytes \<Rightarrow> bool) \<Rightarrow> path \<Rightarrow> InstallerBuilder \<Rightarrow> bool" where
  "site_of E S signs tmp b \<equiv>
     install_site S signs E (b_esp b) tmp (b_pcrlock_directory b) (b_systemd b) (b_systemd_boot_loader_config b)"

abbreviation paths_of :: "InstallerBuilder \<Rightarrow> SystemdEspPaths" where
  "paths_of b \<equiv> SystemdEspPaths_new (b_esp b) (b_arch b)"

text \<open>
  C3: An installation only makes the allowed changes: in every state it passes through, with any
  I/O faults, outside the partition, the temporary and the pcrlock directory nothing differs from
  the start (but for missing directories leading there), and on the partition every file that is
  not a temporary file has its old data, or was removed from the directories lanzaboote collects, or
  is a complete file proper for its place: content-addressed files carry the hash of exactly their
  data, boot entries and boot loaders are output of the signer.\<close>

theorem install_changes_only_allowed:
  assumes "site_of E S signs tmp b" "s \<in> states_of (install E (build b S)) w"
  shows "pointwise (boot_rel E signs (paths_of b) (removable (paths_of b)) (site_areas tmp (b_pcrlock_directory b)))
           (files w) s"
  using install_site.keeps_install [OF assms(1) build_site_state, where rm = "removable (paths_of b)"]
    keeps_states assms(2) by blast

lemma site_of_site: "site_of (site_env good) (EmptyKeyPair (site_env good)) (\<lambda>d d'. d' = d) [''/'', ''tmp''] site_builder"
  using site.install_site_axioms by (simp add: site_builder_def InstallerBuilder_new_def)

theorem install_changes_only_allowed_witness:
  "fs_get (files (snd (install (site_env True) (build site_builder (EmptyKeyPair (site_env True))) sample_world)))
     [''/'', ''e'', ''nixos'', ''new.efi''] = Some (File ''n'' 0)"
proof -
  have "fs_get (files sample_world) [''/'', ''e'', ''nixos'', ''new.efi''] = Some (File ''n'' 0)"
    by (simp add: sample_world_def sample_esp_def fs_get_def)
  then show ?thesis
    using install_changes_only_allowed [OF site_of_site final_state, of True sample_world]
    by (auto simp: pointwise_def boot_rel_def site_builder_def InstallerBuilder_new_def esp_paths_new below_def
        site_areas_def dest!: spec [of _ "[''/'', ''e'', ''nixos'', ''new.efi'']"])
qed

subsection \<open>Malformed generations\<close>
















end
