(* ===== verification/Install_Names.thy ===== *)
theory Install_Names
  imports Installer "HOL-Library.Multiset"
begin

text \<open>
  Names and paths the installer writes and later reads back: the paths stored in a stub, the file names of
  stubs with their boot counters, and the selection of the newest generations.
\<close>

subsection \<open>Paths stored in a stub\<close>

text \<open>Replacing ASCII characters by ASCII characters does not change whether a text is valid.\<close>

definition same_unit :: "char \<Rightarrow> char \<Rightarrow> bool" where
  "same_unit c d \<longleftrightarrow> (of_char c :: nat) < 128 \<and> (of_char d :: nat) < 128 \<or> c = d"

lemma same_unit_cont: "same_unit c d \<Longrightarrow> 128 \<le> lo \<Longrightarrow> utf8_cont lo hi c = utf8_cont lo hi d"
  by (auto simp: same_unit_def utf8_cont_def)

lemma utf8_valid_same: "list_all2 same_unit s t \<Longrightarrow> utf8_valid s = utf8_valid t"
proof (induction s arbitrary: t rule: length_induct)
  case (1 s)
  then have IH: "length u < length s \<Longrightarrow> list_all2 same_unit u v \<Longrightarrow> utf8_valid u = utf8_valid v" for u v by blast
  show ?case
  proof (cases s)
    case (Cons c s1)
    then obtain c' t1 where t: "t = c' # t1" and c: "same_unit c c'" and s1: "list_all2 same_unit s1 t1"
      using "1.prems" by (auto simp: list_all2_Cons1)
    show ?thesis
    proof (cases "(of_char c :: nat) < 128")
      case True
      then have "(of_char c' :: nat) < 128" using c by (auto simp: same_unit_def)
      with True show ?thesis using IH [OF _ s1] Cons t by simp
    next
      case False
      then have "c' = c" using c by (simp add: same_unit_def)
      note s = Cons t \<open>c' = c\<close> False
      show ?thesis
      proof (cases s1)
        case (Cons d s2)
        then obtain d' t2 where d: "t1 = d' # t2" "same_unit d d'" "list_all2 same_unit s2 t2"
          using s1 by (auto simp: list_all2_Cons1)
        note s2 = IH [OF _ d(3)] same_unit_cont [OF d(2)]
        show ?thesis
        proof (cases s2)
          case (Cons e s3)
          then obtain e' t3 where e: "t2 = e' # t3" "same_unit e e'" "list_all2 same_unit s3 t3"
            using d(3) by (auto simp: list_all2_Cons1)
          note s3 = IH [OF _ e(3)] same_unit_cont [OF e(2)]
          show ?thesis
          proof (cases s3)
            case (Cons f s4)
            then obtain f' t4 where f: "t3 = f' # t4" "same_unit f f'" "list_all2 same_unit s4 t4"
              using e(3) by (auto simp: list_all2_Cons1)
            show ?thesis
              using s \<open>s1 = d # s2\<close> \<open>s2 = e # s3\<close> Cons d(1) e(1) f(1) s2 s3 IH [OF _ f(3)] same_unit_cont [OF f(2)]
              by (simp add: Let_def del: utf8_valid.simps add: utf8_valid.simps(2) [of c])
          qed (use s \<open>s1 = d # s2\<close> \<open>s2 = e # s3\<close> d(1) e s2 s3 in
              \<open>simp add: Let_def del: utf8_valid.simps add: utf8_valid.simps(2) [of c]\<close>)
        qed (use s \<open>s1 = d # s2\<close> d s2 in \<open>simp add: Let_def del: utf8_valid.simps add: utf8_valid.simps(2) [of c]\<close>)
      qed (use s s1 in simp)
    qed
  qed (use "1.prems" in simp)
qed

lemma utf8_valid_replace:
  assumes "(of_char a :: nat) < 128" "(of_char b :: nat) < 128"
  shows "utf8_valid (replace_char a b s) = utf8_valid s"
proof -
  have "list_all2 same_unit (replace_char a b s) s"
    using assms by (induction s) (auto simp: replace_char_def same_unit_def)
  then show ?thesis by (rule utf8_valid_same)
qed

text \<open>A path on the partition that can be written with backslashes: plain components without one.\<close>

definition uefi_component :: "string \<Rightarrow> bool" where
  "uefi_component c \<longleftrightarrow> component c \<and> BACKSLASH \<notin> set c"

lemma join_relative:
  assumes "r \<noteq> []" "list_all component r"
  shows "relative_name (join_with ''/'' r)" "split_on CHR ''/'' (join_with ''/'' r) = r"
proof -
  have "hd r \<noteq> []" "CHR ''/'' \<notin> set (hd r)" using assms by (cases r; simp add: component_def)+
  then have "join_with ''/'' r \<noteq> [] \<and> hd (join_with ''/'' r) \<noteq> CHR ''/''"
    using assms(1) by (cases "(''/'', r)" rule: join_with.cases) (auto simp: neq_Nil_conv)
  then show "relative_name (join_with ''/'' r)" by (simp add: relative_name_def)
  show "split_on CHR ''/'' (join_with ''/'' r) = r"
    using assms by (intro split_on_join) (auto simp: list_all_iff component_def)
qed

lemma set_join_with: "set (join_with sep xs) \<subseteq> set sep \<union> (\<Union>x \<in> set xs. set x)"
  by (induction sep xs rule: join_with.induct) auto

text \<open>
  C26: The path of a file on the partition survives the trip through a stub: the path the installer
  writes into a section, with backslashes and relative to the partition, is resolved to the same file
  when the stub is read back to see what is installed.\<close>

theorem efi_path_round_trip:
  assumes "e \<noteq> []" "r \<noteq> []" "list_all uefi_component r" "esp_relative_uefi_path e (e @ r) = Ok u"
  shows "resolve_efi_path e u = Ok (e @ r)"
proof -
  let ?x = "join_with ''/'' r"
  have comps: "list_all component r" "\<And>c. c \<in> set r \<Longrightarrow> BACKSLASH \<notin> set c"
    using assms(3) by (auto simp: list_all_iff uefi_component_def)
  have display: "path_display r = ?x"
    using assms(2) comps(1) by (cases r) (auto simp: path_display_def is_absolute_def component_def)
  have valid: "utf8_valid ?x" and u: "u = BACKSLASH # replace_char CHR ''/'' BACKSLASH ?x"
    using assms(4) by (auto simp: esp_relative_uefi_path_def uefi_path_def path_to_str_def display outcome_simps
        split: if_splits)
  have ascii: "(of_char CHR ''/'' :: nat) < 128" "(of_char BACKSLASH :: nat) < 128" by (simp_all add: BACKSLASH_def)
  have "BACKSLASH \<noteq> CHR ''/''" by code_simp
  then have "BACKSLASH \<notin> set ?x" using set_join_with [of "''/''" r] comps(2) by auto
  then have inverse: "replace_char BACKSLASH CHR ''/'' (replace_char CHR ''/'' BACKSLASH ?x) = ?x"
    by (rule replace_char_inverse)
  have "path_join e ?x = e @ r"
    using path_join_relative [OF join_relative(1) [OF assms(2) comps(1)] assms(1)] join_relative(2) [OF assms(2) comps(1)] comps(1)
    by (auto simp: list_all_iff component_def intro: filter_True)
  then show ?thesis
    using valid by (simp add: resolve_efi_path_def u utf8_valid_replace [OF ascii] inverse)
qed

theorem efi_path_round_trip_witness:
  "resolve_efi_path [''/'', ''boot''] (BACKSLASH # ''EFI'' @ BACKSLASH # ''nixos'' @ BACKSLASH # ''k.efi'') =
     Ok [''/'', ''boot'', ''EFI'', ''nixos'', ''k.efi'']"
proof -
  have "list_all uefi_component [''EFI'', ''nixos'', ''k.efi'']"
    by code_simp
  moreover have "esp_relative_uefi_path [''/'', ''boot''] ([''/'', ''boot''] @ [''EFI'', ''nixos'', ''k.efi'']) =
      Ok (BACKSLASH # ''EFI'' @ BACKSLASH # ''nixos'' @ BACKSLASH # ''k.efi'')"
    by code_simp
  ultimately show ?thesis using efi_path_round_trip [of "[''/'', ''boot'']" "[''EFI'', ''nixos'', ''k.efi'']"] by simp
qed

subsection \<open>Names of stubs\<close>






subsection \<open>The newest generations\<close>

text \<open>
  C24: A configuration limit keeps the newest generations: the generations that are installed are a selection of
  the links, in ascending order, without a limit all of them; a link is left out only if the limit is reached, and
  then no installed generation is older than it.\<close>

theorem newest_keeps_latest:
  "mset (newest limit links) \<subseteq># mset links \<and> sorted (map gl_version (newest limit links)) \<and>
   length (newest limit links) = (if limit = 0 then length links else min (unat limit) (length links)) \<and>
   (\<forall>x y. x \<in># mset links - mset (newest limit links) \<and> y \<in> set (newest limit links) \<longrightarrow> gl_version x \<le> gl_version y)"
proof -
  define ls where "ls = linorder_class.sort_key gl_version links"
  have ls: "mset ls = mset links" "sorted (map gl_version ls)" "length ls = length links"
    by (simp_all add: ls_def sorted_sort_key)
  define k where "k = (if limit = 0 then 0 else length ls - unat limit)"
  have new: "newest limit links = drop k ls"
    by (simp add: newest_def Let_def ls_def [symmetric] k_def take_rev word_neq_0_conv)
  have split: "mset links = mset (take k ls) + mset (drop k ls)"
    using ls(1) by (metis append_take_drop_id mset_append)
  then have rest: "mset links - mset (newest limit links) = mset (take k ls)" by (simp add: new)
  have sorted: "sorted (map gl_version (take k ls) @ map gl_version (drop k ls))"
    using ls(2) by (metis append_take_drop_id map_append)
  have "gl_version x \<le> gl_version y" if "x \<in> set (take k ls)" "y \<in> set (drop k ls)" for x y
    using sorted that by (auto simp: sorted_append)
  moreover have "0 < unat limit" if "limit \<noteq> 0" using that by (simp add: unat_gt_0)
  moreover have "sorted (map gl_version (drop k ls))" using sorted by (simp add: sorted_append)
  moreover have "length ls - (length ls - unat limit) = min (unat limit) (length ls)" by simp
  ultimately show ?thesis
    unfolding rest using ls(3) split by (simp add: new k_def)
qed

theorem newest_keeps_latest_witness:
  "sorted (map gl_version (newest 1 [\<lparr>gl_version = 5, gl_path = [], gl_build_time = None\<rparr>,
     \<lparr>gl_version = 2, gl_path = [], gl_build_time = None\<rparr>]))"
  using newest_keeps_latest [of 1 "[\<lparr>gl_version = 5, gl_path = [], gl_build_time = None\<rparr>,
     \<lparr>gl_version = 2, gl_path = [], gl_build_time = None\<rparr>]"] by blast

end
