(* ===== verification/Command_Line.thy ===== *)
theory Command_Line
  imports Installer Gc
begin

text \<open>
  The command line (\<open>systemd/src/cli.rs\<close>) around the installer: the exit code of the process, and
  which signer an invocation uses.
\<close>

subsection \<open>The process\<close>

text \<open>
  An error is logged and ends the process with code 1; a panic of the main thread ends it with the
  code 101 of the Rust runtime. The logger, which the options for verbosity configure, is left out.
\<close>

type_synonym exit_code = nat

definition Commands_call :: "env \<Rightarrow> path option \<Rightarrow> InstallCommand \<Rightarrow> unit io" where
  "Commands_call E stub_var args = bind_io (cli_install E stub_var args) (\<lambda>_. ret ())"

definition Cli_call :: "env \<Rightarrow> path option \<Rightarrow> InstallCommand \<Rightarrow> world \<Rightarrow> exit_code \<times> world" where
  "Cli_call E stub_var args w =
     (case Commands_call E stub_var args w of
        (Ok _, w') \<Rightarrow> (0, w')
      | (Err _, w') \<Rightarrow> (1, w')
      | (Panic, w') \<Rightarrow> (101, w'))"

subsection \<open>Refused invocations\<close>

text \<open>
  C40: An invocation that lacks the stub, a key or a supported system changes nothing and does not even touch the
  file system: without the stub or for an unsupported system the exit code is 1, for a missing key option
  the process panics.\<close>

theorem cli_refuses:
  assumes "stub_var = None \<or> c_public_key args = None \<or> c_private_key args = None \<or>
    c_system args \<notin> {''x86_64-linux'', ''aarch64-linux''}"
  shows "Cli_call E stub_var args w =
    (if stub_var \<noteq> None \<and> (c_public_key args = None \<or> c_private_key args = None) then 101 else 1, w)"
  using assms
  by (cases stub_var; cases "c_public_key args"; cases "c_private_key args")
    (auto simp: Cli_call_def Commands_call_def cli_install_def bind_io_def lift_def ok_or_def expect_def
      from_nixos_system_def)

definition sample_command :: "bool \<Rightarrow> InstallCommand" where
  "sample_command allowed =
     \<lparr>c_system = ''riscv64-linux'', c_systemd = [''/'', ''s''], c_systemd_boot_loader_config = [''/'', ''l''],
      c_allow_unsigned = allowed, c_public_key = Some [''/'', ''pub''], c_private_key = Some [''/'', ''priv''],
      c_configuration_limit = 1, c_bootcounting_initial_tries = 0, c_pcrlock_directory = None,
      c_esp = [''/'', ''e''], c_generations = []\<rparr>"

theorem cli_refuses_witness:
  "Cli_call sample_env (Some [''/'', ''stub'']) (sample_command True) sample_world = (1, sample_world)"
  using cli_refuses [of "Some [''/'', ''stub'']" "sample_command True" sample_env sample_world]
  by (simp add: sample_command_def)

subsection \<open>The signer\<close>

lemma missing_run:
  "\<exists>b w'. missing p w = (Ok b, w') \<and> files w' = files w \<and> (faults w = [] \<longrightarrow> b = (\<not> present (files w) p) \<and> faults w' = [])"
  by (cases "faults w")
    (auto simp: missing_def bind_io_def try_io_def io_try_exists_def syscall_def Let_def ret_def)

lemma both_missing_run:
  "\<exists>b w'. and_io (missing p) (missing q) w = (Ok b, w') \<and> files w' = files w \<and>
     (faults w = [] \<longrightarrow> b = (\<not> present (files w) p \<and> \<not> present (files w) q) \<and> faults w' = [])"
proof -
  obtain b w1 where p: "missing p w = (Ok b, w1)" "files w1 = files w"
    "faults w = [] \<longrightarrow> b = (\<not> present (files w) p) \<and> faults w1 = []"
    using missing_run by blast
  obtain c w2 where "missing q w1 = (Ok c, w2)" "files w2 = files w1"
    "faults w1 = [] \<longrightarrow> c = (\<not> present (files w1) q) \<and> faults w2 = []"
    using missing_run by blast
  then show ?thesis using p by (cases b) (auto simp: and_io_def bind_io_def ret_def)
qed

text \<open>
  C6: Unsigned artifacts are installed only on request: the rest of an invocation with keys is the installation
  with the local key pair, unless the invocation allows unsigned artifacts. When every check for a key file works,
  artifacts stay unsigned exactly when that is allowed and neither key file exists.\<close>

theorem cli_signs_unless_unsigned:
  assumes "c_public_key args = Some pub" "c_private_key args = Some priv" "from_nixos_system (c_system args) = Ok a"
  shows "\<exists>keyless w'. files w' = files w \<and> (keyless \<longrightarrow> c_allow_unsigned args) \<and>
    (faults w = [] \<longrightarrow>
       keyless = (c_allow_unsigned args \<and> \<not> present (files w) pub \<and> \<not> present (files w) priv)) \<and>
    cli_install E (Some stub) args w =
      install E (build (InstallerBuilder_new stub a (c_systemd args) (c_systemd_boot_loader_config args)
          (c_configuration_limit args) (c_bootcounting_initial_tries args) (c_pcrlock_directory args)
          (c_esp args) (c_generations args))
        (if keyless then EmptyKeyPair E else local_signer E (LocalKeyPair_new pub priv))) w'"
proof (cases "c_allow_unsigned args")
  case True
  obtain b w' where "and_io (missing pub) (missing priv) w = (Ok b, w')" "files w' = files w"
    "faults w = [] \<longrightarrow> b = (\<not> present (files w) pub \<and> \<not> present (files w) priv)"
    using both_missing_run by blast
  then show ?thesis
    using True assms by (intro exI [of _ b] exI [of _ w']) (simp add: cli_install_def bind_io_def lift_def ok_or_def expect_def Let_def)
next
  case False
  then show ?thesis
    using assms by (intro exI [of _ False] exI [of _ w]) (simp add: cli_install_def bind_io_def lift_def ok_or_def expect_def ret_def Let_def)
qed

theorem cli_signs_unless_unsigned_witness:
  "\<exists>w'. files w' = files sample_world \<and>
     cli_install sample_env (Some []) (sample_command False\<lparr>c_system := ''x86_64-linux''\<rparr>) sample_world =
       install sample_env (build (InstallerBuilder_new [] X86 [''/'', ''s''] [''/'', ''l''] 1 0 None [''/'', ''e''] [])
         (local_signer sample_env (LocalKeyPair_new [''/'', ''pub''] [''/'', ''priv'']))) w'"
  using cli_signs_unless_unsigned [of "sample_command False\<lparr>c_system := ''x86_64-linux''\<rparr>" "[''/'', ''pub'']" "[''/'', ''priv'']"
      X86 sample_world sample_env "[]"]
  by (auto simp: sample_command_def from_nixos_system_def)

end
