(* ===== verification/Specialisations.thy ===== *)
theory Specialisations
  imports Generation
begin

text \<open>
  Reading a boot specification with nested specialisations (\<open>generation.rs\<close>): it comes to an end
  and yields a generation for every specialisation at every depth.
\<close>

text \<open>
  The generations that belong to a specialisation: each node of the tree of specialisations has its
  generation, which inherits number and build time from the link, carries the name of the specialisation
  and keeps its own boot specification.
\<close>

fun mirrors :: "GenerationLink \<Rightarrow> string \<Rightarrow> specialisation \<Rightarrow> Generation \<Rightarrow> bool"
and mirror_all :: "GenerationLink \<Rightarrow> (string \<times> specialisation) list \<Rightarrow> (string \<times> Generation) list \<Rightarrow> bool"
where
  "mirrors link name (Specialisation (BootSpec b sps) exts) g \<longleftrightarrow>
     version g = gl_version link \<and> build_time g = gl_build_time link \<and> specialisation_name g = Some name \<and>
     eb_bootspec (spec g) = BootSpec b sps \<and> mirror_all link sps (specialisations g)"
| "mirror_all link [] gs \<longleftrightarrow> gs = []"
| "mirror_all link ((name, sp) # sps) gs \<longleftrightarrow>
     (case gs of [] \<Rightarrow> False | (n, g) # gs' \<Rightarrow> n = name \<and> mirrors link name sp g \<and> mirror_all link sps gs')"

lemma parse_specialisations_mirror:
  "\<exists>g. parse_specialisation E link name sp = Ok g \<and> mirrors link name sp g"
  "\<exists>gs. parse_specialisations E link sps = Ok gs \<and> mirror_all link sps gs"
  by (induction E link name sp and E link sps rule: parse_specialisation_parse_specialisations.induct)
    (auto simp: outcome_simps)

lemma parse_boot_json_mirror:
  assumes "try_into_bootspec E (bj_generation bj) = Some bs"
  shows "\<exists>g. parse_boot_json E link name bj = Ok g \<and> version g = gl_version link \<and> build_time g = gl_build_time link \<and>
    specialisation_name g = name \<and> eb_bootspec (spec g) = bs \<and>
    mirror_all link (bs_specialisations bs) (specialisations g)"
  using parse_specialisations_mirror(2) [of E link "bs_specialisations bs"] assms
  by (auto simp: parse_boot_json_def outcome_simps)

text \<open>
  C23: Reading a boot specification always comes to an end, however deep its specialisations are nested. Of an
  unsupported bootspec generation nothing is read; otherwise the result is a generation whose tree of
  specialisations mirrors the specification, each with its own name and boot specification and the
  number and build time of the link.\<close>

theorem boot_json_read_completely:
  "case try_into_bootspec E (bj_generation bj) of
     None \<Rightarrow> parse_boot_json E link name bj = Err (Msg ''unsupported bootspec generation'')
   | Some bs \<Rightarrow>
       (\<exists>g. parse_boot_json E link name bj = Ok g \<and> version g = gl_version link \<and> build_time g = gl_build_time link \<and>
          specialisation_name g = name \<and> eb_bootspec (spec g) = bs \<and>
          mirror_all link (bs_specialisations bs) (specialisations g))"
  using parse_boot_json_mirror [of E bj _ link name] by (auto simp: parse_boot_json_def split: option.splits)

end
