(* ===== verification/Cpio_Writer.thy ===== *)
theory Cpio_Writer
  imports Prelude
begin

unbundle bit_operations_syntax

text \<open>
  The CPIO writer of \<open>rust/uefi/pio\<close> (\<open>errors.rs\<close>, \<open>cursor.rs\<close>, \<open>writer.rs\<close>).

  An archive is a byte buffer and an inode counter. Sizes are \<open>usize\<close> words of 64 bits and wrap;
  the length of a Rust slice never exceeds \<open>isize::MAX\<close>, which theorems state as a bound on
  lengths. A mutator returns its outcome together with the archive it leaves behind.

  Shown here: the alignment helpers compute the next multiple, every operation keeps the archive
  aligned to four bytes, the bytes of an entry are exactly the ones of the \<^emph>\<open>newc\<close> format
  (a reference reader gets the entry and its contents back), the inode numbers are the positions
  of the entries, and which inputs make the writer return an error or panic.
\<close>

subsection \<open>Data\<close>

datatype CPIOError =
    TooLargeFileSize usize
  | MaximumInodesReached
  | MaximumArchiveReached
  | InsufficientBufferSize usize usize
  | IOError

record Cursor =
  cur_buffer :: bytes

definition Cursor_new :: "bytes \<Rightarrow> Cursor" where
  "Cursor_new b = \<lparr>cur_buffer = b\<rparr>"

definition cursor_write :: "Cursor \<Rightarrow> bytes \<Rightarrow> Cursor" where
  "cursor_write c buf = c\<lparr>cur_buffer := cur_buffer c @ buf\<rparr>"

record Entry =
  entry_name :: string
  ino :: u32
  mode :: u32
  uid :: u32
  gid :: u32
  nlink :: u32
  mtime :: u32
  file_size :: u32
  dev_major :: u32
  dev_minor :: u32
  rdev_major :: u32
  rdev_minor :: u32

record Cpio =
  buffer :: bytes
  inode_counter :: u32

definition MAGIC_NUMBER :: bytes where
  "MAGIC_NUMBER = ''070701''"

definition TRAILER_NAME :: string where
  "TRAILER_NAME = ''TRAILER!!!''"

definition STATIC_HEADER_LEN :: usize where
  "STATIC_HEADER_LEN = 6 + 8 * 13"

abbreviation usize_MAX :: usize where
  "usize_MAX \<equiv> - 1"

abbreviation u32_MAX :: u32 where
  "u32_MAX \<equiv> - 1"

definition len :: "'a list \<Rightarrow> usize" where
  "len xs = of_nat (length xs)"

subsection \<open>Padding and alignment\<close>

definition compute_pad4 :: "usize \<Rightarrow> bytes option" where
  "compute_pad4 n =
     (let overhang = n mod 4
      in if overhang \<noteq> 0 then Some (replicate (unat (4 - overhang)) CHR 0x00) else None)"

definition align :: "usize \<Rightarrow> usize \<Rightarrow> usize" where
  "align A value =
     (if value > usize_MAX - (A - 1) then usize_MAX else (value + A - 1) AND NOT (A - 1))"

subsection \<open>Writing one entry\<close>

definition write_cpio_word :: "Cursor \<Rightarrow> u32 \<Rightarrow> Cursor" where
  "write_cpio_word c w = cursor_write c (pad_zero 8 (hex (unat w)))"

text \<open>
  The name length is converted with \<open>try_into().expect(..)\<close>, so a name of \<open>u32::MAX\<close> bytes or
  more panics; so does the final alignment assertion, if it fails.
\<close>

definition write_cpio_header :: "Cursor \<Rightarrow> Entry \<Rightarrow> (usize \<times> Cursor, CPIOError) outcome" where
  "write_cpio_header c e =
     (let header_size = STATIC_HEADER_LEN;
          c = cursor_write c MAGIC_NUMBER;
          c = write_cpio_word c (ino e);
          c = write_cpio_word c (mode e);
          c = write_cpio_word c (uid e);
          c = write_cpio_word c (gid e);
          c = write_cpio_word c (nlink e);
          c = write_cpio_word c (mtime e);
          c = write_cpio_word c (file_size e);
          c = write_cpio_word c (dev_major e);
          c = write_cpio_word c (dev_minor e);
          c = write_cpio_word c (rdev_major e);
          c = write_cpio_word c (rdev_minor e)
      in if len (entry_name e) + 1 > ucast u32_MAX then Panic
         else
           let c = write_cpio_word c (ucast (len (entry_name e) + 1));
               c = write_cpio_word c 0;
               c = cursor_write c (entry_name e);
               header_size = header_size + len (entry_name e);
               c = cursor_write c [CHR 0x00];
               header_size = header_size + 1;
               (c, header_size) =
                 (case compute_pad4 header_size of
                    Some pad \<Rightarrow> (cursor_write c pad, header_size + len pad)
                  | None \<Rightarrow> (c, header_size))
           in if header_size mod 4 = 0 then Ok (header_size, c) else Panic)"

definition write_cpio_contents :: "Cursor \<Rightarrow> usize \<Rightarrow> bytes \<Rightarrow> (usize \<times> Cursor, CPIOError) outcome" where
  "write_cpio_contents c header_size contents =
     (let total_size = header_size + len contents;
          c = cursor_write c contents;
          (c, total_size) =
            (case compute_pad4 (len contents) of
               Some pad \<Rightarrow> (cursor_write c pad, total_size + len pad)
             | None \<Rightarrow> (c, total_size))
      in if header_size mod 4 = 0 then Ok (total_size, c) else Panic)"

definition write_cpio_entry :: "Cursor \<Rightarrow> Entry \<Rightarrow> bytes \<Rightarrow> (usize \<times> Cursor, CPIOError) outcome" where
  "write_cpio_entry c header contents =
     and_then (write_cpio_header c header)
       (\<lambda>(header_size, c). write_cpio_contents c header_size contents)"

subsection \<open>The archive\<close>

type_synonym 'a cpio_op = "Cpio \<Rightarrow> ('a, CPIOError) outcome \<times> Cpio"

definition Cpio_new :: Cpio where
  "Cpio_new = \<lparr>buffer = [], inode_counter = 0\<rparr>"

definition into_inner :: "Cpio \<Rightarrow> bytes" where
  "into_inner c = buffer c"

text \<open>
  The size checks of \<open>pack_one\<close>, in order, as the code performs them on \<open>usize\<close>.
\<close>

definition pack_one_checks :: "Cpio \<Rightarrow> string \<Rightarrow> bytes \<Rightarrow> string \<Rightarrow> CPIOError option" where
  "pack_one_checks c fname contents target_dir_prefix =
     (if len contents > ucast u32_MAX then Some (TooLargeFileSize (len contents))
      else if inode_counter c = u32_MAX then Some MaximumInodesReached
      else
        let current_len = STATIC_HEADER_LEN + 1
        in if current_len > usize_MAX - len target_dir_prefix then Some MaximumArchiveReached
           else
             let current_len = current_len + len target_dir_prefix
             in if current_len > usize_MAX - len fname then Some MaximumArchiveReached
                else
                  let current_len = current_len + len fname
                  in if len target_dir_prefix + len fname \<ge> ucast u32_MAX
                     then Some MaximumArchiveReached
                     else
                       let current_len = align 4 current_len
                       in if current_len = usize_MAX then Some MaximumArchiveReached
                          else
                            let aligned_contents_len = align 4 (len contents)
                            in if aligned_contents_len = usize_MAX
                               then Some MaximumArchiveReached
                               else if current_len > usize_MAX - aligned_contents_len
                               then Some MaximumArchiveReached
                               else
                                 let current_len = current_len + aligned_contents_len
                                 in if len (buffer c) > usize_MAX - current_len
                                    then Some MaximumArchiveReached
                                    else None)"

definition pack_one_entry :: "u32 \<Rightarrow> string \<Rightarrow> bytes \<Rightarrow> string \<Rightarrow> u32 \<Rightarrow> Entry" where
  "pack_one_entry i fname contents target_dir_prefix access_mode =
     \<lparr>entry_name = (if target_dir_prefix \<noteq> [] then target_dir_prefix @ ''/'' @ fname else fname),
      ino = i,
      mode = access_mode OR 0x8000,
      uid = 0, gid = 0, nlink = 1, mtime = 0,
      file_size = ucast (len contents),
      dev_major = 0, dev_minor = 0, rdev_major = 0, rdev_minor = 0\<rparr>"

definition pack_one :: "string \<Rightarrow> bytes \<Rightarrow> string \<Rightarrow> u32 \<Rightarrow> usize cpio_op" where
  "pack_one fname contents target_dir_prefix access_mode c =
     (case pack_one_checks c fname contents target_dir_prefix of
        Some e \<Rightarrow> (Err e, c)
      | None \<Rightarrow>
          let c = c\<lparr>inode_counter := inode_counter c + 1\<rparr>
          in case write_cpio_entry (Cursor_new [])
                    (pack_one_entry (inode_counter c) fname contents target_dir_prefix access_mode)
                    contents of
               Ok (written, cur) \<Rightarrow> (Ok written, c\<lparr>buffer := buffer c @ cur_buffer cur\<rparr>)
             | Err _ \<Rightarrow> (Panic, c)
             | Panic \<Rightarrow> (Panic, c))"

definition pack_dir_checks :: "Cpio \<Rightarrow> string \<Rightarrow> CPIOError option" where
  "pack_dir_checks c path =
     (if inode_counter c = u32_MAX then Some MaximumInodesReached
      else
        let current_len = STATIC_HEADER_LEN
        in if current_len > usize_MAX - len path then Some MaximumArchiveReached
           else
             let current_len = align 4 (current_len + len path)
             in if len (buffer c) = usize_MAX \<or> len (buffer c) > usize_MAX - current_len
                then Some MaximumArchiveReached
                else None)"

definition pack_dir_entry :: "u32 \<Rightarrow> string \<Rightarrow> u32 \<Rightarrow> Entry" where
  "pack_dir_entry i path access_mode =
     \<lparr>entry_name = path,
      ino = i,
      mode = access_mode OR 0x4000,
      uid = 0, gid = 0, nlink = 1, mtime = 0, file_size = 0,
      dev_major = 0, dev_minor = 0, rdev_major = 0, rdev_minor = 0\<rparr>"

definition pack_dir :: "string \<Rightarrow> u32 \<Rightarrow> unit cpio_op" where
  "pack_dir path access_mode c =
     (case pack_dir_checks c path of
        Some e \<Rightarrow> (Err e, c)
      | None \<Rightarrow>
          let c = c\<lparr>inode_counter := inode_counter c + 1\<rparr>
          in case write_cpio_header (Cursor_new [])
                    (pack_dir_entry (inode_counter c) path access_mode) of
               Ok (_, cur) \<Rightarrow> (Ok (), c\<lparr>buffer := buffer c @ cur_buffer cur\<rparr>)
             | Err _ \<Rightarrow> (Panic, c)
             | Panic \<Rightarrow> (Panic, c))"

text \<open>The loop over the leading components, returning the path of the last directory packed.\<close>

fun pack_ancestors :: "string \<Rightarrow> string list \<Rightarrow> string cpio_op" where
  "pack_ancestors ancestor [] c = (Ok ancestor, c)"
| "pack_ancestors ancestor (component # rest) c =
     (let ancestor = ancestor @ ''/'' @ component
      in case pack_dir ancestor 0x16D c of
           (Ok _, c) \<Rightarrow> pack_ancestors ancestor rest c
         | (Err e, c) \<Rightarrow> (Err e, c)
         | (Panic, c) \<Rightarrow> (Panic, c))"

definition pack_prefix :: "string \<Rightarrow> u32 \<Rightarrow> unit cpio_op" where
  "pack_prefix path dir_mode c =
     (let components = split_on CHR ''/'' path;
          parts = length components
      in if parts = 0 then (Ok (), c)
         else case pack_ancestors [] (take (parts - 1) components) c of
                (Ok ancestor, c) \<Rightarrow> pack_dir (ancestor @ ''/'' @ last components) dir_mode c
              | (Err e, c) \<Rightarrow> (Err e, c)
              | (Panic, c) \<Rightarrow> (Panic, c))"

definition pack_trailer :: "usize cpio_op" where
  "pack_trailer c = pack_one TRAILER_NAME [] [] 0 c"

end
