(* ===== verification/Cpio_Newc.thy ===== *)
theory Cpio_Newc
  imports Cpio_Writer
begin

unbundle bit_operations_syntax

text \<open>
  The \<^emph>\<open>newc\<close> archive format as a specification, independent of the writer: the bytes of an
  entry, and a reader. The lemmas relate the writer of \<open>Cpio_Writer\<close> to it.
\<close>

subsection \<open>Lengths and alignment\<close>

lemma unat_len: "length xs < 2 ^ 64 \<Longrightarrow> unat (len xs) = length xs"
  by (simp add: len_def unat_of_nat take_bit_nat_eq_self)

lemma unat_of_nat_usize: "n < 2 ^ 64 \<Longrightarrow> unat (of_nat n :: usize) = n"
  by (simp add: unat_of_nat take_bit_nat_eq_self)

lemma usize_gt_iff: "m < 2 ^ 64 \<Longrightarrow> (w > (of_nat m :: usize)) = (unat w > m)"
  by (simp add: word_less_nat_alt unat_of_nat_usize)

definition pad4 :: "nat \<Rightarrow> bytes" where
  "pad4 n = replicate ((4 - n mod 4) mod 4) CHR 0x00"

lemma length_pad4: "length (pad4 n) = (4 - n mod 4) mod 4"
  by (simp add: pad4_def)

lemma pad4_aligned: "(n + length (pad4 n)) mod 4 = 0"
proof -
  define q r where "q = n div 4" and "r = n mod 4"
  then have n: "n = 4 * q + r" and "r < 4" by simp_all
  then consider "r = 0" | "r = 1" | "r = 2" | "r = 3" by linarith
  then show ?thesis
    by cases (simp_all add: length_pad4 n mod_mult_self4 flip: numeral_2_eq_2 add_2_eq_Suc)
qed

lemma round_up4: "(n + 3) - (n + 3) mod 4 = n + length (pad4 n)"
proof -
  define q r where "q = n div 4" and "r = n mod 4"
  then have n: "n = 4 * q + r" and r: "r < 4" by simp_all
  have m: "n mod 4 = r" "(n + 3) mod 4 = (r + 3) mod 4" using r by (simp_all add: n add.assoc)
  have "r = 0 \<or> r = 1 \<or> r = 2 \<or> r = 3" using r by linarith
  then show ?thesis by (elim disjE) (simp_all add: length_pad4 m)
qed

lemma length_pad4_less: "length (pad4 n) < 4"
  by (simp add: length_pad4)

lemma compute_pad4_of_nat:
  assumes "n < 2 ^ 64"
  shows "compute_pad4 (of_nat n) = (if n mod 4 = 0 then None else Some (pad4 n))"
proof -
  have m: "unat (of_nat n mod 4 :: usize) = n mod 4"
    using assms by (simp add: unat_mod unat_of_nat_usize)
  have z: "(of_nat n mod 4 = (0::usize)) \<longleftrightarrow> n mod 4 = 0"
    by (metis m unat_0 unat_eq_zero)
  have s: "unat (4 - of_nat n mod 4 :: usize) = 4 - n mod 4"
    using m by (subst unat_sub) (simp_all add: word_le_nat_alt)
  show ?thesis
    using z s by (auto simp: compute_pad4_def Let_def pad4_def)
qed

lemma and_not_mask_unat: "unat (w AND NOT (mask k) :: 'a::len word) = unat w - unat w mod 2 ^ k"
proof -
  have "NOT w AND take_bit k w = 0" and nm: "w AND NOT (take_bit k w) = w AND NOT (mask k)"
    by (auto simp: bit_eq_iff bit_simps)
  then have eq: "w AND NOT (mask k) = w - take_bit k w"
    by (simp add: disjunctive_diff_eq_and_not)
  have tb: "unat (take_bit k w) = unat w mod 2 ^ k"
    by (simp only: unsigned_take_bit_eq) (simp only: take_bit_eq_mod)
  have "take_bit k w \<le> w"
    by (simp add: word_le_nat_alt tb)
  then show ?thesis
    by (simp add: eq unat_sub tb)
qed

text \<open>
  The code writes \<open>value + A - 1\<close>. For the largest value that passes the guard, \<open>value + A\<close>
  wraps to zero; subtracting one wraps back, and the result is still the right multiple.
\<close>

lemma unat_align:
  assumes "k < 64" and "unat v \<le> 2 ^ 64 - 2 ^ k"
  shows "unat (align (2 ^ k) v) = (unat v + (2 ^ k - 1)) - (unat v + (2 ^ k - 1)) mod 2 ^ k"
proof -
  have k64: "(2::nat) ^ k \<le> 2 ^ 63" "(1::nat) \<le> 2 ^ k"
    using power_increasing [of k 63 "2::nat"] assms(1) by simp_all
  have pk: "unat (2 ^ k :: usize) = 2 ^ k"
    using unat_of_nat_usize [of "2 ^ k"] k64 by simp
  have mk: "(2 ^ k - 1 :: usize) = mask k"
    by (simp add: mask_eq_exp_minus_1)
  have umk: "unat (mask k :: usize) = 2 ^ k - 1"
    unfolding mk [symmetric] using k64 pk by (subst unat_sub) (simp_all add: word_le_nat_alt)
  have um: "unat (v + mask k) = unat v + (2 ^ k - 1)"
  proof -
    have "unat v + unat (mask k :: usize) < 2 ^ LENGTH(64)"
      using assms(2) k64 by (simp add: umk)
    then show ?thesis
      using unat_add_lem [of v "mask k"] umk by simp
  qed
  have g: "\<not> usize_MAX - mask k < v"
  proof -
    have mx: "unat usize_MAX = 2 ^ 64 - 1"
      by (simp add: unsigned_minus_1_eq_mask mask_eq_exp_minus_1)
    have "unat (usize_MAX - mask k :: usize) = 2 ^ 64 - 2 ^ k"
      using k64 unfolding unat_sub [OF word_order.extremum] mx umk by linarith
    then show ?thesis
      using assms(2) by (simp add: word_less_nat_alt)
  qed
  have vm: "v + 2 ^ k - 1 = v + mask k"
    by (simp add: mk [symmetric])
  show ?thesis
    unfolding align_def mk vm if_not_P [OF g] and_not_mask_unat um ..
qed

subsection \<open>The format\<close>

definition hex_word :: "u32 \<Rightarrow> bytes" where
  "hex_word w = pad_zero 8 (hex (unat w))"

definition newc_words :: "Entry \<Rightarrow> u32 list" where
  "newc_words e =
     [ino e, mode e, uid e, gid e, nlink e, mtime e, file_size e, dev_major e, dev_minor e,
      rdev_major e, rdev_minor e, of_nat (length (entry_name e) + 1), 0]"

definition newc_header :: "Entry \<Rightarrow> bytes" where
  "newc_header e =
     MAGIC_NUMBER @ concat (map hex_word (newc_words e)) @ entry_name e @ [CHR 0x00] @
     pad4 (110 + length (entry_name e) + 1)"

definition newc_entry :: "Entry \<Rightarrow> bytes \<Rightarrow> bytes" where
  "newc_entry e contents = newc_header e @ contents @ pad4 (length contents)"

lemma length_hex_word [simp]: "length (hex_word w) = 8"
proof -
  have "unat w < 16 ^ 8"
    using unsigned_less [of w, where ?'a = nat] by simp
  then show ?thesis by (simp add: hex_word_def length_pad_hex)
qed

lemma length_concat_hex_words [simp]: "length (concat (map hex_word ws)) = 8 * length ws"
  by (induction ws) auto

lemma length_newc_header:
  "length (newc_header e) =
     110 + length (entry_name e) + 1 + length (pad4 (110 + length (entry_name e) + 1))"
  by (simp add: newc_header_def MAGIC_NUMBER_def newc_words_def)

lemma newc_header_aligned: "length (newc_header e) mod 4 = 0"
  unfolding length_newc_header by (rule pad4_aligned)

lemma newc_entry_aligned: "length (newc_entry e d) mod 4 = 0"
proof -
  have "length (newc_entry e d) = length (newc_header e) + (length d + length (pad4 (length d)))"
    by (simp add: newc_entry_def)
  with newc_header_aligned [of e] pad4_aligned [of "length d"] show ?thesis
    by (metis add.right_neutral mod_add_right_eq)
qed

subsection \<open>The writer produces the format\<close>

lemma cursor_write_assoc: "cursor_write (cursor_write c a) b = cursor_write c (a @ b)"
  by (simp add: cursor_write_def)

lemma len_nat: "len xs = of_nat (length xs)"
  by (simp add: len_def)

lemma ucast_u32_MAX: "(ucast u32_MAX :: usize) = of_nat (2 ^ 32 - 1)"
  by (simp add: unsigned_minus_1_eq_mask mask_eq_exp_minus_1)

lemma name_fits_iff:
  assumes "length s < 2 ^ 63"
  shows "(len s + 1 > ucast u32_MAX) \<longleftrightarrow> 2 ^ 32 \<le> length s + 1"
proof -
  have e: "len s + 1 = (of_nat (length s + 1) :: usize)"
    by (simp add: len_def)
  have "unat (len s + 1) = length s + 1"
    unfolding e by (rule unat_of_nat_usize) (use assms in simp)
  then show ?thesis
    unfolding ucast_u32_MAX by (subst usize_gt_iff) auto
qed

lemma write_cpio_header_long_name:
  "length (entry_name e) < 2 ^ 63 \<Longrightarrow> 2 ^ 32 \<le> length (entry_name e) + 1 \<Longrightarrow>
   write_cpio_header c e = Panic"
  unfolding write_cpio_header_def Let_def by (simp add: name_fits_iff)

lemma header_size_nat: "STATIC_HEADER_LEN + len s + 1 = of_nat (110 + length s + 1)"
  by (simp add: STATIC_HEADER_LEN_def len_def)

lemma of_nat_mod4:
  assumes "n < 2 ^ 64"
  shows "(of_nat n :: usize) mod 4 = 0 \<longleftrightarrow> n mod 4 = 0"
proof -
  have "unat ((of_nat n :: usize) mod 4) = n mod 4"
    using assms by (simp add: unat_mod unat_of_nat_usize)
  then show ?thesis by (metis unat_0 unat_eq_zero)
qed

text \<open>Both halves of the entry end by writing the padding of what they wrote.\<close>

lemma pad_cases:
  assumes "n < 2 ^ 63"
  shows "(case compute_pad4 (of_nat n) of
            Some pad \<Rightarrow> (cursor_write c pad, m + len pad) | None \<Rightarrow> (c, m))
         = (cursor_write c (pad4 n), m + of_nat (length (pad4 n)))"
proof -
  have "compute_pad4 (of_nat n) = (if n mod 4 = 0 then None else Some (pad4 n))"
    by (rule compute_pad4_of_nat) (use assms in simp)
  then show ?thesis
    by (auto simp: pad4_def cursor_write_def len_def)
qed

lemma ucast_name_len:
  "length s + 1 < 2 ^ 32 \<Longrightarrow> (ucast (len s + 1) :: u32) = of_nat (length s + 1)"
proof -
  assume a: "length s + 1 < 2 ^ 32"
  have "(ucast (of_nat (length s + 1) :: usize) :: u32) = of_nat (length s + 1)"
    using a by (simp only: unsigned_of_nat) (simp add: take_bit_nat_eq_self)
  then show ?thesis by (simp add: len_def add.commute)
qed

lemma write_cpio_word_eq: "write_cpio_word c w = cursor_write c (hex_word w)"
  by (simp add: write_cpio_word_def hex_word_def)

lemma write_cpio_header_eq:
  assumes "length (entry_name e) + 1 < 2 ^ 32"
  shows "write_cpio_header c e = Ok (of_nat (length (newc_header e)), cursor_write c (newc_header e))"
proof -
  let ?n = "110 + length (entry_name e) + 1"
  have fits: "\<not> len (entry_name e) + 1 > ucast u32_MAX"
    using assms by (subst name_fits_iff) auto
  have small: "?n < 2 ^ 63" using assms by simp
  have size: "of_nat ?n + of_nat (length (pad4 ?n)) = (of_nat (length (newc_header e)) :: usize)"
    unfolding length_newc_header by simp
  have "length (newc_header e) < 2 ^ 64"
    using assms length_pad4_less [of ?n] unfolding length_newc_header by simp
  then have al: "(of_nat (length (newc_header e)) :: usize) mod 4 = 0"
    using newc_header_aligned by (simp add: of_nat_mod4)
  show ?thesis
    unfolding write_cpio_header_def Let_def header_size_nat if_not_P [OF fits] pad_cases [OF small]
      size ucast_name_len [OF assms] prod.case if_P [OF al]
    by (simp add: write_cpio_word_eq cursor_write_assoc newc_header_def newc_words_def)
qed

lemma write_cpio_contents_eq:
  assumes "length d < 2 ^ 63" and "h mod 4 = 0"
  shows "write_cpio_contents c h d =
           Ok (h + of_nat (length d + length (pad4 (length d))), cursor_write c (d @ pad4 (length d)))"
  unfolding write_cpio_contents_def Let_def len_nat [of d] pad_cases [OF assms(1)]
  using assms(2) by (simp add: cursor_write_assoc)

abbreviation slice :: "'a list \<Rightarrow> bool" where
  "slice xs \<equiv> length xs < 2 ^ 63"

definition name_fits :: "Entry \<Rightarrow> bool" where
  "name_fits e \<longleftrightarrow> length (entry_name e) + 1 < 2 ^ 32"

lemma write_cpio_header_cases:
  "slice (entry_name e) \<Longrightarrow>
   write_cpio_header c e =
     (if name_fits e then Ok (of_nat (length (newc_header e)), cursor_write c (newc_header e))
      else Panic)"
  using write_cpio_header_eq [of e c] write_cpio_header_long_name [of e c]
  by (simp add: name_fits_def)

lemma write_cpio_entry_cases:
  assumes "slice (entry_name e)" "slice d"
  shows "write_cpio_entry c e d =
           (if name_fits e then Ok (of_nat (length (newc_entry e d)), cursor_write c (newc_entry e d))
            else Panic)"
proof (cases "name_fits e")
  case True
  have "length (newc_header e) < 2 ^ 64"
    using True length_pad4_less [of "110 + length (entry_name e) + 1"]
    unfolding length_newc_header name_fits_def by simp
  then have "(of_nat (length (newc_header e)) :: usize) mod 4 = 0"
    using newc_header_aligned by (simp add: of_nat_mod4)
  with True assms show ?thesis
    by (simp add: write_cpio_entry_def write_cpio_header_cases write_cpio_contents_eq
        cursor_write_assoc newc_entry_def add.assoc)
qed (simp add: write_cpio_entry_def write_cpio_header_cases [OF assms(1)])

subsection \<open>The size checks\<close>

lemma gt_u32_MAX: "slice xs \<Longrightarrow> len xs > ucast u32_MAX \<longleftrightarrow> 2 ^ 32 \<le> length xs"
  unfolding ucast_u32_MAX by (subst usize_gt_iff) (auto simp: unat_len)

lemma sum_ge_u32_MAX:
  assumes "slice xs" "slice ys"
  shows "len xs + len ys \<ge> ucast u32_MAX \<longleftrightarrow> 2 ^ 32 - 1 \<le> length xs + length ys"
proof -
  have "len xs + len ys = (of_nat (length xs + length ys) :: usize)"
    by (simp add: len_def)
  then have "unat (len xs + len ys) = length xs + length ys"
    using assms unat_of_nat_usize [of "length xs + length ys"] by simp
  then show ?thesis
    unfolding ucast_u32_MAX by (simp add: word_le_nat_alt unat_of_nat_usize del: of_nat_diff)
qed

lemma no_overflow_iff:
  assumes "a < 2 ^ 64" "b < 2 ^ 64"
  shows "(of_nat a > usize_MAX - of_nat b) \<longleftrightarrow> 2 ^ 64 \<le> a + b"
proof -
  have "unat (usize_MAX - of_nat b :: usize) = 2 ^ 64 - 1 - b"
    using assms(2) unfolding unat_sub [OF word_order.extremum]
    by (simp add: unsigned_minus_1_eq_mask mask_eq_exp_minus_1 unat_of_nat_usize)
  then show ?thesis
    using assms by (auto simp: word_less_nat_alt unat_of_nat_usize)
qed

lemma of_nat_ne_MAX:
  assumes "n < 2 ^ 63"
  shows "of_nat n \<noteq> usize_MAX"
proof
  assume "of_nat n = usize_MAX"
  then have "unat (of_nat n :: usize) = 2 ^ 64 - 1"
    by (simp only:) (simp add: unsigned_minus_1_eq_mask mask_eq_exp_minus_1)
  with assms show False by (simp add: unat_of_nat_usize)
qed

lemma align4_of_nat:
  assumes "n < 2 ^ 63"
  shows "align 4 (of_nat n) = of_nat (n + length (pad4 n))"
proof -
  have small: "n + length (pad4 n) < 2 ^ 64"
    using assms length_pad4_less [of n] by simp
  have "unat (align (2 ^ 2) (of_nat n)) = (n + 3) - (n + 3) mod 4"
    using assms by (subst unat_align) (simp_all add: unat_of_nat_usize)
  also have "\<dots> = n + length (pad4 n)"
    by (rule round_up4)
  finally show ?thesis
    using small by (simp add: word_unat_eq_iff unat_of_nat_usize del: of_nat_add)
qed

subsection \<open>The archive as a list of entries\<close>

lemma pack_one_checks_iff:
  assumes "slice fname" "slice contents" "slice pre" "slice (buffer c)"
  shows "pack_one_checks c fname contents pre = None \<longleftrightarrow>
           length contents < 2 ^ 32 \<and> inode_counter c \<noteq> u32_MAX \<and>
           length pre + length fname < 2 ^ 32 - 1"
proof (cases "length contents < 2 ^ 32 \<and> length pre + length fname < 2 ^ 32 - 1")
  case True
  let ?h = "111 + length pre + length fname"
  let ?a = "?h + length (pad4 ?h)"
  let ?b = "length contents + length (pad4 (length contents))"
  have bounds: "?a < 2 ^ 62" "?b < 2 ^ 62" "length (buffer c) < 2 ^ 63"
    using True assms length_pad4_less [of ?h] length_pad4_less [of "length contents"] by simp_all
  have h: "STATIC_HEADER_LEN + 1 = of_nat 111"
    "of_nat 111 + len pre = of_nat (111 + length pre)"
    "of_nat (111 + length pre) + len fname = of_nat ?h"
    by (simp_all add: STATIC_HEADER_LEN_def len_def)
  have al: "align 4 (of_nat ?h) = of_nat ?a" "align 4 (len contents) = of_nat ?b"
    unfolding len_nat by (rule align4_of_nat, use True assms in simp)+
  have ab: "of_nat ?a + of_nat ?b = (of_nat (?a + ?b) :: usize)"
    by (simp only: of_nat_add)
  have ok: "\<not> len contents > ucast u32_MAX" "\<not> len pre + len fname \<ge> ucast u32_MAX"
    using True assms by (simp_all only: gt_u32_MAX sum_ge_u32_MAX) simp_all
  have ov: "\<not> of_nat 111 > usize_MAX - len pre" "\<not> of_nat (111 + length pre) > usize_MAX - len fname"
    "\<not> of_nat ?a > usize_MAX - (of_nat ?b :: usize)" "\<not> len (buffer c) > usize_MAX - of_nat (?a + ?b)"
    unfolding len_nat using True bounds assms by (subst no_overflow_iff; simp)+
  have ne: "of_nat ?a \<noteq> usize_MAX" "of_nat ?b \<noteq> usize_MAX"
    using bounds by (auto intro!: of_nat_ne_MAX simp del: of_nat_add)
  show ?thesis
    unfolding pack_one_checks_def Let_def h al ab using True ok ov ne by (simp only: if_False) simp
next
  case False
  then show ?thesis
    using assms by (auto simp: pack_one_checks_def Let_def gt_u32_MAX sum_ge_u32_MAX)
qed

lemma pack_dir_checks_short:
  assumes "length path < 2 ^ 32" "slice (buffer c)"
  shows "pack_dir_checks c path = None \<longleftrightarrow> inode_counter c \<noteq> u32_MAX"
proof -
  let ?h = "110 + length path"
  let ?a = "?h + length (pad4 ?h)"
  have bounds: "?a < 2 ^ 62" "?h < 2 ^ 63"
    using assms length_pad4_less [of ?h] by simp_all
  have h: "STATIC_HEADER_LEN = of_nat 110" "of_nat 110 + len path = of_nat ?h"
    by (simp_all add: STATIC_HEADER_LEN_def len_def)
  have al: "align 4 (of_nat ?h) = of_nat ?a"
    by (rule align4_of_nat) (rule bounds)
  have ov: "\<not> of_nat 110 > usize_MAX - len path" "\<not> len (buffer c) > usize_MAX - of_nat ?a"
    unfolding len_nat using bounds assms by (subst no_overflow_iff; simp)+
  have ne: "len (buffer c) \<noteq> usize_MAX"
    unfolding len_nat by (rule of_nat_ne_MAX) (rule assms)
  show ?thesis
    unfolding pack_dir_checks_def Let_def h al using ov ne by (simp only: if_False) simp
qed

text \<open>
  An archive stands for the list of its entries: its bytes are their encodings in order, and the
  inode number of an entry is its position, counted from one.
\<close>

definition entry_ok :: "Entry \<times> bytes \<Rightarrow> bool" where
  "entry_ok ed \<longleftrightarrow> name_fits (fst ed) \<and> unat (file_size (fst ed)) = length (snd ed)"

definition encode_entries :: "(Entry \<times> bytes) list \<Rightarrow> bytes" where
  "encode_entries es = concat (map (\<lambda>(e, d). newc_entry e d) es)"

definition archive :: "Cpio \<Rightarrow> (Entry \<times> bytes) list \<Rightarrow> bool" where
  "archive c es \<longleftrightarrow>
     buffer c = encode_entries es \<and>
     unat (inode_counter c) = length es \<and>
     map (\<lambda>ed. unat (ino (fst ed))) es = [1..<Suc (length es)] \<and>
     list_all entry_ok es"

lemma encode_entries_simps [simp]:
  "encode_entries [] = []"
  "encode_entries ((e, d) # es) = newc_entry e d @ encode_entries es"
  "encode_entries (xs @ ys) = encode_entries xs @ encode_entries ys"
  by (simp_all add: encode_entries_def)

lemma encode_entries_aligned: "length (encode_entries es) mod 4 = 0"
proof (induction es)
  case (Cons ed es)
  then show ?case
    using newc_entry_aligned [of "fst ed" "snd ed"]
    by (cases ed) (simp, metis add.right_neutral mod_add_right_eq)
qed simp

lemma archive_new: "archive Cpio_new []"
  by (simp add: archive_def Cpio_new_def)

lemma inode_counter_less:
  assumes "inode_counter c \<noteq> u32_MAX"
  shows "unat (inode_counter c + 1) = unat (inode_counter c) + 1"
proof -
  have "unat (inode_counter c) \<noteq> 2 ^ 32 - 1"
  proof
    assume "unat (inode_counter c) = 2 ^ 32 - 1"
    then have "inode_counter c = u32_MAX"
      by (simp add: word_unat_eq_iff unsigned_minus_1_eq_mask mask_eq_exp_minus_1)
    with assms show False ..
  qed
  moreover have "unat (inode_counter c) < 2 ^ 32"
    using unsigned_less [of "inode_counter c", where ?'a = nat] by simp
  ultimately show ?thesis
    by (subst unat_add_lem [THEN iffD1]) simp_all
qed

lemma archive_snoc:
  assumes "archive c es" "inode_counter c \<noteq> u32_MAX" "entry_ok (e, d)"
    and "ino e = inode_counter c + 1"
  shows "archive \<lparr>buffer = buffer c @ newc_entry e d, inode_counter = inode_counter c + 1\<rparr>
           (es @ [(e, d)])"
  using assms inode_counter_less [of c] by (auto simp: archive_def)

lemma pack_one_checks_inode: "pack_one_checks c fname d pre = None \<Longrightarrow> inode_counter c \<noteq> u32_MAX"
  by (auto simp: pack_one_checks_def split: if_splits)

lemma pack_dir_checks_inode: "pack_dir_checks c path = None \<Longrightarrow> inode_counter c \<noteq> u32_MAX"
  by (auto simp: pack_dir_checks_def split: if_splits)

lemma cursor_new_write [simp]: "cur_buffer (cursor_write (Cursor_new []) b) = b"
  by (simp add: cursor_write_def Cursor_new_def)

text \<open>The outcome of \<open>pack_one\<close>, in full.\<close>

lemma pack_one_cases:
  assumes "slice fname" "slice pre" "slice contents" "slice (pre @ ''/'' @ fname)"
  shows "pack_one fname contents pre m c =
    (case pack_one_checks c fname contents pre of
       Some e \<Rightarrow> (Err e, c)
     | None \<Rightarrow>
         (let i = inode_counter c + 1; e = pack_one_entry i fname contents pre m
          in if name_fits e
             then (Ok (of_nat (length (newc_entry e contents))),
                   \<lparr>buffer = buffer c @ newc_entry e contents, inode_counter = i\<rparr>)
             else (Panic, c\<lparr>inode_counter := i\<rparr>)))"
proof -
  have "slice (entry_name (pack_one_entry i fname contents pre m))" for i
    using assms by (simp add: pack_one_entry_def)
  then show ?thesis
    using assms(3)
    by (cases c) (simp add: pack_one_def write_cpio_entry_cases Let_def split: option.split)
qed

lemma pack_dir_cases:
  assumes "slice path"
  shows "pack_dir path m c =
    (case pack_dir_checks c path of
       Some e \<Rightarrow> (Err e, c)
     | None \<Rightarrow>
         (let i = inode_counter c + 1; e = pack_dir_entry i path m
          in if name_fits e
             then (Ok (), \<lparr>buffer = buffer c @ newc_entry e [], inode_counter = i\<rparr>)
             else (Panic, c\<lparr>inode_counter := i\<rparr>)))"
proof -
  have "slice (entry_name (pack_dir_entry i path m))" for i
    using assms by (simp add: pack_dir_entry_def)
  moreover have "newc_entry e [] = newc_header e" for e
    by (simp add: newc_entry_def pad4_def)
  ultimately show ?thesis
    by (cases c) (simp add: pack_dir_def write_cpio_header_cases Let_def split: option.split)
qed

lemma unat_file_size: "length d < 2 ^ 32 \<Longrightarrow> unat (ucast (len d) :: u32) = length d"
  by (simp add: len_def unsigned_ucast_eq take_bit_nat_eq_self unat_of_nat)

lemma pack_one_checks_contents:
  "slice d \<Longrightarrow> pack_one_checks c fname d pre = None \<Longrightarrow> length d < 2 ^ 32"
  using gt_u32_MAX [of d] by (auto simp: pack_one_checks_def split: if_splits)

lemma archive_counter: "archive c es \<Longrightarrow> of_nat (length es) = inode_counter c"
proof -
  assume "archive c es"
  then have "length es = unat (inode_counter c)" by (simp add: archive_def)
  then show ?thesis by (simp only: of_nat_unat ucast_id)
qed

lemma archive_pack_one:
  assumes "archive c es" "slice fname" "slice pre" "slice d" "slice (pre @ ''/'' @ fname)"
    and "pack_one fname d pre m c = (Ok n, c')"
  shows "archive c' (es @ [(pack_one_entry (of_nat (length es) + 1) fname d pre m, d)])"
    and "n = of_nat (length (newc_entry (pack_one_entry (of_nat (length es) + 1) fname d pre m) d))"
proof -
  let ?e = "pack_one_entry (inode_counter c + 1) fname d pre m"
  note i = archive_counter [OF assms(1)]
  from assms(6) have chk: "pack_one_checks c fname d pre = None" and fits: "name_fits ?e"
    and res: "n = of_nat (length (newc_entry ?e d))"
      "c' = \<lparr>buffer = buffer c @ newc_entry ?e d, inode_counter = inode_counter c + 1\<rparr>"
    unfolding pack_one_cases [OF assms(2-5)] by (auto simp: Let_def split: option.splits if_splits)
  have "entry_ok (?e, d)"
    using fits pack_one_checks_contents [OF assms(4) chk]
    by (simp add: entry_ok_def pack_one_entry_def unat_file_size)
  then show "archive c' (es @ [(pack_one_entry (of_nat (length es) + 1) fname d pre m, d)])"
    unfolding i res
    by (intro archive_snoc assms pack_one_checks_inode [OF chk]) (simp_all add: pack_one_entry_def)
  show "n = of_nat (length (newc_entry (pack_one_entry (of_nat (length es) + 1) fname d pre m) d))"
    by (simp add: i res)
qed

lemma archive_pack_dir:
  assumes "archive c es" "slice path" "pack_dir path m c = (Ok u, c')"
  shows "archive c' (es @ [(pack_dir_entry (of_nat (length es) + 1) path m, [])])"
proof -
  let ?e = "pack_dir_entry (inode_counter c + 1) path m"
  note i = archive_counter [OF assms(1)]
  from assms(3) have chk: "pack_dir_checks c path = None" and fits: "name_fits ?e"
    and res: "c' = \<lparr>buffer = buffer c @ newc_entry ?e [], inode_counter = inode_counter c + 1\<rparr>"
    unfolding pack_dir_cases [OF assms(2)] by (auto simp: Let_def split: option.splits if_splits)
  have "entry_ok (?e, [])"
    using fits by (simp add: entry_ok_def pack_dir_entry_def)
  then show ?thesis
    unfolding i res
    by (intro archive_snoc assms pack_dir_checks_inode [OF chk]) (simp_all add: pack_dir_entry_def)
qed

subsection \<open>Directory prefixes\<close>

text \<open>
  The directories of a prefix: one entry per component, each named by the path down to it with a
  slash before every component; all but the last have mode \<open>0o555\<close>.
\<close>

definition dir_path :: "string list \<Rightarrow> string" where
  "dir_path comps = concat (map (\<lambda>c. ''/'' @ c) comps)"

definition ancestor_entries :: "nat \<Rightarrow> string list \<Rightarrow> string list \<Rightarrow> (Entry \<times> bytes) list" where
  "ancestor_entries i pre comps =
     map (\<lambda>k. (pack_dir_entry (of_nat (i + Suc k)) (dir_path (pre @ take (Suc k) comps)) 0x16D, []))
       [0..<length comps]"

definition prefix_entries :: "nat \<Rightarrow> string \<Rightarrow> u32 \<Rightarrow> (Entry \<times> bytes) list" where
  "prefix_entries i path dir_mode =
     (let comps = split_on CHR ''/'' path
      in ancestor_entries i [] (butlast comps) @
         [(pack_dir_entry (of_nat (i + length comps)) (dir_path comps) dir_mode, [])])"

lemma dir_path_append [simp]: "dir_path (xs @ ys) = dir_path xs @ dir_path ys"
  by (simp add: dir_path_def)

lemma dir_path_simps [simp]: "dir_path [] = []" "dir_path (c # cs) = CHR ''/'' # c @ dir_path cs"
  by (simp_all add: dir_path_def)

lemma ancestor_entries_Cons:
  "ancestor_entries i pre (x # xs) =
     (pack_dir_entry (of_nat (i + 1)) (dir_path (pre @ [x])) 0x16D, []) #
     ancestor_entries (i + 1) (pre @ [x]) xs"
proof -
  have "[0..<length (x # xs)] = 0 # map Suc [0..<length xs]"
    by (simp add: upt_conv_Cons map_Suc_upt del: upt_Suc)
  then show ?thesis
    by (simp add: ancestor_entries_def algebra_simps del: upt_Suc)
qed

lemma length_ancestor_entries [simp]: "length (ancestor_entries i pre xs) = length xs"
  by (simp add: ancestor_entries_def)

lemma dir_path_butlast_le: "length (dir_path (take k comps)) \<le> length (dir_path comps)"
  by (metis append_take_drop_id dir_path_append length_append le_add1)

lemma archive_pack_ancestors:
  assumes "archive c es" "slice (dir_path (pre @ comps))"
    and "pack_ancestors (dir_path pre) comps c = (Ok a, c')"
  shows "archive c' (es @ ancestor_entries (length es) pre comps) \<and> a = dir_path (pre @ comps)"
  using assms
proof (induction comps arbitrary: pre c es)
  case Nil
  then show ?case by (simp add: ancestor_entries_def)
next
  case (Cons x comps)
  let ?p = "dir_path (pre @ [x])"
  have p: "dir_path pre @ ''/'' @ x = ?p" by simp
  from Cons.prems(3) obtain c1 where d: "pack_dir ?p 0x16D c = (Ok (), c1)"
    and r: "pack_ancestors ?p comps c1 = (Ok a, c')"
    unfolding pack_ancestors.simps Let_def p by (auto split: prod.splits outcome.splits)
  have "slice ?p" using Cons.prems(2) by simp
  from archive_pack_dir [OF Cons.prems(1) this d]
  have "archive c1 (es @ [(pack_dir_entry (of_nat (length es + 1)) ?p 0x16D, [])])"
    by (simp add: add.commute)
  from Cons.IH [OF this _ r] Cons.prems(2) show ?case
    by (simp add: ancestor_entries_Cons)
qed

lemma archive_pack_prefix:
  assumes "archive c es" "slice (dir_path (split_on CHR ''/'' path))"
    and "pack_prefix path m c = (Ok u, c')"
  shows "archive c' (es @ prefix_entries (length es) path m)"
proof -
  let ?comps = "split_on CHR ''/'' path"
  have split: "?comps = butlast ?comps @ [last ?comps]" by simp
  have tk: "take (length ?comps - 1) ?comps = butlast ?comps"
    by (simp add: butlast_conv_take)
  from assms(3) obtain a c1 where an: "pack_ancestors (dir_path []) (butlast ?comps) c = (Ok a, c1)"
    and d: "pack_dir (a @ ''/'' @ last ?comps) m c1 = (Ok u, c')"
    unfolding pack_prefix_def Let_def tk by (auto split: prod.splits outcome.splits if_splits)
  have "slice (dir_path ([] @ butlast ?comps))"
    using assms(2) dir_path_butlast_le [of "length ?comps - 1" ?comps] unfolding tk by simp
  from archive_pack_ancestors [OF assms(1) this an]
  have ar: "archive c1 (es @ ancestor_entries (length es) [] (butlast ?comps))"
    and a: "a @ ''/'' @ last ?comps = dir_path ?comps"
    by (simp, metis append_Nil dir_path_append dir_path_simps split append_Nil2 append_Cons)
  have "length ?comps = Suc (length (butlast ?comps))"
    by (metis split length_append_singleton)
  moreover from archive_pack_dir [OF ar assms(2) d [unfolded a]]
  have "archive c' (es @ ancestor_entries (length es) [] (butlast ?comps) @
          [(pack_dir_entry (of_nat (length es + Suc (length (butlast ?comps)))) (dir_path ?comps) m, [])])"
    by (simp add: algebra_simps del: length_butlast)
  ultimately show ?thesis
    by (simp only: prefix_entries_def Let_def)
qed

subsection \<open>A reader\<close>

fun read_words :: "nat \<Rightarrow> bytes \<Rightarrow> (u32 list \<times> bytes) option" where
  "read_words 0 bs = Some ([], bs)"
| "read_words (Suc n) bs =
     (if length bs < 8 then None
      else case parse_radix 16 (take 8 bs) of
             None \<Rightarrow> None
           | Some v \<Rightarrow> map_option (\<lambda>(ws, r). (of_nat v # ws, r)) (read_words n (drop 8 bs)))"

text \<open>
  Reading one entry: magic, thirteen words, a NUL-terminated name of the given size, padding,
  the contents, padding; and the rest of the input.
\<close>

definition read_newc :: "bytes \<Rightarrow> (Entry \<times> bytes \<times> bytes) option" where
  "read_newc bs =
     (if take 6 bs \<noteq> MAGIC_NUMBER then None
      else case read_words 13 (drop 6 bs) of
             Some ([i, m, u, g, nl, mt, fs, dmaj, dmin, rmaj, rmin, ns, _], bs1) \<Rightarrow>
               (let n = unat ns; sz = unat fs;
                    bs2 = drop (n + length (pad4 (110 + n))) bs1
                in if n = 0 \<or> length bs1 < n + length (pad4 (110 + n)) \<or>
                      length bs2 < sz + length (pad4 sz) \<or> bs1 ! (n - 1) \<noteq> CHR 0x00
                   then None
                   else Some (\<lparr>entry_name = take (n - 1) bs1, ino = i, mode = m, uid = u, gid = g,
                                nlink = nl, mtime = mt, file_size = fs, dev_major = dmaj,
                                dev_minor = dmin, rdev_major = rmaj, rdev_minor = rmin\<rparr>,
                              take sz bs2, drop (sz + length (pad4 sz)) bs2))
           | _ \<Rightarrow> None)"

lemma parse_hex_word [simp]: "parse_radix 16 (hex_word w) = Some (unat w)"
  by (simp add: hex_word_def parse_radix_pad_hex)

lemma read_words_concat: "read_words (length ws) (concat (map hex_word ws) @ r) = Some (ws, r)"
proof (induction ws)
  case (Cons w ws)
  have "take 8 (hex_word w @ x) = hex_word w" "drop 8 (hex_word w @ x) = x" for x
    by (simp_all add: length_hex_word)
  with Cons show ?case by simp
qed simp

lemma read_newc_entry:
  assumes "entry_ok (e, d)"
  shows "read_newc (newc_entry e d @ r) = Some (e, d, r)"
proof -
  let ?n = "length (entry_name e) + 1"
  let ?tail = "entry_name e @ [CHR 0x00] @ pad4 (110 + ?n) @ d @ pad4 (length d) @ r"
  have bytes: "newc_entry e d @ r = MAGIC_NUMBER @ concat (map hex_word (newc_words e)) @ ?tail"
    by (simp add: newc_entry_def newc_header_def)
  have magic: "take 6 (MAGIC_NUMBER @ x) = MAGIC_NUMBER" "drop 6 (MAGIC_NUMBER @ x) = x" for x
    by (simp_all add: MAGIC_NUMBER_def)
  have "length (newc_words e) = 13" by (simp add: newc_words_def)
  then have ws: "read_words 13 (concat (map hex_word (newc_words e)) @ ?tail) = Some (newc_words e, ?tail)"
    using read_words_concat [of "newc_words e" ?tail] by simp
  have n: "unat (of_nat ?n :: u32) = ?n"
    using assms by (simp only: unat_of_nat) (simp add: entry_ok_def name_fits_def)
  have sz: "unat (file_size e) = length d"
    using assms by (simp add: entry_ok_def)
  have dr: "drop (?n + length (pad4 (110 + ?n))) ?tail = d @ pad4 (length d) @ r"
    by simp
  show ?thesis
    unfolding read_newc_def bytes magic ws Let_def
    unfolding newc_words_def option.case prod.case list.case n sz dr
    by (cases e) (simp add: nth_append)
qed

lemma read_words_length: "read_words n bs = Some (ws, r) \<Longrightarrow> length bs = 8 * n + length r"
proof (induction n arbitrary: bs ws r)
  case (Suc n)
  then obtain a where "\<not> length bs < 8" "read_words n (drop 8 bs) = Some (a, r)"
    by (auto split: if_splits option.splits)
  with Suc.IH [of "drop 8 bs"] show ?case by simp
qed simp

lemma read_newc_shorter:
  assumes "read_newc bs = Some (e, d, r)"
  shows "length r < length bs"
proof -
  from assms obtain ws bs1 k j where w: "read_words 13 (drop 6 bs) = Some (ws, bs1)"
    and r: "r = drop k (drop j bs1)"
    by (auto simp: read_newc_def Let_def split: if_splits option.splits list.splits prod.splits)
  from read_words_length [OF w] show ?thesis by (simp add: r)
qed

text \<open>Reading an archive, up to its trailer.\<close>

function read_archive :: "bytes \<Rightarrow> (Entry \<times> bytes) list" where
  "read_archive bs =
     (case read_newc bs of
        None \<Rightarrow> []
      | Some (e, d, r) \<Rightarrow>
          if entry_name e = TRAILER_NAME then [] else (e, d) # read_archive r)"
  by pat_completeness auto
termination
  by (relation "measure length") (auto dest: read_newc_shorter)

declare read_archive.simps [simp del]

lemma read_archive_entries:
  assumes "list_all entry_ok es" "entry_ok t" "entry_name (fst t) = TRAILER_NAME"
    and "list_all (\<lambda>ed. entry_name (fst ed) \<noteq> TRAILER_NAME) es"
  shows "read_archive (encode_entries (es @ [t])) = es"
  using assms
proof (induction es)
  case Nil
  then show ?case
    by (cases t) (subst read_archive.simps, simp add: read_newc_entry [where r = "[]", simplified])
next
  case (Cons ed es)
  then show ?case
    by (cases ed) (subst read_archive.simps, simp add: read_newc_entry)
qed

end
