(* ===== verification/Cpio_Pack.thy ===== *)
theory Cpio_Pack
  imports Cpio_Newc
begin

text \<open>
  The archives the boot stub assembles (\<open>rust/uefi/linux-bootloader/src/cpio.rs\<close>).

  A UEFI path is a list of 16-bit characters, ordered lexicographically. The UEFI file system and
  the conversion of the last path component to UTF-8 belong to the \<open>uefi\<close> crate, so they are
  parameters: \<open>read_file\<close> gives the contents of a file or \<open>None\<close> (the code panics then), and
  \<open>utf8_basename\<close> the UTF-8 file name, or \<open>None\<close> for a path without components.

  Shown: the archive does not depend on the order in which the files were discovered, and it
  decodes to the directories of the prefix followed by one regular file per input, in path order.
\<close>

type_synonym cstr16 = "u16 list"

definition pack_cpio_literal ::
  "(cstr16 \<Rightarrow> string) \<Rightarrow> bytes \<Rightarrow> cstr16 \<Rightarrow> string \<Rightarrow> u32 \<Rightarrow> u32 \<Rightarrow> (Cpio, CPIOError) outcome" where
  "pack_cpio_literal utf8_of contents target_filename target_dir_prefix dir_mode access_mode =
     (case pack_prefix target_dir_prefix dir_mode Cpio_new of
        (Err e, _) \<Rightarrow> Err e
      | (Panic, _) \<Rightarrow> Panic
      | (Ok _, cpio) \<Rightarrow>
          (case pack_one (utf8_of target_filename) contents target_dir_prefix access_mode cpio of
             (Err e, _) \<Rightarrow> Err e
           | (Panic, _) \<Rightarrow> Panic
           | (Ok _, cpio) \<Rightarrow>
               (case pack_trailer cpio of
                  (Err e, _) \<Rightarrow> Err e
                | (Panic, _) \<Rightarrow> Panic
                | (Ok _, cpio) \<Rightarrow> Ok cpio)))"

fun pack_files ::
  "(cstr16 \<Rightarrow> bytes option) \<Rightarrow> (cstr16 \<Rightarrow> string option) \<Rightarrow> string \<Rightarrow> u32 \<Rightarrow> cstr16 list \<Rightarrow> unit cpio_op" where
  "pack_files read_file utf8_basename target_dir_prefix access_mode [] cpio = (Ok (), cpio)"
| "pack_files read_file utf8_basename target_dir_prefix access_mode (file # files) cpio =
     (case utf8_basename file of
        None \<Rightarrow> (Panic, cpio)
      | Some utf8_filename \<Rightarrow>
          (case read_file file of
             None \<Rightarrow> (Panic, cpio)
           | Some contents \<Rightarrow>
               (case pack_one utf8_filename contents target_dir_prefix access_mode cpio of
                  (Err e, cpio) \<Rightarrow> (Err e, cpio)
                | (Panic, cpio) \<Rightarrow> (Panic, cpio)
                | (Ok _, cpio) \<Rightarrow>
                    pack_files read_file utf8_basename target_dir_prefix access_mode files cpio)))"

definition pack_cpio ::
  "(cstr16 \<Rightarrow> bytes option) \<Rightarrow> (cstr16 \<Rightarrow> string option) \<Rightarrow> cstr16 list \<Rightarrow> string \<Rightarrow> u32 \<Rightarrow> u32 \<Rightarrow>
   (Cpio, CPIOError) outcome" where
  "pack_cpio read_file utf8_basename files target_dir_prefix dir_mode access_mode =
     (let files = sort files
      in case pack_prefix target_dir_prefix dir_mode Cpio_new of
           (Err e, _) \<Rightarrow> Err e
         | (Panic, _) \<Rightarrow> Panic
         | (Ok _, cpio) \<Rightarrow>
             (case pack_files read_file utf8_basename target_dir_prefix access_mode files cpio of
                (Err e, _) \<Rightarrow> Err e
              | (Panic, _) \<Rightarrow> Panic
              | (Ok _, cpio) \<Rightarrow>
                  (case pack_trailer cpio of
                     (Err e, _) \<Rightarrow> Err e
                   | (Panic, _) \<Rightarrow> Panic
                   | (Ok _, cpio) \<Rightarrow> Ok cpio)))"

subsection \<open>What the archive contains\<close>

definition file_entries ::
  "(cstr16 \<Rightarrow> bytes option) \<Rightarrow> (cstr16 \<Rightarrow> string option) \<Rightarrow> nat \<Rightarrow> string \<Rightarrow> u32 \<Rightarrow> cstr16 list \<Rightarrow>
   (Entry \<times> bytes) list" where
  "file_entries read_file utf8_basename i pre m files =
     map (\<lambda>(k, f). (pack_one_entry (of_nat (i + k) + 1) (the (utf8_basename f)) (the (read_file f)) pre m,
                    the (read_file f)))
       (enumerate 0 files)"

lemma file_entries_Cons:
  "file_entries rd bn i pre m (f # fs) =
     (pack_one_entry (of_nat i + 1) (the (bn f)) (the (rd f)) pre m, the (rd f)) #
     file_entries rd bn (Suc i) pre m fs"
  by (simp add: file_entries_def enumerate_Suc_eq split_beta algebra_simps)

definition file_sizes_ok :: "(cstr16 \<Rightarrow> bytes option) \<Rightarrow> (cstr16 \<Rightarrow> string option) \<Rightarrow> string \<Rightarrow> bool" where
  "file_sizes_ok read_file utf8_basename pre \<longleftrightarrow>
     length pre < 2 ^ 61 \<and>
     (\<forall>f d. read_file f = Some d \<longrightarrow> slice d) \<and>
     (\<forall>f n. utf8_basename f = Some n \<longrightarrow> length n < 2 ^ 61)"

lemma archive_pack_files:
  assumes "archive c es" "file_sizes_ok rd bn pre"
    and "pack_files rd bn pre m files c = (Ok u, c')"
  shows "archive c' (es @ file_entries rd bn (length es) pre m files)"
  using assms
proof (induction files arbitrary: c es)
  case Nil
  then show ?case by (simp add: file_entries_def)
next
  case (Cons f files)
  from Cons.prems(3) obtain n d w c1 where f: "bn f = Some n" "rd f = Some d"
    and p: "pack_one n d pre m c = (Ok w, c1)" and r: "pack_files rd bn pre m files c1 = (Ok u, c')"
    by (auto split: option.splits prod.splits outcome.splits)
  have "slice n" "slice pre" "slice d" "slice (pre @ ''/'' @ n)"
    using Cons.prems(2) f by (force simp: file_sizes_ok_def)+
  from Cons.IH [OF archive_pack_one(1) [OF Cons.prems(1) this p] Cons.prems(2) r] show ?case
    by (simp add: file_entries_Cons f)
qed

lemma dir_path_hd: "comps \<noteq> [] \<Longrightarrow> hd (dir_path comps) = CHR ''/''"
  by (cases comps) auto

lemma prefix_entries_not_trailer:
  "list_all (\<lambda>ed. entry_name (fst ed) \<noteq> TRAILER_NAME) (prefix_entries i path m)"
proof -
  have "dir_path comps \<noteq> TRAILER_NAME" for comps
    using dir_path_hd [of comps] by (cases comps) (auto simp: TRAILER_NAME_def)
  then show ?thesis
    by (auto simp: prefix_entries_def ancestor_entries_def Let_def list_all_iff pack_dir_entry_def)
qed

lemma file_entries_not_trailer:
  "pre \<noteq> [] \<Longrightarrow> list_all (\<lambda>ed. entry_name (fst ed) \<noteq> TRAILER_NAME) (file_entries rd bn i pre m files)"
proof -
  have "pre @ ''/'' @ x \<noteq> TRAILER_NAME" for x
  proof
    assume "pre @ ''/'' @ x = TRAILER_NAME"
    then have "CHR ''/'' \<in> set TRAILER_NAME" by (metis in_set_conv_decomp append_Cons)
    then show False by (simp add: TRAILER_NAME_def)
  qed
  then show "pre \<noteq> [] \<Longrightarrow> ?thesis"
    by (auto simp: file_entries_def list_all_iff pack_one_entry_def)
qed

lemma archive_pack_trailer:
  assumes "archive c es" "pack_trailer c = (Ok n, c')"
  shows "archive c' (es @ [(pack_one_entry (of_nat (length es) + 1) TRAILER_NAME [] [] 0, [])])"
  using archive_pack_one(1) [OF assms(1) _ _ _ _ assms(2) [unfolded pack_trailer_def]]
  by (simp add: TRAILER_NAME_def)

lemma archive_read:
  assumes "archive c (es @ [(pack_one_entry i TRAILER_NAME [] [] 0, [])])"
    and "list_all (\<lambda>ed. entry_name (fst ed) \<noteq> TRAILER_NAME) es"
  shows "read_archive (into_inner c) = es"
  using assms
  by (simp add: archive_def into_inner_def read_archive_entries pack_one_entry_def
      del: encode_entries_simps)

lemma slice_dir_path:
  assumes "length path < 2 ^ 61"
  shows "slice (dir_path (split_on CHR ''/'' path))"
proof -
  have "length (dir_path comps) = (if comps = [] then 0 else Suc (length (join_with ''/'' comps)))" for comps
    by (induction "''/''" comps rule: join_with.induct) auto
  from this [of "split_on CHR ''/'' path"] show ?thesis
    using assms by (simp add: join_split_on)
qed

subsection \<open>When packing succeeds\<close>

lemma inode_not_MAX: "archive c es \<Longrightarrow> length es < 2 ^ 32 - 1 \<Longrightarrow> inode_counter c \<noteq> u32_MAX"
  by (auto simp: archive_def unsigned_minus_1_eq_mask mask_eq_exp_minus_1)

lemma pack_one_succeeds:
  assumes "archive c es" "length es < 2 ^ 32 - 1" "slice (buffer c)" "length d < 2 ^ 32"
    and "length pre + length fname + 2 < 2 ^ 32"
  shows "\<exists>n c'. pack_one fname d pre m c = (Ok n, c')"
proof -
  have sl: "slice fname" "slice pre" "slice d" "slice (pre @ ''/'' @ fname)"
    using assms by simp_all
  have "pack_one_checks c fname d pre = None"
    using assms inode_not_MAX [OF assms(1,2)] by (subst pack_one_checks_iff) auto
  moreover have "name_fits (pack_one_entry (inode_counter c + 1) fname d pre m)"
    using assms(5) by (simp add: name_fits_def pack_one_entry_def)
  ultimately show ?thesis
    by (simp add: pack_one_cases [OF sl] Let_def)
qed

lemma pack_dir_succeeds:
  assumes "archive c es" "length es < 2 ^ 32 - 1" "slice (buffer c)" "length path + 1 < 2 ^ 32"
  shows "\<exists>c'. pack_dir path m c = (Ok (), c')"
proof -
  have sl: "slice path" using assms by simp
  have "pack_dir_checks c path = None"
    using assms inode_not_MAX [OF assms(1,2)] by (subst pack_dir_checks_short) auto
  moreover have "name_fits (pack_dir_entry (inode_counter c + 1) path m)"
    using assms(4) by (simp add: name_fits_def pack_dir_entry_def)
  ultimately show ?thesis
    by (simp add: pack_dir_cases [OF sl] Let_def)
qed

lemma archive_slice: "archive c es \<Longrightarrow> slice (encode_entries (es @ fs)) \<Longrightarrow> slice (buffer c)"
  by (simp add: archive_def)

lemma pack_ancestors_succeeds:
  assumes "archive c es" "length es + length comps < 2 ^ 32 - 1"
    and "slice (encode_entries (es @ ancestor_entries (length es) pre comps))"
    and "length (dir_path (pre @ comps)) + 1 < 2 ^ 32"
  shows "\<exists>c'. pack_ancestors (dir_path pre) comps c = (Ok (dir_path (pre @ comps)), c')"
  using assms
proof (induction comps arbitrary: pre c es)
  case (Cons x comps)
  let ?p = "dir_path (pre @ [x])"
  let ?e = "(pack_dir_entry (of_nat (length es) + 1) ?p 0x16D, [])"
  have p: "dir_path pre @ ''/'' @ x = ?p" by simp
  have "slice ?p" "length ?p + 1 < 2 ^ 32" using Cons.prems(4) by simp_all
  then obtain c1 where d: "pack_dir ?p 0x16D c = (Ok (), c1)"
    using pack_dir_succeeds [OF Cons.prems(1)] Cons.prems(2) archive_slice [OF Cons.prems(1,3)] by fastforce
  from archive_pack_dir [OF Cons.prems(1) \<open>slice ?p\<close> d] have ar: "archive c1 (es @ [?e])" .
  have "slice (encode_entries ((es @ [?e]) @ ancestor_entries (length (es @ [?e])) (pre @ [x]) comps))"
    using Cons.prems(3) by (simp add: ancestor_entries_Cons add.commute)
  from Cons.IH [OF ar _ this] Cons.prems(2,4)
  obtain c' where "pack_ancestors ?p comps c1 = (Ok (dir_path (pre @ x # comps)), c')" by auto
  then show ?case
    unfolding pack_ancestors.simps Let_def p d by simp
qed simp

lemma pack_prefix_succeeds:
  assumes "archive c es" "length es + length (split_on CHR ''/'' path) < 2 ^ 32 - 1"
    and "slice (encode_entries (es @ prefix_entries (length es) path m))"
    and "length (dir_path (split_on CHR ''/'' path)) + 1 < 2 ^ 32"
  shows "\<exists>c'. pack_prefix path m c = (Ok (), c')"
proof -
  let ?comps = "split_on CHR ''/'' path"
  let ?as = "ancestor_entries (length es) [] (butlast ?comps)"
  have tk: "take (length ?comps - 1) ?comps = butlast ?comps"
    by (simp add: butlast_conv_take)
  have dp: "length (dir_path (butlast ?comps)) \<le> length (dir_path ?comps)"
    using dir_path_butlast_le [of "length ?comps - 1" ?comps] unfolding tk .
  have sl: "slice (encode_entries (es @ ?as))"
    using assms(3) by (simp add: prefix_entries_def Let_def)
  obtain c1 where an: "pack_ancestors (dir_path []) (butlast ?comps) c = (Ok (dir_path (butlast ?comps)), c1)"
    using pack_ancestors_succeeds [OF assms(1) _ sl] assms(2,4) dp by fastforce
  have "slice (dir_path ([] @ butlast ?comps))" using dp assms(4) by simp
  from archive_pack_ancestors [OF assms(1) this an] have ar: "archive c1 (es @ ?as)" by simp
  have "dir_path (butlast ?comps) @ ''/'' @ last ?comps = dir_path ?comps"
    by (metis append_butlast_last_id dir_path_append dir_path_simps append_Nil2 append_Cons append_Nil split_on_nonempty)
  moreover obtain c' where "pack_dir (dir_path ?comps) m c1 = (Ok (), c')"
    using pack_dir_succeeds [OF ar _ _ assms(4)] assms(2) archive_slice [OF ar, of "[]"] sl by fastforce
  ultimately show ?thesis
    using an unfolding pack_prefix_def Let_def tk by simp
qed

definition files_fit ::
  "(cstr16 \<Rightarrow> bytes option) \<Rightarrow> (cstr16 \<Rightarrow> string option) \<Rightarrow> string \<Rightarrow> cstr16 list \<Rightarrow> bool" where
  "files_fit rd bn pre files \<longleftrightarrow>
     list_all (\<lambda>f. case (bn f, rd f) of
                     (Some n, Some d) \<Rightarrow> length d < 2 ^ 32 \<and> length pre + length n + 2 < 2 ^ 32
                   | _ \<Rightarrow> False) files"

lemma pack_files_succeeds:
  assumes "archive c es" "length es + length files < 2 ^ 32 - 1" "files_fit rd bn pre files"
    and "slice (encode_entries (es @ file_entries rd bn (length es) pre m files))"
  shows "\<exists>c'. pack_files rd bn pre m files c = (Ok (), c')"
  using assms
proof (induction files arbitrary: c es)
  case (Cons f files)
  from Cons.prems(3) obtain n d where f: "bn f = Some n" "rd f = Some d"
    and fit: "length d < 2 ^ 32" "length pre + length n + 2 < 2 ^ 32" and rest: "files_fit rd bn pre files"
    by (auto simp: files_fit_def split: option.splits)
  let ?e = "(pack_one_entry (of_nat (length es) + 1) n d pre m, d)"
  obtain w c1 where p: "pack_one n d pre m c = (Ok w, c1)"
    using pack_one_succeeds [OF Cons.prems(1) _ _ fit] Cons.prems(2) archive_slice [OF Cons.prems(1,4)]
    by fastforce
  have "slice n" "slice pre" "slice d" "slice (pre @ ''/'' @ n)" using fit by simp_all
  from archive_pack_one(1) [OF Cons.prems(1) this p] have ar: "archive c1 (es @ [?e])" .
  have "slice (encode_entries ((es @ [?e]) @ file_entries rd bn (length (es @ [?e])) pre m files))"
    using Cons.prems(4) by (simp add: file_entries_Cons f)
  from Cons.IH [OF ar _ rest this] Cons.prems(2) show ?case
    by (simp add: f p)
qed simp

text \<open>The entries of the whole archive, trailer included.\<close>

definition cpio_entries ::
  "(cstr16 \<Rightarrow> bytes option) \<Rightarrow> (cstr16 \<Rightarrow> string option) \<Rightarrow> cstr16 list \<Rightarrow> string \<Rightarrow> u32 \<Rightarrow> u32 \<Rightarrow>
   (Entry \<times> bytes) list" where
  "cpio_entries rd bn files pre dir_mode access_mode =
     (let n = length (split_on CHR ''/'' pre)
      in prefix_entries 0 pre dir_mode @ file_entries rd bn n pre access_mode (sort files) @
         [(pack_one_entry (of_nat (n + length files) + 1) TRAILER_NAME [] [] 0, [])])"

lemma length_prefix_entries [simp]: "length (prefix_entries i pre m) = length (split_on CHR ''/'' pre)"
  by (simp add: prefix_entries_def Let_def Suc_diff_1 [OF length_greater_0_conv [THEN iffD2]])

lemma length_file_entries [simp]: "length (file_entries rd bn i pre m files) = length files"
  by (simp add: file_entries_def)

lemma slice_append [dest]: "slice (xs @ ys) \<Longrightarrow> slice xs \<and> slice ys"
  by simp

lemma files_fit_sort: "files_fit rd bn pre files \<Longrightarrow> files_fit rd bn pre (sort files)"
  by (simp add: files_fit_def list_all_iff)

lemma pack_cpio_ok:
  assumes "files_fit rd bn pre files" "file_sizes_ok rd bn pre"
    and "length (cpio_entries rd bn files pre dm am) < 2 ^ 32"
    and "slice (encode_entries (cpio_entries rd bn files pre dm am))"
    and "length (dir_path (split_on CHR ''/'' pre)) + 1 < 2 ^ 32"
  shows "\<exists>c. pack_cpio rd bn files pre dm am = Ok c \<and> archive c (cpio_entries rd bn files pre dm am)"
proof -
  let ?n = "length (split_on CHR ''/'' pre)"
  let ?ds = "prefix_entries 0 pre dm" and ?fs = "file_entries rd bn ?n pre am (sort files)"
  have len: "?n + length files < 2 ^ 32 - 1"
    using assms(3) by (simp add: cpio_entries_def Let_def)
  have sz: "slice (encode_entries (?ds @ ?fs))"
    using assms(4) by (simp add: cpio_entries_def Let_def)
  obtain c1 where p: "pack_prefix pre dm Cpio_new = (Ok (), c1)"
    using pack_prefix_succeeds [OF archive_new, of pre dm] len sz assms(5) by fastforce
  have "slice (dir_path (split_on CHR ''/'' pre))" using assms(5) by simp
  from archive_pack_prefix [OF archive_new this p] have ar1: "archive c1 ?ds" by simp
  obtain c2 where f: "pack_files rd bn pre am (sort files) c1 = (Ok (), c2)"
    using pack_files_succeeds [OF ar1 _ files_fit_sort [OF assms(1)]] len sz by fastforce
  from archive_pack_files [OF ar1 assms(2) f] have ar2: "archive c2 (?ds @ ?fs)" by simp
  obtain w c3 where t: "pack_trailer c2 = (Ok w, c3)"
    using pack_one_succeeds [OF ar2, of "[]" "[]" TRAILER_NAME 0] len archive_slice [OF ar2, of "[]"] sz
    by (fastforce simp: pack_trailer_def TRAILER_NAME_def)
  from archive_pack_trailer [OF ar2 t] show ?thesis
    by (simp add: pack_cpio_def Let_def p f t cpio_entries_def)
qed

text \<open>An archive that packing delivers always has these entries.\<close>

lemma pack_cpio_archive:
  assumes "pack_cpio rd bn files pre dm am = Ok c" "file_sizes_ok rd bn pre" "slice (dir_path (split_on CHR ''/'' pre))"
  shows "archive c (cpio_entries rd bn files pre dm am)"
proof -
  let ?n = "length (split_on CHR ''/'' pre)"
  obtain u c1 v c2 w where p: "pack_prefix pre dm Cpio_new = (Ok u, c1)"
    and f: "pack_files rd bn pre am (sort files) c1 = (Ok v, c2)" and t: "pack_trailer c2 = (Ok w, c)"
    using assms(1) unfolding pack_cpio_def Let_def by (auto split: prod.splits outcome.splits)
  from archive_pack_prefix [OF archive_new assms(3) p] have "archive c1 (prefix_entries 0 pre dm)" by simp
  from archive_pack_files [OF this assms(2) f]
  have "archive c2 (prefix_entries 0 pre dm @ file_entries rd bn ?n pre am (sort files))" by simp
  from archive_pack_trailer [OF this t] show ?thesis by (simp add: cpio_entries_def Let_def)
qed

lemma pack_cpio_aligned:
  "pack_cpio rd bn files pre dm am = Ok c \<Longrightarrow> file_sizes_ok rd bn pre \<Longrightarrow>
     slice (dir_path (split_on CHR ''/'' pre)) \<Longrightarrow> length (into_inner c) mod 4 = 0"
  using pack_cpio_archive encode_entries_aligned by (fastforce simp: archive_def into_inner_def)

lemma length_newc_entry_le: "length (newc_entry e d) \<le> 117 + length (entry_name e) + length d"
  using length_pad4_less [of "110 + length (entry_name e) + 1"] length_pad4_less [of "length d"]
  unfolding newc_entry_def length_append length_newc_header by linarith

lemma pack_cpio_reads_archive:
  assumes "archive c (cpio_entries rd bn files pre dm am)" "pre \<noteq> []"
  shows "read_archive (into_inner c) =
           prefix_entries 0 pre dm @
           file_entries rd bn (length (split_on CHR ''/'' pre)) pre am (sort files)"
  using assms prefix_entries_not_trailer file_entries_not_trailer [OF assms(2)]
  by (intro archive_read) (auto simp: cpio_entries_def Let_def)

text \<open>
  C8: \<open>pack_cpio\<close> succeeds whenever every file can be read, every size fits its 32 bit field and the
  archive fits in memory; the archive is aligned to four bytes and, read with a \<^emph>\<open>newc\<close> reader,
  consists of the directories of the target prefix (all but the last with mode 0555, the last
  with the requested mode) followed by one regular file per input path, sorted by path, each with
  the contents read and the name \<open>prefix/basename\<close>.
\<close>

theorem pack_cpio_reads_back:
  assumes "files_fit rd bn files_prefix files" "file_sizes_ok rd bn files_prefix" "files_prefix \<noteq> []"
    and "length (cpio_entries rd bn files files_prefix dir_mode access_mode) < 2 ^ 32"
    and "slice (encode_entries (cpio_entries rd bn files files_prefix dir_mode access_mode))"
    and "length (dir_path (split_on CHR ''/'' files_prefix)) + 1 < 2 ^ 32"
  shows "\<exists>cpio. pack_cpio rd bn files files_prefix dir_mode access_mode = Ok cpio \<and>
           read_archive (into_inner cpio) =
             prefix_entries 0 files_prefix dir_mode @
             file_entries rd bn (length (split_on CHR ''/'' files_prefix)) files_prefix access_mode
               (sort files) \<and>
           length (into_inner cpio) mod 4 = 0"
proof -
  obtain c where ok: "pack_cpio rd bn files files_prefix dir_mode access_mode = Ok c"
    and ar: "archive c (cpio_entries rd bn files files_prefix dir_mode access_mode)"
    using pack_cpio_ok [OF assms(1,2,4-6)] by blast
  have "length (into_inner c) mod 4 = 0"
    using ar encode_entries_aligned by (simp add: archive_def into_inner_def)
  with ok pack_cpio_reads_archive [OF ar assms(3)] show ?thesis by simp
qed

abbreviation sample_cpio :: "(Cpio, CPIOError) outcome" where
  "sample_cpio \<equiv>
     pack_cpio (\<lambda>f. Some ''secret'') (\<lambda>f. Some ''a.cred'') [[0x41]] ''.extra/credentials'' 0x140 0x100"

theorem pack_cpio_reads_back_witness:
  "\<exists>cpio. sample_cpio = Ok cpio \<and>
     read_archive (into_inner cpio) =
       prefix_entries 0 ''.extra/credentials'' 0x140 @
       file_entries (\<lambda>f. Some ''secret'') (\<lambda>f. Some ''a.cred'') (Suc (Suc 0)) ''.extra/credentials'' 0x100 [[0x41]] \<and>
     length (into_inner cpio) mod 4 = 0"
proof -
  have "files_fit (\<lambda>f. Some ''secret'') (\<lambda>f. Some ''a.cred'') ''.extra/credentials'' [[0x41]]"
    "file_sizes_ok (\<lambda>f. Some ''secret'') (\<lambda>f. Some ''a.cred'') ''.extra/credentials''"
    "''.extra/credentials'' \<noteq> []"
    "length (cpio_entries (\<lambda>f. Some ''secret'') (\<lambda>f. Some ''a.cred'') [[0x41]] ''.extra/credentials'' 0x140 0x100) < 2 ^ 32"
    "slice (encode_entries (cpio_entries (\<lambda>f. Some ''secret'') (\<lambda>f. Some ''a.cred'') [[0x41]]
       ''.extra/credentials'' 0x140 0x100))"
    "length (dir_path (split_on CHR ''/'' ''.extra/credentials'')) + 1 < 2 ^ 32"
    by (simp_all add: files_fit_def file_sizes_ok_def cpio_entries_def Let_def prefix_entries_def
        ancestor_entries_def file_entries_def encode_entries_def newc_entry_def length_newc_header
        length_pad4 pack_one_entry_def pack_dir_entry_def TRAILER_NAME_def)
  from pack_cpio_reads_back [OF this] show ?thesis by simp
qed

text \<open>
  C10: The archive does not depend on the order in which the files were discovered, so neither do
  the TPM measurements taken of it: any two orders of the same paths give the same outcome.
\<close>

theorem pack_cpio_order_independent:
  assumes "mset files = mset files'"
  shows "pack_cpio rd bn files pre dir_mode access_mode = pack_cpio rd bn files' pre dir_mode access_mode"
proof -
  have "sort files = sort files'"
    using assms by (metis mset_sort properties_for_sort sorted_sort)
  then show ?thesis by (simp add: pack_cpio_def)
qed

theorem pack_cpio_order_independent_witness:
  "pack_cpio (\<lambda>f. Some ''x'') (\<lambda>f. Some ''y.cred'') [[0x62], [0x61]] ''.extra'' 0x140 0x100 =
   pack_cpio (\<lambda>f. Some ''x'') (\<lambda>f. Some ''y.cred'') [[0x61], [0x62]] ''.extra'' 0x140 0x100"
  by (rule pack_cpio_order_independent) simp

subsection \<open>Every archive the writer can reach\<close>

text \<open>
  One step is one call of the writer's interface that does not panic, whatever its outcome.
\<close>

inductive cpio_step :: "Cpio \<Rightarrow> Cpio \<Rightarrow> bool" where
  step_one: "pack_one fname d pre m c = (r, c') \<Longrightarrow> r \<noteq> Panic \<Longrightarrow>
     slice fname \<Longrightarrow> slice pre \<Longrightarrow> slice d \<Longrightarrow> slice (pre @ ''/'' @ fname) \<Longrightarrow> cpio_step c c'"
| step_dir: "pack_dir path m c = (r, c') \<Longrightarrow> r \<noteq> Panic \<Longrightarrow> slice path \<Longrightarrow> cpio_step c c'"
| step_prefix: "pack_prefix path m c = (r, c') \<Longrightarrow> r \<noteq> Panic \<Longrightarrow>
     slice (dir_path (split_on CHR ''/'' path)) \<Longrightarrow> cpio_step c c'"
| step_trailer: "pack_trailer c = (r, c') \<Longrightarrow> r \<noteq> Panic \<Longrightarrow> cpio_step c c'"

lemma pack_one_Err: "pack_one fname d pre m c = (Err e, c') \<Longrightarrow> c' = c"
  by (auto simp: pack_one_def Let_def split: option.splits outcome.splits prod.splits)

lemma pack_dir_Err: "pack_dir path m c = (Err e, c') \<Longrightarrow> c' = c"
  by (auto simp: pack_dir_def Let_def split: option.splits outcome.splits prod.splits)

lemma pack_one_archive:
  assumes "archive c es" "pack_one fname d pre m c = (r, c')" "r \<noteq> Panic"
    and "slice fname" "slice pre" "slice d" "slice (pre @ ''/'' @ fname)"
  shows "\<exists>es'. archive c' es'"
  using assms archive_pack_one(1) [OF assms(1,4,5,6,7)] pack_one_Err by (cases r) blast+

lemma pack_dir_archive:
  "archive c es \<Longrightarrow> pack_dir path m c = (r, c') \<Longrightarrow> r \<noteq> Panic \<Longrightarrow> slice path \<Longrightarrow> \<exists>es'. archive c' es'"
  using archive_pack_dir pack_dir_Err by (cases r) blast+

lemma pack_ancestors_archive:
  assumes "archive c es" "pack_ancestors (dir_path pre) comps c = (r, c')" "r \<noteq> Panic"
    and "slice (dir_path (pre @ comps))"
  shows "(\<exists>es'. archive c' es') \<and> (\<forall>a. r = Ok a \<longrightarrow> a = dir_path (pre @ comps))"
  using assms
proof (induction comps arbitrary: pre c es)
  case (Cons x comps)
  let ?p = "dir_path (pre @ [x])"
  have p: "dir_path pre @ ''/'' @ x = ?p" by simp
  obtain r1 c1 where d: "pack_dir ?p 0x16D c = (r1, c1)" by (cases "pack_dir ?p 0x16D c")
  have np: "r1 \<noteq> Panic" and sl: "slice ?p"
    using Cons.prems d p by (auto simp: Let_def)
  obtain es1 where ar: "archive c1 es1"
    using pack_dir_archive [OF Cons.prems(1) d np sl] by blast
  show ?case
  proof (cases r1)
    case (Ok u)
    have "pack_ancestors ?p comps c1 = (r, c')"
      using Cons.prems(2) unfolding pack_ancestors.simps Let_def p d Ok by simp
    from Cons.IH [OF ar this Cons.prems(3)] Cons.prems(4) show ?thesis by simp
  next
    case (Err e)
    then show ?thesis
      using Cons.prems(2) ar unfolding pack_ancestors.simps Let_def p d by auto
  qed (use np in simp)
qed auto

lemma pack_prefix_archive:
  assumes "archive c es" "pack_prefix path m c = (r, c')" "r \<noteq> Panic"
    and "slice (dir_path (split_on CHR ''/'' path))"
  shows "\<exists>es'. archive c' es'"
proof -
  let ?comps = "split_on CHR ''/'' path"
  have tk: "take (length ?comps - 1) ?comps = butlast ?comps"
    by (simp add: butlast_conv_take)
  have dp: "slice (dir_path ([] @ butlast ?comps))"
    using dir_path_butlast_le [of "length ?comps - 1" ?comps] assms(4) unfolding tk by simp
  obtain r1 c1 where an: "pack_ancestors (dir_path []) (butlast ?comps) c = (r1, c1)"
    by (cases "pack_ancestors (dir_path []) (butlast ?comps) c")
  have r: "(case r1 of Ok a \<Rightarrow> pack_dir (a @ ''/'' @ last ?comps) m c1 | Err e \<Rightarrow> (Err e, c1)
            | Panic \<Rightarrow> (Panic, c1)) = (r, c')"
    using assms(2) an unfolding pack_prefix_def Let_def tk by (auto split: outcome.splits)
  then have np: "r1 \<noteq> Panic" using assms(3) by auto
  note A = pack_ancestors_archive [OF assms(1) an np dp]
  show ?thesis
  proof (cases r1)
    case (Ok a)
    have "dir_path (butlast ?comps) @ ''/'' @ last ?comps = dir_path ?comps"
      by (metis append_butlast_last_id dir_path_append dir_path_simps append_Nil2 append_Cons append_Nil split_on_nonempty)
    with A Ok r have "pack_dir (dir_path ?comps) m c1 = (r, c')" by simp
    with A pack_dir_archive assms(3,4) show ?thesis by blast
  next
    case (Err e)
    with A r show ?thesis by simp
  qed (use np in simp)
qed

lemma cpio_step_archive: "cpio_step c c' \<Longrightarrow> archive c es \<Longrightarrow> \<exists>es'. archive c' es'"
proof (induction rule: cpio_step.induct)
  case (step_trailer c r c')
  show ?case
    by (rule pack_one_archive [OF step_trailer(3) step_trailer(1) [unfolded pack_trailer_def] step_trailer(2)])
      (simp_all add: TRAILER_NAME_def)
qed (blast intro: pack_one_archive pack_dir_archive pack_prefix_archive)+

text \<open>
  C9: In every state the writer can reach, whatever mix of successful and refused calls led there,
  the buffer is a whole number of aligned \<^emph>\<open>newc\<close> entries: it is the encoding of some list of
  entries, its length is a multiple of four, the counter is the number of entries, and the inode
  numbers are exactly 1, 2, and so on (hence distinct).
\<close>

theorem cpio_reachable_aligned:
  assumes "cpio_step\<^sup>*\<^sup>* Cpio_new c"
  shows "length (buffer c) mod 4 = 0 \<and>
         (\<exists>es. buffer c = encode_entries es \<and> unat (inode_counter c) = length es \<and>
               map (\<lambda>ed. unat (ino (fst ed))) es = [1..<Suc (length es)])"
proof -
  have "\<exists>es. archive c es"
    using assms by (induction rule: rtranclp_induct) (blast intro: archive_new cpio_step_archive)+
  then show ?thesis
    using encode_entries_aligned by (fastforce simp: archive_def)
qed

theorem cpio_reachable_aligned_witness:
  "length (buffer (snd (pack_dir ''/a'' 0x140 Cpio_new))) mod 4 = 0"
proof -
  have sl: "slice ''/a''" by simp
  obtain c' where d: "pack_dir ''/a'' 0x140 Cpio_new = (Ok (), c')"
    using pack_dir_succeeds [OF archive_new, where path = "''/a''" and m = "0x140"]
    by (auto simp: Cpio_new_def)
  then have "cpio_step\<^sup>*\<^sup>* Cpio_new c'"
    by (intro r_into_rtranclp step_dir [OF d]) simp_all
  from cpio_reachable_aligned [OF this] d show ?thesis by simp
qed

subsection \<open>Limits\<close>

text \<open>
  C11: The alignment helper returns the least multiple of four that is not below its argument, for
  every argument that passes its overflow guard, including the one for which the intermediate
  \<open>value + A\<close> wraps around; above the guard it saturates.
\<close>

theorem align_least_multiple:
  "unat (align 4 v) =
     (if unat v \<le> 2 ^ 64 - 4 then 4 * ((unat v + 3) div 4) else 2 ^ 64 - 1)"
proof (cases "unat v \<le> 2 ^ 64 - 4")
  case True
  have "unat (align (2 ^ 2) v) = (unat v + 3) - (unat v + 3) mod 4"
    using True by (subst unat_align) simp_all
  with True show ?thesis by (simp add: minus_mod_eq_mult_div)
next
  case False
  then have "v > usize_MAX - (4 - 1)"
    by (simp add: word_less_nat_alt unat_sub unsigned_minus_1_eq_mask mask_eq_exp_minus_1)
  with False show ?thesis
    by (simp add: align_def unsigned_minus_1_eq_mask mask_eq_exp_minus_1)
qed

text \<open>
  C12: The name check of \<open>pack_one\<close> is two bytes too generous. A non-empty prefix and a file name of
  together \<open>u32::MAX - 1\<close> bytes pass every check although the stored name, with its separator and
  terminating NUL, does not fit the 32 bit name size: the writer panics instead of reporting
  \<open>MaximumArchiveReached\<close>.
\<close>

theorem pack_one_long_name_panics:
  assumes "length pre + length fname = 2 ^ 32 - 2" "pre \<noteq> []" "length contents < 2 ^ 32"
    and "inode_counter c \<noteq> - 1" "length (buffer c) < 2 ^ 63"
  shows "fst (pack_one fname contents pre m c) = Panic"
proof -
  have sl: "slice fname" "slice pre" "slice contents" "slice (pre @ ''/'' @ fname)"
    using assms by simp_all
  have "pack_one_checks c fname contents pre = None"
    using assms sl by (subst pack_one_checks_iff) auto
  moreover have "\<not> name_fits (pack_one_entry (inode_counter c + 1) fname contents pre m)"
    using assms by (simp add: name_fits_def pack_one_entry_def)
  ultimately show ?thesis
    by (simp add: pack_one_cases [OF sl] Let_def)
qed

theorem pack_one_long_name_panics_witness:
  "fst (pack_one (replicate (2 ^ 32 - 3) CHR ''f'') [] ''d'' 0 Cpio_new) = Panic"
proof -
  have "length ''d'' + length (replicate (2 ^ 32 - 3) CHR ''f'') = 2 ^ 32 - 2"
    by simp
  moreover have "inode_counter Cpio_new \<noteq> - 1" "length (buffer Cpio_new) < 2 ^ 63"
    by (simp_all add: Cpio_new_def)
  moreover have "''d'' \<noteq> []" "length ([] :: bytes) < 2 ^ 32" by simp_all
  ultimately show ?thesis by (intro pack_one_long_name_panics)
qed


end
