(* ===== verification/Uefi.thy ===== *)
theory Uefi
  imports Cpio_Pack
begin

text \<open>
  The machine the boot stub runs on (\<open>uefi/linux-bootloader\<close>, \<open>uefi/stub\<close>).

  The stub is a sequence of calls to the UEFI firmware. Firmware, the \<open>uefi\<close> and \<open>goblin\<close> packages,
  the hash function and the kernel are not part of the program: they are the fields of a
  \<open>firmware\<close> record, and every definition of the stub takes such a record. A firmware function
  receives the history of all calls made so far, so a reply may depend in any way on what
  happened before, and nothing is assumed about it unless a theorem says so.

  The state of a run is that history: a list of \<open>event\<close>s. A run ends with a value, with an error
  status, with a panic (the stub does not unwind), or by not returning from the kernel.
\<close>

subsection \<open>Status codes, protocols, handles\<close>

datatype status =
    SUCCESS | LOAD_ERROR | INVALID_PARAMETER | UNSUPPORTED | BAD_BUFFER_SIZE | BUFFER_TOO_SMALL
  | NOT_FOUND | VOLUME_CORRUPTED | INCOMPATIBLE_VERSION | SECURITY_VIOLATION | Other_status nat

datatype protocol = Tcg | LoadedImage | DevicePath | DevicePathToText | LoadFile2

type_synonym handle = nat
type_synonym addr = nat
type_synonym device_path = bytes
type_synonym guid = string

text \<open>The interfaces the stub installs: the device path bytes, and the initrd behind LoadFile2.\<close>

datatype interface = DevicePathInterface bytes | LoadFile2Interface bytes

subsection \<open>Data of other packages\<close>

record loaded_pe =
  pe_sections :: "section_table list"
  pe_entry :: u32
  base_relocation_table :: bool

record dir_entry =
  is_regular_file :: bool
  entry_file_name :: cstr16

datatype partition_signature = NoSignature | MbrSignature bytes | GuidSignature guid

record dp_node =
  node_device_type :: u8
  node_sub_type :: u8
  node_hard_drive :: "partition_signature option"

subsection \<open>Events\<close>

datatype event =
    GetHandle protocol
  | Open protocol handle bool
  | Close protocol handle
  | GetCapability
  | HashLogExtend u32 bytes bytes bool
  | GetVariable string guid
  | SetVariable string guid u32 bytes bool
  | OpenFs bool
  | CloseFs
  | ReadFile cstr16 "bytes option"
  | ReadDir cstr16
  | Metadata cstr16
  | TryExists cstr16
  | PackFiles "cstr16 list"
  | PathText device_path
  | AllocatePages usize
  | FreePages addr usize bool
  | Install handle interface bool
  | Uninstall handle interface bool
  | SetImage addr u64
  | SetLoadOptions "bytes option"
  | Start handle bytes usize

type_synonym history = "event list"

subsection \<open>Firmware and packages\<close>

record firmware =
  fw_handle_for :: "history \<Rightarrow> protocol \<Rightarrow> status + handle"
  fw_open :: "history \<Rightarrow> protocol \<Rightarrow> handle \<Rightarrow> status option"
  fw_tpm_present :: "history \<Rightarrow> status + bool"
  fw_event_inputs :: "u32 \<Rightarrow> bytes \<Rightarrow> status option"
  fw_hash_log_extend :: "history \<Rightarrow> u32 \<Rightarrow> bytes \<Rightarrow> bytes \<Rightarrow> status option"
  fw_get_variable :: "history \<Rightarrow> string \<Rightarrow> guid \<Rightarrow> nat \<Rightarrow> status + bytes"
  fw_set_variable :: "history \<Rightarrow> string \<Rightarrow> guid \<Rightarrow> u32 \<Rightarrow> bytes \<Rightarrow> status option"
  fw_image_handle :: handle
  fw_image_info :: "history \<Rightarrow> addr \<times> u64"
  fw_memory :: "addr \<Rightarrow> char"
  fw_file_path :: "history \<Rightarrow> device_path option"
  fw_device :: "history \<Rightarrow> handle option"
  fw_load_options :: "history \<Rightarrow> bytes option"
  fw_device_path_nodes :: "history \<Rightarrow> handle \<Rightarrow> dp_node list"
  fw_guid_to_string :: "guid \<Rightarrow> string"
  fw_path_to_text :: "history \<Rightarrow> device_path \<Rightarrow> status + cstr16"
  fw_path_to_string16 :: "history \<Rightarrow> device_path \<Rightarrow> cstr16 option"
  fw_vendor :: string
  fw_revision :: u32
  fw_uefi_revision_text :: string
  fw_open_fs :: "history \<Rightarrow> status option"
  fw_read :: "history \<Rightarrow> cstr16 \<Rightarrow> bytes option"
  fw_read_dir :: "history \<Rightarrow> cstr16 \<Rightarrow> (status + dir_entry) list option"
  fw_is_directory :: "history \<Rightarrow> cstr16 \<Rightarrow> bool option"
  fw_try_exists :: "history \<Rightarrow> cstr16 \<Rightarrow> bool option"
  fw_basename :: "cstr16 \<Rightarrow> string option"
  fw_allocate_pages :: "history \<Rightarrow> usize \<Rightarrow> status + addr"
  fw_free_pages :: "history \<Rightarrow> addr \<Rightarrow> usize \<Rightarrow> status option"
  fw_install :: "history \<Rightarrow> handle \<Rightarrow> interface \<Rightarrow> status option"
  fw_uninstall :: "history \<Rightarrow> handle \<Rightarrow> interface \<Rightarrow> status option"
  fw_kernel :: "history \<Rightarrow> handle \<Rightarrow> bytes \<Rightarrow> usize \<Rightarrow> status option"
  fw_init :: bool
  fw_parse_in_memory :: "bytes \<Rightarrow> loaded_pe option"
  fw_parse_file :: "bytes \<Rightarrow> loaded_pe option"
  fw_sha256 :: "bytes \<Rightarrow> bytes"
  fw_cstring16 :: "string \<Rightarrow> cstr16 option"
  fw_cstr16_bytes :: "cstr16 \<Rightarrow> bytes"
  fw_cstr16_text :: "cstr16 \<Rightarrow> string"
  fw_cstr16_is_ascii :: "cstr16 \<Rightarrow> bool"

subsection \<open>Runs\<close>

datatype 'a flow = Val 'a | Fail status | Panicked | Gone

type_synonym 'a uefi = "history \<Rightarrow> 'a flow \<times> history"

definition ret_u :: "'a \<Rightarrow> 'a uefi" where
  "ret_u a h = (Val a, h)"

definition fail_u :: "status \<Rightarrow> 'a uefi" where
  "fail_u s h = (Fail s, h)"

definition panic_u :: "'a uefi" where
  "panic_u h = (Panicked, h)"

definition bind_u :: "'a uefi \<Rightarrow> ('a \<Rightarrow> 'b uefi) \<Rightarrow> 'b uefi" where
  "bind_u m f h =
     (case m h of
        (Val a, h') \<Rightarrow> f a h'
      | (Fail s, h') \<Rightarrow> (Fail s, h')
      | (Panicked, h') \<Rightarrow> (Panicked, h')
      | (Gone, h') \<Rightarrow> (Gone, h'))"

text \<open>A result that the code inspects instead of propagating it with the question mark operator.\<close>

definition try_u :: "'a uefi \<Rightarrow> (status + 'a) uefi" where
  "try_u m h =
     (case m h of
        (Val a, h') \<Rightarrow> (Val (Inr a), h')
      | (Fail s, h') \<Rightarrow> (Val (Inl s), h')
      | (Panicked, h') \<Rightarrow> (Panicked, h')
      | (Gone, h') \<Rightarrow> (Gone, h'))"

definition expect_u :: "'a uefi \<Rightarrow> 'a uefi" where
  "expect_u m = bind_u (try_u m) (\<lambda>r. case r of Inl _ \<Rightarrow> panic_u | Inr a \<Rightarrow> ret_u a)"

text \<open>A guard is dropped when the block that owns it is left, be it early with an error.\<close>

definition finally_u :: "'a uefi \<Rightarrow> unit uefi \<Rightarrow> 'a uefi" where
  "finally_u m d =
     bind_u (try_u m) (\<lambda>r. bind_u d (\<lambda>_. case r of Inl s \<Rightarrow> fail_u s | Inr a \<Rightarrow> ret_u a))"

definition on_error_u :: "'a uefi \<Rightarrow> unit uefi \<Rightarrow> 'a uefi" where
  "on_error_u m d =
     bind_u (try_u m) (\<lambda>r. case r of Inl s \<Rightarrow> bind_u d (\<lambda>_. fail_u s) | Inr a \<Rightarrow> ret_u a)"

definition lift_u :: "('a, status) outcome \<Rightarrow> 'a uefi" where
  "lift_u r = (case r of Ok a \<Rightarrow> ret_u a | Err s \<Rightarrow> fail_u s | Panic \<Rightarrow> panic_u)"

text \<open>One call: the reply depends on the history, which then grows by the call.\<close>

definition call :: "(history \<Rightarrow> status + 'a) \<Rightarrow> (status + 'a \<Rightarrow> event) \<Rightarrow> 'a uefi" where
  "call reply ev h =
     (let r = reply h in (case r of Inl s \<Rightarrow> Fail s | Inr a \<Rightarrow> Val a, h @ [ev r]))"

definition look :: "(history \<Rightarrow> 'a) \<Rightarrow> 'a uefi" where
  "look f h = (Val (f h), h)"

definition emit :: "event \<Rightarrow> unit uefi" where
  "emit e h = (Val (), h @ [e])"

definition unit_reply :: "status option \<Rightarrow> status + unit" where
  "unit_reply r = (case r of None \<Rightarrow> Inr () | Some s \<Rightarrow> Inl s)"

definition succeeds :: "status + 'a \<Rightarrow> bool" where
  "succeeds r = (case r of Inl _ \<Rightarrow> False | Inr _ \<Rightarrow> True)"

subsection \<open>Calls\<close>

definition get_handle_for_protocol :: "firmware \<Rightarrow> protocol \<Rightarrow> handle uefi" where
  "get_handle_for_protocol F p = call (\<lambda>h. fw_handle_for F h p) (\<lambda>_. GetHandle p)"

definition open_protocol_exclusive :: "firmware \<Rightarrow> protocol \<Rightarrow> handle \<Rightarrow> unit uefi" where
  "open_protocol_exclusive F p d = call (\<lambda>h. unit_reply (fw_open F h p d)) (\<lambda>r. Open p d (succeeds r))"

definition close_protocol :: "protocol \<Rightarrow> handle \<Rightarrow> unit uefi" where
  "close_protocol p d = emit (Close p d)"

definition with_protocol :: "firmware \<Rightarrow> protocol \<Rightarrow> handle \<Rightarrow> 'a uefi \<Rightarrow> 'a uefi" where
  "with_protocol F p d m =
     bind_u (open_protocol_exclusive F p d) (\<lambda>_. finally_u m (close_protocol p d))"

definition get_variable :: "firmware \<Rightarrow> string \<Rightarrow> guid \<Rightarrow> nat \<Rightarrow> bytes uefi" where
  "get_variable F name vendor n = call (\<lambda>h. fw_get_variable F h name vendor n) (\<lambda>_. GetVariable name vendor)"

definition set_variable :: "firmware \<Rightarrow> string \<Rightarrow> guid \<Rightarrow> u32 \<Rightarrow> bytes \<Rightarrow> unit uefi" where
  "set_variable F name vendor attrs d =
     call (\<lambda>h. unit_reply (fw_set_variable F h name vendor attrs d))
       (\<lambda>r. SetVariable name vendor attrs d (succeeds r))"

text \<open>The file system the image was loaded from, held while the block runs.\<close>

definition open_file_system :: "firmware \<Rightarrow> unit uefi" where
  "open_file_system F = call (\<lambda>h. unit_reply (fw_open_fs F h)) (\<lambda>r. OpenFs (succeeds r))"

definition read_file :: "firmware \<Rightarrow> cstr16 \<Rightarrow> bytes uefi" where
  "read_file F p =
     bind_u (look (\<lambda>h. fw_read F h p)) (\<lambda>r.
     bind_u (emit (ReadFile p r)) (\<lambda>_.
       case r of None \<Rightarrow> panic_u | Some d \<Rightarrow> ret_u d))"

subsection \<open>UTF-16\<close>

fun utf8_scalars :: "bytes \<Rightarrow> nat list" where
  "utf8_scalars [] = []"
| "utf8_scalars (a # s) =
     (let n = of_char a; t = (\<lambda>k. (of_char (s ! k) :: nat) mod 0x40)
      in if n < 0x80 then n # utf8_scalars s
         else if n < 0xE0 then ((n mod 0x20) * 0x40 + t 0) # utf8_scalars (drop 1 s)
         else if n < 0xF0 then ((n mod 0x10) * 0x1000 + t 0 * 0x40 + t 1) # utf8_scalars (drop 2 s)
         else ((n mod 8) * 0x40000 + t 0 * 0x1000 + t 1 * 0x40 + t 2) # utf8_scalars (drop 3 s))"

definition utf16_units :: "nat \<Rightarrow> u16 list" where
  "utf16_units n =
     (if n < 0x10000 then [of_nat n]
      else [of_nat (0xD800 + (n - 0x10000) div 0x400), of_nat (0xDC00 + (n - 0x10000) mod 0x400)])"

definition encode_utf16 :: "string \<Rightarrow> u16 list" where
  "encode_utf16 s = concat (map utf16_units (utf8_scalars s))"

definition utf16_le :: "u16 list \<Rightarrow> bytes" where
  "utf16_le us = concat (map (\<lambda>u. le_bytes 2 (unat u)) us)"

text \<open>ASCII text becomes one unit per character, low byte first.\<close>

lemma utf8_scalars_ascii: "is_ascii s \<Longrightarrow> utf8_scalars s = map of_char s"
  by (induction s) (auto simp: is_ascii_def)

lemma utf16_le_ascii:
  assumes "is_ascii s"
  shows "utf16_le (encode_utf16 s) = concat (map (\<lambda>c. [c, char_of (0 :: nat)]) s)"
proof -
  have unit: "utf16_units (of_char c) = [of_nat (of_char c)]"
    "le_bytes 2 (unat (of_nat (of_char c) :: u16)) = [c, char_of (0 :: nat)]" if "c \<in> set s" for c
  proof -
    define n :: nat where "n = of_char c"
    then have n: "n = of_char c" "n < 128"
      using assms that by (simp_all add: is_ascii_def list_all_iff)
    then have "unat (of_nat n :: u16) = n" by (simp add: unat_of_nat)
    moreover have "char_of n = c" by (simp add: n)
    ultimately show "utf16_units (of_char c) = [of_nat (of_char c)]"
      "le_bytes 2 (unat (of_nat (of_char c) :: u16)) = [c, char_of (0 :: nat)]"
      using n(2) by (simp_all add: utf16_units_def numeral_2_eq_2 flip: n(1))
  qed
  have "concat (map (\<lambda>u. le_bytes 2 (unat u)) (concat (map utf16_units (map of_char t)))) =
      concat (map (\<lambda>c. [c, char_of (0 :: nat)]) t)" if "set t \<subseteq> set s" for t
    using that unit by (induction t) auto
  then show ?thesis
    using utf8_scalars_ascii [OF assms] by (auto simp: utf16_le_def encode_utf16_def)
qed

end
