(* ===== verification/Stub_Image.thy ===== *)
theory Stub_Image
  imports Uefi
begin

text \<open>
  The running stub as a PE image (\<open>linux-bootloader/src/uefi_helpers.rs\<close>) and the sections with a
  meaning in unified kernel images (\<open>linux-bootloader/src/unified_sections.rs\<close>).
\<close>

subsection \<open>Unified sections\<close>

datatype UnifiedSection =
    Linux | OsRel | CmdLine | Initrd | Ucode | Splash | Dtb | DtbAuto | Hwids | Uname | Sbat | PcrSig | PcrPkey

fun section_index :: "UnifiedSection \<Rightarrow> nat" where
  "section_index Linux = 0"
| "section_index OsRel = 1"
| "section_index CmdLine = 2"
| "section_index Initrd = 3"
| "section_index Ucode = 4"
| "section_index Splash = 5"
| "section_index Dtb = 6"
| "section_index DtbAuto = 7"
| "section_index Hwids = 8"
| "section_index Uname = 9"
| "section_index Sbat = 10"
| "section_index PcrSig = 11"
| "section_index PcrPkey = 12"

lemma section_index_inject: "section_index a = section_index b \<Longrightarrow> a = b"
  by (cases a; cases b; simp)

instantiation UnifiedSection :: linorder
begin

definition less_eq_UnifiedSection :: "UnifiedSection \<Rightarrow> UnifiedSection \<Rightarrow> bool" where
  "less_eq_UnifiedSection a b \<longleftrightarrow> section_index a \<le> section_index b"

definition less_UnifiedSection :: "UnifiedSection \<Rightarrow> UnifiedSection \<Rightarrow> bool" where
  "less_UnifiedSection a b \<longleftrightarrow> section_index a < section_index b"

instance
  by standard (auto simp: less_eq_UnifiedSection_def less_UnifiedSection_def section_index_inject)

end

definition section_try_from :: "string \<Rightarrow> (UnifiedSection, status) outcome" where
  "section_try_from v =
     (if v = ''.linux'' then Ok Linux
      else if v = ''.osrel'' then Ok OsRel
      else if v = ''.cmdline'' then Ok CmdLine
      else if v = ''.initrd'' then Ok Initrd
      else if v = ''.ucode'' then Ok Ucode
      else if v = ''.splash'' then Ok Splash
      else if v = ''.dtb'' then Ok Dtb
      else if v = ''.dtbauto'' then Ok DtbAuto
      else if v = ''.hwids'' then Ok Hwids
      else if v = ''.uname'' then Ok Uname
      else if v = ''.sbat'' then Ok Sbat
      else if v = ''.pcrsig'' then Ok PcrSig
      else if v = ''.pcrpkey'' then Ok PcrPkey
      else Err INVALID_PARAMETER)"

definition should_be_measured :: "UnifiedSection \<Rightarrow> bool" where
  "should_be_measured u \<longleftrightarrow> \<not> (case u of PcrSig \<Rightarrow> True | DtbAuto \<Rightarrow> True | _ \<Rightarrow> False)"

fun section_name :: "UnifiedSection \<Rightarrow> string" where
  "section_name Linux = ''.linux''"
| "section_name OsRel = ''.osrel''"
| "section_name CmdLine = ''.cmdline''"
| "section_name Initrd = ''.initrd''"
| "section_name Ucode = ''.ucode''"
| "section_name Splash = ''.splash''"
| "section_name Dtb = ''.dtb''"
| "section_name DtbAuto = ''.dtbauto''"
| "section_name Hwids = ''.hwids''"
| "section_name Uname = ''.uname''"
| "section_name Sbat = ''.sbat''"
| "section_name PcrSig = ''.pcrsig''"
| "section_name PcrPkey = ''.pcrpkey''"

lemma section_try_from_name [simp]: "section_try_from (section_name u) = Ok u"
  by (cases u) (simp_all add: section_try_from_def)

lemma section_try_from_Ok: "section_try_from v = Ok u \<longleftrightarrow> v = section_name u"
proof
  show "v = section_name u" if "section_try_from v = Ok u"
    using that by (auto simp: section_try_from_def split: if_splits)
qed simp

subsection \<open>The image in memory\<close>

record PeInMemory =
  image_device_path :: "device_path option"
  mem_base :: addr
  mem_size :: usize

definition as_slice :: "firmware \<Rightarrow> PeInMemory \<Rightarrow> bytes" where
  "as_slice F i = map (fw_memory F) [mem_base i ..< mem_base i + unat (mem_size i)]"

definition pe_file_path :: "PeInMemory \<Rightarrow> device_path option" where
  "pe_file_path i = image_device_path i"

definition booted_image_file :: "firmware \<Rightarrow> PeInMemory uefi" where
  "booted_image_file F =
     with_protocol F LoadedImage (fw_image_handle F)
       (bind_u (look (fw_image_info F)) (\<lambda>(base, sz).
        bind_u (look (fw_file_path F)) (\<lambda>dp.
          ret_u \<lparr>image_device_path = dp, mem_base = base, mem_size = sz\<rparr>)))"

record ParsedPe =
  pe_data :: bytes
  parsed :: loaded_pe

definition from_pe_in_memory :: "firmware \<Rightarrow> PeInMemory \<Rightarrow> (ParsedPe, status) outcome" where
  "from_pe_in_memory F i =
     (let d = as_slice F i
      in case fw_parse_in_memory F d of
           None \<Rightarrow> Err INVALID_PARAMETER
         | Some p \<Rightarrow> Ok \<lparr>pe_data = d, parsed = p\<rparr>)"

definition resize :: "nat \<Rightarrow> bytes \<Rightarrow> bytes" where
  "resize n d = take n d @ replicate (n - length d) (char_of (0 :: nat))"

definition read_data_from_section_table :: "bytes \<Rightarrow> section_table \<Rightarrow> (bytes option, status) outcome" where
  "read_data_from_section_table d s =
     (let start = unat (virtual_address s); stop = start + unat (min (virtual_size s) (size_of_raw_data s))
      in if length d < stop then Panic
         else Ok (Some (resize (unat (virtual_size s)) (take (stop - start) (drop start d)))))"

definition section_data :: "ParsedPe \<Rightarrow> string \<Rightarrow> (bytes option, status) outcome" where
  "section_data p name =
     (case find (\<lambda>s. sec_name s = Some name) (pe_sections (parsed p)) of
        None \<Rightarrow> Ok None
      | Some s \<Rightarrow> read_data_from_section_table (pe_data p) s)"

definition section_names :: "ParsedPe \<Rightarrow> string list" where
  "section_names p = List.map_filter sec_name (pe_sections (parsed p))"

subsection \<open>Reading sections back\<close>

lemma length_resize [simp]: "length (resize n d) = n"
  by (simp add: resize_def)

text \<open>Where a section of the table lies in the image, zero filled beyond its raw data.\<close>

definition section_at :: "bytes \<Rightarrow> section_table \<Rightarrow> bytes \<Rightarrow> bool" where
  "section_at d s c \<longleftrightarrow>
     length c = unat (virtual_size s) \<and>
     (\<forall>k < length c. c ! k =
        (if k < unat (size_of_raw_data s) then d ! (unat (virtual_address s) + k) else char_of (0 :: nat)))"

lemma unat_min_word: "unat (min a b) = min (unat a) (unat b)"
  by (simp add: min_def word_le_nat_alt)

lemma read_data_from_section_table_Ok:
  assumes "read_data_from_section_table d s = Ok r"
  shows "\<exists>c. r = Some c \<and> section_at d s c"
  using assms
  by (auto simp: read_data_from_section_table_def section_at_def resize_def Let_def unat_min_word nth_append
      split: if_splits)

lemma section_data_Err: "section_data p name \<noteq> Err e"
  by (auto simp: section_data_def read_data_from_section_table_def Let_def split: option.splits)

lemma section_data_name:
  assumes "section_data p name = Ok (Some c)"
  shows "\<exists>s \<in> set (pe_sections (parsed p)). sec_name s = Some name \<and> section_at (pe_data p) s c"
proof -
  obtain s where s: "find (\<lambda>s. sec_name s = Some name) (pe_sections (parsed p)) = Some s"
    and c: "read_data_from_section_table (pe_data p) s = Ok (Some c)"
    using assms by (auto simp: section_data_def split: option.splits)
  from s have "s \<in> set (pe_sections (parsed p))" "sec_name s = Some name"
    by (auto simp: find_Some_iff)
  moreover from c have "section_at (pe_data p) s c"
    using read_data_from_section_table_Ok by fastforce
  ultimately show ?thesis by blast
qed

lemma section_data_Panic:
  assumes "section_data p name = Panic"
  shows "\<exists>s \<in> set (pe_sections (parsed p)). sec_name s = Some name \<and>
    length (pe_data p) < unat (virtual_address s) + unat (min (virtual_size s) (size_of_raw_data s))"
proof -
  obtain s where "find (\<lambda>s. sec_name s = Some name) (pe_sections (parsed p)) = Some s"
    "read_data_from_section_table (pe_data p) s = Panic"
    using assms by (auto simp: section_data_def split: option.splits)
  then show ?thesis
    by (auto simp: find_Some_iff read_data_from_section_table_def Let_def split: if_splits)
qed

lemma section_data_None:
  assumes "section_data p name = Ok None"
  shows "name \<notin> set (section_names p)"
proof -
  have "find (\<lambda>s. sec_name s = Some name) (pe_sections (parsed p)) = None"
    using assms read_data_from_section_table_Ok by (fastforce simp: section_data_def split: option.splits)
  then show ?thesis by (auto simp: find_None_iff section_names_def map_filter_def)
qed

text \<open>
  C39: Reading a section of the running image has no error result, and each of its other results is well formed:
  no contents exactly for a name that no section has; contents of the virtual size of a section with that
  name, taken from its place in the image and zero beyond its raw data; and a panic only when the raw
  data of such a section reaches beyond the image.\<close>

theorem section_data_well_formed:
  "case section_data p name of
     Ok None \<Rightarrow> name \<notin> set (section_names p)
   | Ok (Some c) \<Rightarrow> (\<exists>s \<in> set (pe_sections (parsed p)). sec_name s = Some name \<and> section_at (pe_data p) s c)
   | Err _ \<Rightarrow> False
   | Panic \<Rightarrow> (\<exists>s \<in> set (pe_sections (parsed p)). sec_name s = Some name \<and>
       length (pe_data p) < unat (virtual_address s) + unat (min (virtual_size s) (size_of_raw_data s)))"
  using section_data_name section_data_Err section_data_Panic section_data_None
  by (fastforce split: outcome.splits option.splits)

end
