(* ===== verification/Companions.thy ===== *)
theory Companions
  imports Uefi
begin

text \<open>
  Companion files of the boot image (\<open>linux-bootloader/src/companions.rs\<close>): credentials and system
  extensions found in drop-in directories and packed into CPIO archives for the kernel.

  The reads that packing one archive makes are one event of the history, answered by the firmware
  as of that moment.
\<close>

definition cstr16 :: "string \<Rightarrow> cstr16" where
  "cstr16 s = map of_char s"

abbreviation BACKSLASH16 :: u16 where
  "BACKSLASH16 \<equiv> 92"

subsection \<open>Finding files\<close>

fun matching_files :: "firmware \<Rightarrow> cstr16 \<Rightarrow> string \<Rightarrow> (status + dir_entry) list \<Rightarrow> (cstr16 list, status) outcome" where
  "matching_files F search_path file_suffix [] = Ok []"
| "matching_files F search_path file_suffix (Inl s # es) = Err s"
| "matching_files F search_path file_suffix (Inr e # es) =
     and_then (matching_files F search_path file_suffix es) (\<lambda>results.
       if is_regular_file e \<and> fw_cstr16_is_ascii F (entry_file_name e) \<and>
          ends_with (fw_cstr16_text F (entry_file_name e)) file_suffix
       then Ok ((search_path @ [BACKSLASH16] @ entry_file_name e) # results)
       else Ok results)"

definition find_files :: "firmware \<Rightarrow> cstr16 \<Rightarrow> string \<Rightarrow> cstr16 list uefi" where
  "find_files F search_path file_suffix =
     bind_u (look (\<lambda>h. fw_read_dir F h search_path)) (\<lambda>r.
     bind_u (emit (ReadDir search_path)) (\<lambda>_.
       case r of
         None \<Rightarrow> panic_u
       | Some entries \<Rightarrow> lift_u (matching_files F search_path file_suffix entries)))"

definition is_directory_u :: "firmware \<Rightarrow> cstr16 \<Rightarrow> bool option uefi" where
  "is_directory_u F p =
     bind_u (look (\<lambda>h. fw_is_directory F h p)) (\<lambda>r. bind_u (emit (Metadata p)) (\<lambda>_. ret_u r))"

definition get_default_dropin_directory :: "firmware \<Rightarrow> device_path \<Rightarrow> cstr16 option uefi" where
  "get_default_dropin_directory F loaded_image_file_path =
     bind_u (look (\<lambda>h. fw_path_to_string16 F h loaded_image_file_path)) (\<lambda>t.
     bind_u (emit (PathText loaded_image_file_path)) (\<lambda>_.
       case t of
         None \<Rightarrow> fail_u NOT_FOUND
       | Some text \<Rightarrow>
           (let target_directory = text @ cstr16 ''.extra''
            in bind_u (is_directory_u F target_directory) (\<lambda>m.
                 ret_u (if m = Some True then Some target_directory else None)))))"

subsection \<open>Discovery\<close>

datatype CompanionInitrdType =
  Credentials | GlobalCredentials | SystemExtension | PcrSignature | PcrPublicKey

record CompanionInitrd =
  companion_type :: CompanionInitrdType
  companion_cpio :: Cpio

definition pack_companion ::
  "firmware \<Rightarrow> CompanionInitrdType \<Rightarrow> cstr16 list \<Rightarrow> string \<Rightarrow> u32 \<Rightarrow> u32 \<Rightarrow> CompanionInitrd list uefi" where
  "pack_companion F t files target_dir_prefix dir_mode access_mode =
     (if files = [] then ret_u []
      else bind_u (look (\<lambda>h. pack_cpio (fw_read F h) (fw_basename F) files target_dir_prefix dir_mode access_mode))
             (\<lambda>r. bind_u (emit (PackFiles files)) (\<lambda>_.
                bind_u (lift_u (map_err (\<lambda>_. LOAD_ERROR) r)) (\<lambda>c.
                  ret_u [\<lparr>companion_type = t, companion_cpio = c\<rparr>]))))"

definition global_dropin_dir :: cstr16 where
  "global_dropin_dir = BACKSLASH16 # cstr16 ''loader'' @ BACKSLASH16 # cstr16 ''credentials''"

definition global_credentials :: "firmware \<Rightarrow> CompanionInitrd list uefi" where
  "global_credentials F =
     bind_u (look (\<lambda>h. fw_try_exists F h global_dropin_dir)) (\<lambda>ex.
     bind_u (emit (TryExists global_dropin_dir)) (\<lambda>_.
       case ex of
         None \<Rightarrow> panic_u
       | Some False \<Rightarrow> ret_u []
       | Some True \<Rightarrow>
           bind_u (is_directory_u F global_dropin_dir) (\<lambda>m.
             case m of
               None \<Rightarrow> fail_u VOLUME_CORRUPTED
             | Some False \<Rightarrow> ret_u []
             | Some True \<Rightarrow>
                 bind_u (find_files F global_dropin_dir ''.cred'') (\<lambda>files.
                   pack_companion F GlobalCredentials files ''.extra/global_credentials'' 0x140 0x100))))"

definition discover_credentials :: "firmware \<Rightarrow> cstr16 option \<Rightarrow> CompanionInitrd list uefi" where
  "discover_credentials F default_dropin_dir =
     bind_u (global_credentials F) (\<lambda>companions.
       case default_dropin_dir of
         None \<Rightarrow> ret_u companions
       | Some d \<Rightarrow>
           bind_u (find_files F d ''.cred'') (\<lambda>files.
           bind_u (pack_companion F Credentials files ''.extra/credentials'' 0x140 0x100) (\<lambda>local.
             ret_u (companions @ local))))"

definition discover_system_extensions :: "firmware \<Rightarrow> cstr16 \<Rightarrow> CompanionInitrd list uefi" where
  "discover_system_extensions F default_dropin_dir =
     bind_u (find_files F default_dropin_dir ''.raw'') (\<lambda>sysexts.
       pack_companion F SystemExtension sysexts ''.extra/sysext'' 0x16D 0x124)"

end
