(* ===== verification/Measure.thy ===== *)
theory Measure
  imports Stub_Image Companions
begin

text \<open>
  Measurements into the TPM (\<open>linux-bootloader/src/tpm.rs\<close>, \<open>linux-bootloader/src/measure.rs\<close>): the
  TPM protocol, the sections of the unified kernel image into PCR 11, custom command lines into
  PCR 4, credentials into PCR 12 and system extensions into PCR 13.
\<close>

subsection \<open>The TPM\<close>

definition get_capability :: "firmware \<Rightarrow> bool uefi" where
  "get_capability F = call (fw_tpm_present F) (\<lambda>_. GetCapability)"

definition open_capable_tpm2 :: "firmware \<Rightarrow> handle uefi" where
  "open_capable_tpm2 F =
     bind_u (get_handle_for_protocol F Tcg) (\<lambda>tpm_handle.
     bind_u (open_protocol_exclusive F Tcg tpm_handle) (\<lambda>_.
       on_error_u
         (bind_u (get_capability F) (\<lambda>tpm_present.
            if \<not> tpm_present then fail_u UNSUPPORTED else ret_u tpm_handle))
         (close_protocol Tcg tpm_handle)))"

definition tpm_available :: "firmware \<Rightarrow> bool uefi" where
  "tpm_available F =
     bind_u (try_u (open_capable_tpm2 F)) (\<lambda>r.
       case r of
         Inl _ \<Rightarrow> ret_u False
       | Inr d \<Rightarrow> bind_u (close_protocol Tcg d) (\<lambda>_. ret_u True))"

definition hash_log_extend_event :: "firmware \<Rightarrow> u32 \<Rightarrow> bytes \<Rightarrow> bytes \<Rightarrow> unit uefi" where
  "hash_log_extend_event F pcr buf desc =
     call (\<lambda>h. unit_reply (fw_hash_log_extend F h pcr buf desc)) (\<lambda>r. HashLogExtend pcr buf desc (succeeds r))"

definition tpm_log_event_ascii :: "firmware \<Rightarrow> u32 \<Rightarrow> bytes \<Rightarrow> string \<Rightarrow> unit uefi" where
  "tpm_log_event_ascii F pcr_index buf description =
     (if pcr_index = u32_MAX then fail_u UNSUPPORTED
      else bind_u (try_u (open_capable_tpm2 F)) (\<lambda>r.
             case r of
               Inl _ \<Rightarrow> ret_u ()
             | Inr d \<Rightarrow>
                 finally_u
                   (let description_encoded = utf16_le (encode_utf16 description)
                    in bind_u (case fw_event_inputs F pcr_index description_encoded of
                                 None \<Rightarrow> ret_u ()
                               | Some s \<Rightarrow> fail_u s) (\<lambda>_.
                         hash_log_extend_event F pcr_index buf description_encoded))
                   (close_protocol Tcg d)))"

subsection \<open>Registers and variables\<close>

definition TPM_PCR_INDEX_BOOT_LOADER :: u32 where
  "TPM_PCR_INDEX_BOOT_LOADER = 4"

definition TPM_PCR_INDEX_KERNEL_IMAGE :: u32 where
  "TPM_PCR_INDEX_KERNEL_IMAGE = 11"

definition TPM_PCR_INDEX_KERNEL_CONFIG :: u32 where
  "TPM_PCR_INDEX_KERNEL_CONFIG = 12"

definition TPM_PCR_INDEX_SYSEXTS :: u32 where
  "TPM_PCR_INDEX_SYSEXTS = 13"

definition BOOT_LOADER_VENDOR_UUID :: guid where
  "BOOT_LOADER_VENDOR_UUID = ''4a67b082-0a4c-41cf-b6c7-440b29bb8c4f''"

text \<open>\<open>BOOTSERVICE_ACCESS | RUNTIME_ACCESS\<close>\<close>

definition default_attributes :: u32 where
  "default_attributes = 6"

definition measure_boot_loader :: "firmware \<Rightarrow> bytes \<Rightarrow> string \<Rightarrow> unit uefi" where
  "measure_boot_loader F buf description = tpm_log_event_ascii F TPM_PCR_INDEX_BOOT_LOADER buf description"

subsection \<open>The image\<close>

definition sections_to_measure :: "ParsedPe \<Rightarrow> UnifiedSection list" where
  "sections_to_measure p =
     sort (filter should_be_measured
       (List.map_filter (\<lambda>n. case section_try_from n of Ok u \<Rightarrow> Some u | _ \<Rightarrow> None) (section_names p)))"

text \<open>One measurement, and the counter that is raised when it succeeded.\<close>

definition counted :: "unit uefi \<Rightarrow> u32 \<Rightarrow> u32 uefi" where
  "counted m n = bind_u (try_u m) (\<lambda>r. ret_u (if succeeds r then n + 1 else n))"

definition measured_data :: "UnifiedSection \<Rightarrow> bytes \<Rightarrow> bytes \<Rightarrow> bytes option \<Rightarrow> bytes option" where
  "measured_data u kernel_data initrd_data sdata =
     (case u of Linux \<Rightarrow> Some kernel_data | Initrd \<Rightarrow> Some initrd_data | _ \<Rightarrow> sdata)"

fun measure_sections ::
  "firmware \<Rightarrow> ParsedPe \<Rightarrow> bytes \<Rightarrow> bytes \<Rightarrow> UnifiedSection list \<Rightarrow> u32 \<Rightarrow> u32 uefi" where
  "measure_sections F p kernel_data initrd_data [] n = ret_u n"
| "measure_sections F p kernel_data initrd_data (u # us) n =
     bind_u (lift_u (section_data p (section_name u))) (\<lambda>sdata.
       case measured_data u kernel_data initrd_data sdata of
         None \<Rightarrow> measure_sections F p kernel_data initrd_data us n
       | Some d \<Rightarrow>
           bind_u (counted (tpm_log_event_ascii F TPM_PCR_INDEX_KERNEL_IMAGE
                     (section_name u @ [char_of (0 :: nat)]) (section_name u)) n) (\<lambda>n.
           bind_u (counted (tpm_log_event_ascii F TPM_PCR_INDEX_KERNEL_IMAGE d (section_name u)) n) (\<lambda>n.
             measure_sections F p kernel_data initrd_data us n)))"

definition measure_image :: "firmware \<Rightarrow> PeInMemory \<Rightarrow> bytes \<Rightarrow> bytes \<Rightarrow> u32 uefi" where
  "measure_image F i kernel_data initrd_data =
     bind_u (lift_u (from_pe_in_memory F i)) (\<lambda>p.
     bind_u (measure_sections F p kernel_data initrd_data (sections_to_measure p) 0) (\<lambda>measurements.
     bind_u (if 0 < measurements
             then set_variable F ''StubPcrKernelImage'' BOOT_LOADER_VENDOR_UUID default_attributes
                    (utf16_le (encode_utf16 (dec (unat TPM_PCR_INDEX_KERNEL_IMAGE))))
             else ret_u ()) (\<lambda>_.
       ret_u measurements)))"

subsection \<open>Companions\<close>

text \<open>The register a companion is measured into and the event description.\<close>

fun companion_measurement :: "CompanionInitrdType \<Rightarrow> (u32 \<times> string) option" where
  "companion_measurement PcrSignature = None"
| "companion_measurement PcrPublicKey = None"
| "companion_measurement Credentials = Some (TPM_PCR_INDEX_KERNEL_CONFIG, ''Credentials initrd'')"
| "companion_measurement GlobalCredentials = Some (TPM_PCR_INDEX_KERNEL_CONFIG, ''Global credentials initrd'')"
| "companion_measurement SystemExtension = Some (TPM_PCR_INDEX_SYSEXTS, ''System extension initrd'')"

record companion_counts =
  cc_measurements :: u32
  cc_credentials :: u32
  cc_sysext :: bool

fun measure_companions :: "firmware \<Rightarrow> CompanionInitrd list \<Rightarrow> companion_counts \<Rightarrow> companion_counts uefi" where
  "measure_companions F [] c = ret_u c"
| "measure_companions F (x # xs) c =
     (case companion_measurement (companion_type x) of
        None \<Rightarrow> measure_companions F xs c
      | Some (pcr, description) \<Rightarrow>
          bind_u (try_u (tpm_log_event_ascii F pcr (into_inner (companion_cpio x)) description)) (\<lambda>r.
            measure_companions F xs
              (if \<not> succeeds r then c
               else if companion_type x = SystemExtension
               then c\<lparr>cc_measurements := cc_measurements c + 1, cc_sysext := True\<rparr>
               else c\<lparr>cc_measurements := cc_measurements c + 1, cc_credentials := cc_credentials c + 1\<rparr>)))"

definition measure_companion_initrds :: "firmware \<Rightarrow> CompanionInitrd list \<Rightarrow> u32 uefi" where
  "measure_companion_initrds F companions =
     bind_u (measure_companions F companions \<lparr>cc_measurements = 0, cc_credentials = 0, cc_sysext = False\<rparr>) (\<lambda>c.
     bind_u (if 0 < cc_credentials c
             then set_variable F ''StubPcrKernelParameters'' BOOT_LOADER_VENDOR_UUID default_attributes
                    (le_bytes 4 (unat TPM_PCR_INDEX_KERNEL_CONFIG))
             else ret_u ()) (\<lambda>_.
     bind_u (if cc_sysext c
             then set_variable F ''StubPcrInitRDSysExts'' BOOT_LOADER_VENDOR_UUID default_attributes
                    (le_bytes 4 (unat TPM_PCR_INDEX_SYSEXTS))
             else ret_u ()) (\<lambda>_.
       ret_u (cc_measurements c))))"

end
