(* ===== verification/Efi_Vars.thy ===== *)
theory Efi_Vars
  imports Measure
begin

unbundle bit_operations_syntax

text \<open>
  The EFI variables of the boot loader interface (\<open>linux-bootloader/src/efivars.rs\<close>): reading the
  features of the boot loader, and exporting what systemd-stub exports.
\<close>

subsection \<open>The partition of the image\<close>

fun find_part_uuid :: "dp_node list \<Rightarrow> (guid, status) outcome" where
  "find_part_uuid [] = Err UNSUPPORTED"
| "find_part_uuid (n # ns) =
     (if node_device_type n \<noteq> 4 \<or> node_sub_type n \<noteq> 1 then find_part_uuid ns
      else case node_hard_drive n of
             Some (GuidSignature g) \<Rightarrow> Ok g
           | _ \<Rightarrow> find_part_uuid ns)"

definition disk_get_part_uuid :: "firmware \<Rightarrow> handle \<Rightarrow> guid uefi" where
  "disk_get_part_uuid F disk_handle =
     with_protocol F DevicePath disk_handle
       (bind_u (look (\<lambda>h. fw_device_path_nodes F h disk_handle)) (\<lambda>ns. lift_u (find_part_uuid ns)))"

subsection \<open>Features\<close>

type_synonym EfiLoaderFeatures = u64
type_synonym EfiStubFeatures = u64

definition loader_features_all :: EfiLoaderFeatures where
  "loader_features_all = mask 11"

definition RandomSeed :: EfiLoaderFeatures where
  "RandomSeed = push_bit 6 1"

definition ReportBootPartition :: EfiStubFeatures where
  "ReportBootPartition = push_bit 0 1"

definition features_from_bits :: "u64 \<Rightarrow> EfiLoaderFeatures option" where
  "features_from_bits w = (if w AND NOT loader_features_all = 0 then Some w else None)"

definition features_contain :: "EfiLoaderFeatures \<Rightarrow> EfiLoaderFeatures \<Rightarrow> bool" where
  "features_contain fs f \<longleftrightarrow> fs AND f = f"

definition get_loader_features :: "firmware \<Rightarrow> EfiLoaderFeatures uefi" where
  "get_loader_features F =
     bind_u (try_u (get_variable F ''LoaderFeatures'' BOOT_LOADER_VENDOR_UUID 8)) (\<lambda>r.
       case r of
         Inr d \<Rightarrow>
           if length d \<noteq> 8 then fail_u BAD_BUFFER_SIZE
           else lift_u (ok_or INCOMPATIBLE_VERSION (features_from_bits (of_nat (of_le_bytes d))))
       | Inl s \<Rightarrow>
           if s = BUFFER_TOO_SMALL then fail_u BAD_BUFFER_SIZE else ret_u 0)"

subsection \<open>Variables\<close>

definition from_u16 :: "u16 list \<Rightarrow> bytes" where
  "from_u16 us = utf16_le us"

definition cstr16_to_bytes :: "cstr16 \<Rightarrow> bytes" where
  "cstr16_to_bytes s = from_u16 (s @ [0])"

definition variable_exists :: "firmware \<Rightarrow> string \<Rightarrow> guid \<Rightarrow> bool uefi" where
  "variable_exists F name vendor =
     bind_u (try_u (get_variable F name vendor 1)) (\<lambda>r.
       case r of
         Inr _ \<Rightarrow> ret_u True
       | Inl s \<Rightarrow>
           (case s of
              BUFFER_TOO_SMALL \<Rightarrow> ret_u True
            | NOT_FOUND \<Rightarrow> ret_u False
            | _ \<Rightarrow> fail_u s))"

definition ensure_efi_variable :: "firmware \<Rightarrow> string \<Rightarrow> guid \<Rightarrow> u32 \<Rightarrow> bytes uefi \<Rightarrow> unit uefi" where
  "ensure_efi_variable F name vendor attributes get_fallback_value =
     bind_u (try_u (variable_exists F name vendor)) (\<lambda>r.
       if r \<noteq> Inr True
       then bind_u get_fallback_value (\<lambda>d. set_variable F name vendor attributes d)
       else ret_u ())"

subsection \<open>Exported values\<close>

definition part_uuid_value :: "firmware \<Rightarrow> bytes uefi" where
  "part_uuid_value F =
     bind_u (look (fw_device F)) (\<lambda>dev.
       case dev of
         None \<Rightarrow> fail_u NOT_FOUND
       | Some d \<Rightarrow>
           bind_u (disk_get_part_uuid F d) (\<lambda>g. ret_u (utf16_le (encode_utf16 (fw_guid_to_string F g)))))"

definition image_identifier_value :: "firmware \<Rightarrow> bytes uefi" where
  "image_identifier_value F =
     bind_u (look (fw_file_path F)) (\<lambda>dp.
       case dp of
         None \<Rightarrow> fail_u UNSUPPORTED
       | Some p \<Rightarrow>
           bind_u (get_handle_for_protocol F DevicePathToText) (\<lambda>d.
             with_protocol F DevicePathToText d
               (bind_u (call (\<lambda>h. fw_path_to_text F h p) (\<lambda>_. PathText p)) (\<lambda>t.
                  ret_u (cstr16_to_bytes t)))))"

definition firmware_info_value :: "firmware \<Rightarrow> bytes" where
  "firmware_info_value F =
     utf16_le (encode_utf16 (fw_vendor F @ '' '' @ dec (unat (drop_bit 16 (fw_revision F))) @ ''.'' @
       pad_zero 2 (dec (unat (fw_revision F AND 0xFFFFF)))))"

definition firmware_type_value :: "firmware \<Rightarrow> bytes" where
  "firmware_type_value F = utf16_le (encode_utf16 (''UEFI '' @ fw_uefi_revision_text F))"

definition ignore_u :: "'a uefi \<Rightarrow> unit uefi" where
  "ignore_u m = bind_u (try_u m) (\<lambda>_. ret_u ())"

abbreviation ensure_loader_variable :: "firmware \<Rightarrow> string \<Rightarrow> bytes uefi \<Rightarrow> unit uefi" where
  "ensure_loader_variable F name v \<equiv>
     ignore_u (ensure_efi_variable F name BOOT_LOADER_VENDOR_UUID default_attributes v)"

abbreviation set_stub_variable :: "firmware \<Rightarrow> string \<Rightarrow> bytes \<Rightarrow> unit uefi" where
  "set_stub_variable F name d \<equiv>
     ignore_u (set_variable F name BOOT_LOADER_VENDOR_UUID default_attributes d)"

definition export_efi_variables :: "firmware \<Rightarrow> string \<Rightarrow> unit uefi" where
  "export_efi_variables F stub_info_name =
     with_protocol F LoadedImage (fw_image_handle F)
       (bind_u (ensure_loader_variable F ''LoaderDevicePartUUID'' (part_uuid_value F)) (\<lambda>_.
        bind_u (ensure_loader_variable F ''LoaderImageIdentifier'' (image_identifier_value F)) (\<lambda>_.
        bind_u (ensure_loader_variable F ''LoaderFirmwareInfo'' (ret_u (firmware_info_value F))) (\<lambda>_.
        bind_u (ensure_loader_variable F ''LoaderFirmwareType'' (ret_u (firmware_type_value F))) (\<lambda>_.
        bind_u (set_stub_variable F ''StubInfo'' (utf16_le (encode_utf16 stub_info_name))) (\<lambda>_.
          set_stub_variable F ''StubFeatures'' (le_bytes 8 (unat ReportBootPartition))))))))"

end
