(* ===== verification/Pe_Loader.thy ===== *)
theory Pe_Loader
  imports Stub_Image
begin

unbundle bit_operations_syntax

text \<open>
  Loading and starting the kernel (\<open>linux-bootloader/src/pe_loader.rs\<close>). The flush of the instruction
  cache has no effect on the data the model speaks about.
\<close>

subsection \<open>Pages\<close>

definition checked_add :: "'a :: len word \<Rightarrow> 'a word \<Rightarrow> 'a word option" where
  "checked_add a b = (if a + b < a then None else Some (a + b))"

definition UEFI_PAGE_BITS :: nat where
  "UEFI_PAGE_BITS = 12"

definition UEFI_PAGE_MASK :: usize where
  "UEFI_PAGE_MASK = push_bit UEFI_PAGE_BITS 1 - 1"

definition bytes_to_pages :: "usize \<Rightarrow> usize" where
  "bytes_to_pages bytes =
     (case checked_add bytes UEFI_PAGE_MASK of
        Some rounded_up \<Rightarrow> drop_bit UEFI_PAGE_BITS rounded_up
      | None \<Rightarrow> push_bit (64 - UEFI_PAGE_BITS) 1)"

subsection \<open>Loading\<close>

record Image =
  img_base :: addr
  img_bytes :: bytes
  img_entry :: usize

definition section_lengths :: "section_table list \<Rightarrow> (u32 list, status) outcome" where
  "section_lengths ss =
     collect_ok (\<lambda>s. ok_or LOAD_ERROR (checked_add (virtual_address s) (virtual_size s))) ss"

definition image_length :: "u32 list \<Rightarrow> usize" where
  "image_length lens = ucast (foldr max lens 0)"

definition allocate_pages :: "firmware \<Rightarrow> usize \<Rightarrow> addr uefi" where
  "allocate_pages F n = call (\<lambda>h. fw_allocate_pages F h n) (\<lambda>_. AllocatePages n)"

definition overwrite :: "nat \<Rightarrow> bytes \<Rightarrow> bytes \<Rightarrow> bytes" where
  "overwrite n d img = take n img @ d @ drop (n + length d) img"

definition copy_section :: "bytes \<Rightarrow> section_table \<Rightarrow> bytes \<Rightarrow> (bytes, status) outcome" where
  "copy_section file_data s img =
     (let copy_size = ucast (min (virtual_size s) (size_of_raw_data s)) :: usize;
          raw_start = ucast (pointer_to_raw_data s) :: usize;
          virt_start = ucast (virtual_address s) :: usize
      in and_then (ok_or LOAD_ERROR (checked_add raw_start copy_size)) (\<lambda>raw_end.
         and_then (ok_or LOAD_ERROR (checked_add virt_start copy_size)) (\<lambda>virt_end.
           if length img < unat virt_end \<or> length file_data < unat raw_end then Err LOAD_ERROR
           else Ok (overwrite (unat virt_start)
                  (take (unat raw_end - unat raw_start) (drop (unat raw_start) file_data)) img))))"

fun populate :: "bytes \<Rightarrow> section_table list \<Rightarrow> bytes \<Rightarrow> (bytes, status) outcome" where
  "populate file_data [] img = Ok img"
| "populate file_data (s # ss) img =
     and_then (copy_section file_data s img) (\<lambda>img. populate file_data ss img)"

definition load :: "firmware \<Rightarrow> bytes \<Rightarrow> Image uefi" where
  "load F file_data =
     bind_u (lift_u (ok_or LOAD_ERROR (fw_parse_file F file_data))) (\<lambda>pe.
     bind_u (lift_u (section_lengths (pe_sections pe))) (\<lambda>lens.
       let n = image_length lens
       in bind_u (allocate_pages F (bytes_to_pages n)) (\<lambda>base.
          bind_u (lift_u (populate file_data (pe_sections pe) (replicate (unat n) (char_of (0 :: nat))))) (\<lambda>img.
            if base_relocation_table pe then fail_u INCOMPATIBLE_VERSION
            else if length img \<le> unat (pe_entry pe) then fail_u LOAD_ERROR
            else ret_u \<lparr>img_base = base, img_bytes = img, img_entry = ucast (pe_entry pe)\<rparr>))))"

subsection \<open>Starting\<close>

definition run_kernel :: "firmware \<Rightarrow> handle \<Rightarrow> Image \<Rightarrow> status uefi" where
  "run_kernel F d i h =
     (case fw_kernel F h d (img_bytes i) (img_entry i) of
        None \<Rightarrow> (Gone, h @ [Start d (img_bytes i) (img_entry i)])
      | Some s \<Rightarrow> (Val s, h @ [Start d (img_bytes i) (img_entry i)]))"

definition set_load_options :: "bytes option \<Rightarrow> unit uefi" where
  "set_load_options os =
     (case os of
        Some d \<Rightarrow> if 2 ^ 32 \<le> int (length d) then panic_u else emit (SetLoadOptions (Some d))
      | None \<Rightarrow> emit (SetLoadOptions None))"

definition free_pages :: "firmware \<Rightarrow> addr \<Rightarrow> usize \<Rightarrow> unit uefi" where
  "free_pages F base n = call (\<lambda>h. unit_reply (fw_free_pages F h base n)) (\<lambda>r. FreePages base n (succeeds r))"

text \<open>The kernel returned: its memory is freed and our own image handle restored.\<close>

definition restore_image :: "firmware \<Rightarrow> Image \<Rightarrow> addr \<Rightarrow> u64 \<Rightarrow> bytes option \<Rightarrow> unit uefi" where
  "restore_image F i our_data our_size our_load_options =
     bind_u (expect_u (free_pages F (img_base i) (bytes_to_pages (of_nat (length (img_bytes i)))))) (\<lambda>_.
     bind_u (emit (SetImage our_data our_size)) (\<lambda>_.
       set_load_options our_load_options))"

text \<open>What happens while the loaded image protocol is held.\<close>

definition start_held :: "firmware \<Rightarrow> Image \<Rightarrow> handle \<Rightarrow> bytes \<Rightarrow> status uefi" where
  "start_held F i d load_options =
     bind_u (look (\<lambda>h. (fw_image_info F h, fw_load_options F h))) (\<lambda>((our_data, our_size), our_load_options).
     bind_u (emit (SetImage (img_base i) (of_nat (length (img_bytes i))))) (\<lambda>_.
     bind_u (set_load_options (Some load_options)) (\<lambda>_.
     bind_u (run_kernel F d i) (\<lambda>status.
     bind_u (restore_image F i our_data our_size our_load_options) (\<lambda>_.
       ret_u status)))))"

definition start :: "firmware \<Rightarrow> Image \<Rightarrow> handle \<Rightarrow> bytes \<Rightarrow> status uefi" where
  "start F i d load_options =
     bind_u (expect_u (open_protocol_exclusive F LoadedImage d)) (\<lambda>_.
       finally_u (start_held F i d load_options) (close_protocol LoadedImage d))"

end
