(* ===== verification/Linux_Loader.thy ===== *)
theory Linux_Loader
  imports Uefi
begin

text \<open>
  Handing the initrd to the kernel (\<open>linux-bootloader/src/linux_loader.rs\<close>): the LoadFile2 protocol the
  kernel calls back, and the loader that installs and uninstalls the protocols.
\<close>

subsection \<open>The device path\<close>

definition DEVICE_PATH_PROTOCOL :: bytes where
  "DEVICE_PATH_PROTOCOL = map char_of
     [0x04, 0x03, 0x14, 0x00, 0x27, 0xe4, 0x68, 0x55, 0xfc, 0x68, 0x3d, 0x4f, 0xac, 0x74, 0xca, 0x55,
      0x52, 0x31, 0xcc, 0x68, 0x7f, 0xff, 0x04, 0x00 :: nat]"

subsection \<open>LoadFile2\<close>

text \<open>
  \<open>buffer_size\<close> is \<open>None\<close> for a null pointer, and so is \<open>buffer\<close>; otherwise \<open>buffer\<close> is the memory at the
  caller's buffer. The results are the status, the size cell and the memory after the call.
\<close>

definition load_file ::
  "bytes \<Rightarrow> usize option \<Rightarrow> bytes option \<Rightarrow> (unit, status) outcome \<times> usize option \<times> bytes option" where
  "load_file initrd_data buffer_size buf =
     (case buffer_size of
        None \<Rightarrow> (Err INVALID_PARAMETER, None, buf)
      | Some n \<Rightarrow>
          (case buf of
             None \<Rightarrow> (Err BUFFER_TOO_SMALL, Some (len initrd_data), None)
           | Some m \<Rightarrow>
               if n < len initrd_data then (Err BUFFER_TOO_SMALL, Some (len initrd_data), Some m)
               else (Ok (), Some n, Some (initrd_data @ drop (length initrd_data) m))))"

definition raw_load_file ::
  "bytes \<Rightarrow> usize option \<Rightarrow> bytes option \<Rightarrow> status \<times> usize option \<times> bytes option" where
  "raw_load_file initrd_data buffer_size buf =
     (case load_file initrd_data buffer_size buf of
        (Err s, r) \<Rightarrow> (s, r)
      | (_, r) \<Rightarrow> (SUCCESS, r))"

subsection \<open>The loader\<close>

record InitrdLoader =
  loader_initrd :: bytes
  loader_handle :: handle
  registered :: bool

definition install_protocol_interface :: "firmware \<Rightarrow> handle \<Rightarrow> interface \<Rightarrow> unit uefi" where
  "install_protocol_interface F d i =
     call (\<lambda>h. unit_reply (fw_install F h d i)) (\<lambda>r. Install d i (succeeds r))"

definition uninstall_protocol_interface :: "firmware \<Rightarrow> handle \<Rightarrow> interface \<Rightarrow> unit uefi" where
  "uninstall_protocol_interface F d i =
     call (\<lambda>h. unit_reply (fw_uninstall F h d i)) (\<lambda>r. Uninstall d i (succeeds r))"

definition InitrdLoader_new :: "firmware \<Rightarrow> handle \<Rightarrow> bytes \<Rightarrow> InitrdLoader uefi" where
  "InitrdLoader_new F d initrd_data =
     bind_u (install_protocol_interface F d (DevicePathInterface DEVICE_PATH_PROTOCOL)) (\<lambda>_.
     bind_u (install_protocol_interface F d (LoadFile2Interface initrd_data)) (\<lambda>_.
       ret_u \<lparr>loader_initrd = initrd_data, loader_handle = d, registered = True\<rparr>))"

text \<open>A failing call leaves the loader as it was.\<close>

definition uninstall :: "firmware \<Rightarrow> InitrdLoader \<Rightarrow> InitrdLoader uefi" where
  "uninstall F l =
     (if \<not> registered l then panic_u
      else bind_u (uninstall_protocol_interface F (loader_handle l) (DevicePathInterface DEVICE_PATH_PROTOCOL)) (\<lambda>_.
           bind_u (uninstall_protocol_interface F (loader_handle l) (LoadFile2Interface (loader_initrd l))) (\<lambda>_.
             ret_u (l\<lparr>registered := False\<rparr>))))"

definition drop_loader :: "InitrdLoader \<Rightarrow> unit uefi" where
  "drop_loader l = (if registered l then panic_u else ret_u ())"

end
