(* ===== verification/Stub.thy ===== *)
theory Stub
  imports Efi_Vars Pe_Loader Linux_Loader
begin

text \<open>
  The boot stub (\<open>stub/src/common.rs\<close>, \<open>stub/src/thin.rs\<close>, \<open>stub/src/main.rs\<close>): which command line is
  used, loading and checking kernel and initrd, and the whole boot. Log messages are not modelled.
\<close>

subsection \<open>Secure Boot and the command line\<close>

definition EFI_GLOBAL_VARIABLE :: guid where
  "EFI_GLOBAL_VARIABLE = ''8be4df61-93ca-11d2-aa0d-00e098032b8c''"

definition secure_boot_value :: "bytes \<Rightarrow> (bool, status) outcome" where
  "secure_boot_value d =
     (case d of
        [v] \<Rightarrow> if v = char_of (0 :: nat) then Ok False else Ok True
      | _ \<Rightarrow> Err BAD_BUFFER_SIZE)"

definition get_secure_boot_status :: "firmware \<Rightarrow> bool uefi" where
  "get_secure_boot_status F =
     bind_u (try_u (bind_u (get_variable F ''SecureBoot'' EFI_GLOBAL_VARIABLE 1) (\<lambda>d. lift_u (secure_boot_value d))))
       (\<lambda>r. ret_u (case r of Inr b \<Rightarrow> b | Inl s \<Rightarrow> s \<noteq> NOT_FOUND))"

definition get_load_options :: "firmware \<Rightarrow> bytes option uefi" where
  "get_load_options F =
     bind_u (try_u (with_protocol F LoadedImage (fw_image_handle F) (look (fw_load_options F)))) (\<lambda>r.
       ret_u (case r of Inr os \<Rightarrow> os | Inl _ \<Rightarrow> None))"

definition get_cmdline :: "firmware \<Rightarrow> cstr16 \<Rightarrow> bytes uefi" where
  "get_cmdline F embedded =
     bind_u (get_secure_boot_status F) (\<lambda>secure_boot_enabled.
       if secure_boot_enabled then ret_u (fw_cstr16_bytes F embedded)
       else bind_u (get_load_options F) (\<lambda>load_options.
              case load_options of
                None \<Rightarrow> ret_u (fw_cstr16_bytes F embedded)
              | Some passed \<Rightarrow>
                  if passed = fw_cstr16_bytes F embedded then ret_u passed
                  else bind_u (try_u (measure_boot_loader F passed ''Custom user provided kernel cmdline'')) (\<lambda>r.
                         ret_u (if succeeds r then passed else fw_cstr16_bytes F embedded))))"

subsection \<open>Kernel and initrd\<close>

record UkiComponents =
  kernel_data :: bytes
  initrd_data :: bytes
  cmdline :: cstr16

definition extract_string :: "firmware \<Rightarrow> ParsedPe \<Rightarrow> string \<Rightarrow> (cstr16, status) outcome" where
  "extract_string F p section =
     and_then (section_data p section) (\<lambda>r.
       ok_or INVALID_PARAMETER
         (Option.bind r (\<lambda>d. if utf8_valid d then fw_cstring16 F d else None)))"

definition extract_hash :: "ParsedPe \<Rightarrow> string \<Rightarrow> (bytes, status) outcome" where
  "extract_hash p section =
     and_then (section_data p section) (\<lambda>r.
     and_then (ok_or INVALID_PARAMETER r) (\<lambda>d.
       if length d = 32 then Ok d else Err INVALID_PARAMETER))"

definition check_hash :: "firmware \<Rightarrow> bytes \<Rightarrow> bytes \<Rightarrow> (unit, status) outcome" where
  "check_hash F d expected_hash =
     (if fw_sha256 F d = expected_hash then Ok () else Err SECURITY_VIOLATION)"

definition load_from_pe :: "firmware \<Rightarrow> PeInMemory \<Rightarrow> UkiComponents uefi" where
  "load_from_pe F i =
     bind_u (lift_u (from_pe_in_memory F i)) (\<lambda>p.
     bind_u (lift_u (extract_string F p ''.linux'')) (\<lambda>kernel_filename.
     bind_u (lift_u (extract_hash p ''.linuxh'')) (\<lambda>kernel_hash.
     bind_u (lift_u (extract_string F p ''.initrd'')) (\<lambda>initrd_filename.
     bind_u (lift_u (extract_hash p ''.initrdh'')) (\<lambda>initrd_hash.
     bind_u (lift_u (extract_string F p ''.cmdline'')) (\<lambda>cmd.
     bind_u (expect_u (open_file_system F)) (\<lambda>_.
       finally_u
         (bind_u (read_file F kernel_filename) (\<lambda>k.
          bind_u (read_file F initrd_filename) (\<lambda>r.
          bind_u (get_secure_boot_status F) (\<lambda>_.
          bind_u (lift_u (check_hash F k kernel_hash)) (\<lambda>_.
          bind_u (lift_u (check_hash F r initrd_hash)) (\<lambda>_.
            ret_u \<lparr>kernel_data = k, initrd_data = r, cmdline = cmd\<rparr>))))))
         (emit CloseFs))))))))"

subsection \<open>Booting\<close>

definition boot_linux_unchecked :: "firmware \<Rightarrow> handle \<Rightarrow> bytes \<Rightarrow> bytes \<Rightarrow> bytes \<Rightarrow> unit uefi" where
  "boot_linux_unchecked F d kernel_file kernel_cmdline initrd =
     bind_u (expect_u (load F kernel_file)) (\<lambda>k.
     bind_u (InitrdLoader_new F d initrd) (\<lambda>loader.
     bind_u (start F k d kernel_cmdline) (\<lambda>status.
     bind_u (on_error_u (uninstall F loader) (drop_loader loader)) (\<lambda>loader.
     bind_u (drop_loader loader) (\<lambda>_.
       if status = SUCCESS then ret_u () else fail_u status)))))"

definition pad_to_4 :: "bytes \<Rightarrow> bytes" where
  "pad_to_4 d = resize (4 * ((length d + 3) div 4)) d"

fun append_initrds :: "bytes \<Rightarrow> bytes list \<Rightarrow> bytes" where
  "append_initrds acc [] = acc"
| "append_initrds acc (x # xs) = append_initrds (pad_to_4 (acc @ x)) xs"

definition boot_linux :: "firmware \<Rightarrow> handle \<Rightarrow> UkiComponents \<Rightarrow> bytes list \<Rightarrow> unit uefi" where
  "boot_linux F d components dynamic_initrds =
     bind_u (get_cmdline F (cmdline components)) (\<lambda>cmd.
       boot_linux_unchecked F d (kernel_data components) cmd
         (append_initrds (pad_to_4 (initrd_data components)) dynamic_initrds))"

subsection \<open>The entry point\<close>

definition dropin_directory :: "firmware \<Rightarrow> PeInMemory \<Rightarrow> cstr16 option uefi" where
  "dropin_directory F i =
     (case pe_file_path i of
        Some p \<Rightarrow>
          bind_u (try_u (get_default_dropin_directory F p)) (\<lambda>r.
            ret_u (case r of Inl _ \<Rightarrow> None | Inr d \<Rightarrow> d))
      | None \<Rightarrow> ret_u None)"

definition found :: "CompanionInitrd list uefi \<Rightarrow> CompanionInitrd list uefi" where
  "found m = bind_u (try_u m) (\<lambda>r. ret_u (case r of Inl _ \<Rightarrow> [] | Inr cs \<Rightarrow> cs))"

definition collect_companions :: "firmware \<Rightarrow> PeInMemory \<Rightarrow> bool \<Rightarrow> bytes list uefi" where
  "collect_companions F i is_tpm_available =
     bind_u (try_u (open_file_system F)) (\<lambda>r.
       case r of
         Inl _ \<Rightarrow> ret_u []
       | Inr _ \<Rightarrow>
           finally_u
             (bind_u (dropin_directory F i) (\<lambda>dir.
              bind_u (found (discover_credentials F dir)) (\<lambda>creds.
              bind_u (case dir of None \<Rightarrow> ret_u [] | Some d \<Rightarrow> found (discover_system_extensions F d)) (\<lambda>exts.
              bind_u (if is_tpm_available then ignore_u (measure_companion_initrds F (creds @ exts)) else ret_u ()) (\<lambda>_.
                ret_u (map (\<lambda>c. into_inner (companion_cpio c)) (creds @ exts)))))))
             (emit CloseFs))"

definition status_of :: "unit uefi \<Rightarrow> status uefi" where
  "status_of m = bind_u (try_u m) (\<lambda>r. ret_u (case r of Inl s \<Rightarrow> s | Inr _ \<Rightarrow> SUCCESS))"

text \<open>Everything up to the boot: kernel and initrd are loaded and measured, and companions collected.\<close>

definition prepare :: "firmware \<Rightarrow> string \<Rightarrow> (UkiComponents \<times> bytes list) uefi" where
  "prepare F STUB_NAME =
     bind_u (if fw_init F then ret_u () else panic_u) (\<lambda>_.
     bind_u (tpm_available F) (\<lambda>is_tpm_available.
     bind_u (expect_u (booted_image_file F)) (\<lambda>pe_in_memory.
     bind_u (expect_u (load_from_pe F pe_in_memory)) (\<lambda>components.
     bind_u (if is_tpm_available
             then ignore_u (measure_image F pe_in_memory (kernel_data components) (initrd_data components))
             else ret_u ()) (\<lambda>_.
     bind_u (ignore_u (get_loader_features F)) (\<lambda>_.
     bind_u (ignore_u (export_efi_variables F STUB_NAME)) (\<lambda>_.
     bind_u (collect_companions F pe_in_memory is_tpm_available) (\<lambda>dynamic_initrds.
       ret_u (components, dynamic_initrds)))))))))"

definition stub_main :: "firmware \<Rightarrow> string \<Rightarrow> status uefi" where
  "stub_main F STUB_NAME =
     bind_u (prepare F STUB_NAME) (\<lambda>(components, dynamic_initrds).
       status_of (boot_linux F (fw_image_handle F) components dynamic_initrds))"

end
