(* ===== verification/Uefi_Trace.thy ===== *)
theory Uefi_Trace
  imports Stub
begin

text \<open>
  Reasoning about runs of the stub: which value a composed run delivers, which events it adds to
  the history, and, for the parts of the stub that only ask, measure and export, that they add
  none of the events with which the kernel is placed and started.
\<close>

named_theorems emits_intros \<open>events added by composed runs\<close>
named_theorems flow_simps \<open>values delivered by composed runs\<close>

subsection \<open>Delivered values\<close>

lemma ret_u_eq [flow_simps]: "ret_u a h = (r, h') \<longleftrightarrow> r = Val a \<and> h' = h"
  by (auto simp: ret_u_def)

lemma fail_u_eq [flow_simps]: "fail_u s h = (r, h') \<longleftrightarrow> r = Fail s \<and> h' = h"
  by (auto simp: fail_u_def)

lemma panic_u_eq [flow_simps]: "panic_u h = (r, h') \<longleftrightarrow> r = Panicked \<and> h' = h"
  by (auto simp: panic_u_def)

lemma look_eq [flow_simps]: "look f h = (r, h') \<longleftrightarrow> r = Val (f h) \<and> h' = h"
  by (auto simp: look_def)

lemma emit_eq [flow_simps]: "emit e h = (r, h') \<longleftrightarrow> r = Val () \<and> h' = h @ [e]"
  by (auto simp: emit_def)

lemma bind_u_Val [flow_simps]:
  "bind_u m f h = (Val b, h') \<longleftrightarrow> (\<exists>a h1. m h = (Val a, h1) \<and> f a h1 = (Val b, h'))"
  by (auto simp: bind_u_def split: prod.splits flow.splits)

lemma try_u_Val [flow_simps]:
  "try_u m h = (Val r, h') \<longleftrightarrow> (\<exists>a. r = Inr a \<and> m h = (Val a, h')) \<or> (\<exists>s. r = Inl s \<and> m h = (Fail s, h'))"
  by (auto simp: try_u_def split: prod.splits flow.splits)

lemma expect_u_Val [flow_simps]: "expect_u m h = (Val a, h') \<longleftrightarrow> m h = (Val a, h')"
  by (cases "m h"; cases "fst (m h)")
    (auto simp: expect_u_def bind_u_def try_u_def ret_u_def panic_u_def)

lemma expect_u_not_Fail: "expect_u m h \<noteq> (Fail s, h')"
  by (auto simp: expect_u_def bind_u_def try_u_def ret_u_def panic_u_def split: prod.splits flow.splits)

lemma finally_u_Val [flow_simps]:
  "finally_u m d h = (Val a, h') \<longleftrightarrow> (\<exists>h1. m h = (Val a, h1) \<and> d h1 = (Val (), h'))"
  by (cases "m h"; cases "fst (m h)")
    (auto simp: finally_u_def bind_u_def try_u_def ret_u_def fail_u_def split: prod.splits flow.splits)

lemma on_error_u_Val [flow_simps]: "on_error_u m d h = (Val a, h') \<longleftrightarrow> m h = (Val a, h')"
  by (cases "m h"; cases "fst (m h)")
    (auto simp: on_error_u_def bind_u_def try_u_def ret_u_def fail_u_def split: prod.splits flow.splits)

lemma lift_u_Val [flow_simps]: "lift_u r h = (Val a, h') \<longleftrightarrow> r = Ok a \<and> h' = h"
  by (auto simp: lift_u_def flow_simps split: outcome.splits)

lemma bind_u_run: "m h = (Val a, h') \<Longrightarrow> bind_u m f h = f a h'"
  by (simp add: bind_u_def)

lemma bind_u_lift [simp]: "bind_u (lift_u (Ok a)) f = f a"
  by (rule ext) (simp add: bind_u_def lift_u_def ret_u_def)

lemma bind_u_ret [simp]: "bind_u (ret_u a) f = f a"
  by (rule ext) (simp add: bind_u_def ret_u_def)

lemma call_Val [flow_simps]: "call reply ev h = (Val a, h') \<longleftrightarrow> reply h = Inr a \<and> h' = h @ [ev (Inr a)]"
  by (auto simp: call_def Let_def split: sum.splits)

lemma call_Fail [flow_simps]: "call reply ev h = (Fail s, h') \<longleftrightarrow> reply h = Inl s \<and> h' = h @ [ev (Inl s)]"
  by (auto simp: call_def Let_def split: sum.splits)

lemma unit_reply_eq [flow_simps]: "unit_reply r = Inr u \<longleftrightarrow> r = None" "unit_reply r = Inl s \<longleftrightarrow> r = Some s"
  by (auto simp: unit_reply_def split: option.splits)

lemma succeeds_simps [simp]: "succeeds (Inr a)" "\<not> succeeds (Inl s)"
  by (simp_all add: succeeds_def)

subsection \<open>Added events\<close>

definition emits :: "(event \<Rightarrow> bool) \<Rightarrow> 'a uefi \<Rightarrow> bool" where
  "emits A m \<longleftrightarrow> (\<forall>h. \<exists>ev. snd (m h) = h @ ev \<and> list_all A ev)"

lemma emitsI: "(\<And>h. \<exists>ev. snd (m h) = h @ ev \<and> list_all A ev) \<Longrightarrow> emits A m"
  by (simp add: emits_def)

lemma emitsD: "emits A m \<Longrightarrow> m h = (r, h') \<Longrightarrow> \<exists>ev. h' = h @ ev \<and> list_all A ev"
  unfolding emits_def by (metis snd_conv)

lemma emits_mono: "emits A m \<Longrightarrow> (\<And>e. A e \<Longrightarrow> B e) \<Longrightarrow> emits B m"
  unfolding emits_def by (meson list.pred_mono_strong)

lemma emits_pure [emits_intros]: "emits A (ret_u a)" "emits A (fail_u s)" "emits A panic_u" "emits A (look f)"
  by (auto simp: emits_def ret_u_def fail_u_def panic_u_def look_def)

lemma emits_lift [emits_intros]: "emits A (lift_u r)"
  by (cases r) (auto simp: lift_u_def intro: emits_intros)

lemma emits_call [emits_intros]: "(\<And>r. A (ev r)) \<Longrightarrow> emits A (call reply ev)"
  by (auto simp: emits_def call_def Let_def)

lemma emits_emit [emits_intros]: "A e \<Longrightarrow> emits A (emit e)"
  by (auto simp: emits_def emit_def)

lemma emits_bind [emits_intros]:
  assumes m: "emits A m" and f: "\<And>a. emits A (f a)"
  shows "emits A (bind_u m f)"
proof (rule emitsI)
  fix h
  obtain r h1 where r: "m h = (r, h1)" by fastforce
  then obtain ev where ev: "h1 = h @ ev" "list_all A ev" using emitsD [OF m] by blast
  show "\<exists>ev. snd (bind_u m f h) = h @ ev \<and> list_all A ev"
  proof (cases r)
    case (Val a)
    obtain ev' where "snd (f a h1) = h1 @ ev'" "list_all A ev'" using f by (auto simp: emits_def)
    then show ?thesis using r ev Val by (auto simp: bind_u_def)
  qed (use r ev in \<open>auto simp: bind_u_def\<close>)
qed

lemma emits_try [emits_intros]: "emits A m \<Longrightarrow> emits A (try_u m)"
  unfolding emits_def try_u_def by (auto split: prod.splits flow.splits) (metis snd_conv)+

lemma emits_if [emits_intros]: "emits A m \<Longrightarrow> emits A n \<Longrightarrow> emits A (if c then m else n)"
  by simp

lemma emits_sum [emits_intros]:
  "(\<And>s. emits A (f s)) \<Longrightarrow> (\<And>a. emits A (g a)) \<Longrightarrow> emits A (case r of Inl s \<Rightarrow> f s | Inr a \<Rightarrow> g a)"
  by (cases r) auto

lemma emits_option [emits_intros]:
  "emits A m \<Longrightarrow> (\<And>a. emits A (g a)) \<Longrightarrow> emits A (case r of None \<Rightarrow> m | Some a \<Rightarrow> g a)"
  by (cases r) auto

lemma emits_pair [emits_intros]: "(\<And>a b. emits A (f a b)) \<Longrightarrow> emits A (case p of (a, b) \<Rightarrow> f a b)"
  by (cases p) auto

lemma emits_bool [emits_intros]: "emits A m \<Longrightarrow> emits A n \<Longrightarrow> emits A (case c of True \<Rightarrow> m | False \<Rightarrow> n)"
  by (cases c) auto

lemma emits_expect [emits_intros]: "emits A m \<Longrightarrow> emits A (expect_u m)"
  unfolding expect_u_def by (intro emits_intros)

lemma emits_finally [emits_intros]: "emits A m \<Longrightarrow> emits A d \<Longrightarrow> emits A (finally_u m d)"
  unfolding finally_u_def by (intro emits_intros)

lemma emits_on_error [emits_intros]: "emits A m \<Longrightarrow> emits A d \<Longrightarrow> emits A (on_error_u m d)"
  unfolding on_error_u_def by (intro emits_intros)

text \<open>An event that the first part of a sequence does not add comes from the second part.\<close>

lemma event_of_bind:
  assumes "e \<in> set (snd (bind_u m f h))" "emits A m" "\<not> A e" "e \<notin> set h"
  obtains a h1 where "m h = (Val a, h1)" "e \<notin> set h1" "e \<in> set (snd (f a h1))"
proof -
  obtain r h1 where r: "m h = (r, h1)" by fastforce
  then obtain ev where "h1 = h @ ev" "list_all A ev" using emitsD [OF assms(2)] by blast
  then have "e \<notin> set h1" using assms(3,4) by (auto simp: list_all_iff)
  then show thesis using that assms(1) r by (cases r) (auto simp: bind_u_def)
qed

lemma event_of_try: "snd (try_u m h) = snd (m h)"
  by (auto simp: try_u_def split: prod.splits flow.splits)

subsection \<open>Asking, measuring and exporting\<close>

text \<open>The events with which the kernel is placed, described and started.\<close>

fun boot_event :: "event \<Rightarrow> bool" where
  "boot_event (AllocatePages _) = True"
| "boot_event (FreePages _ _ _) = True"
| "boot_event (Install _ _ _) = True"
| "boot_event (Uninstall _ _ _) = True"
| "boot_event (SetImage _ _) = True"
| "boot_event (SetLoadOptions _) = True"
| "boot_event (Start _ _ _) = True"
| "boot_event _ = False"

text \<open>Looking for files and reading them, on a file system that is open.\<close>

fun browse_event :: "event \<Rightarrow> bool" where
  "browse_event (ReadFile _ _) = True"
| "browse_event (ReadDir _) = True"
| "browse_event (Metadata _) = True"
| "browse_event (TryExists _) = True"
| "browse_event (PackFiles _) = True"
| "browse_event (PathText _) = True"
| "browse_event _ = False"

locale browsing =
  fixes A :: "event \<Rightarrow> bool"
  assumes browse_allowed: "browse_event e \<Longrightarrow> A e"
begin

lemma emits_read_file: "emits A (read_file F p)"
  unfolding read_file_def by (intro emits_intros browse_allowed) simp

lemma emits_find_files: "emits A (find_files F d sfx)"
  unfolding find_files_def by (intro emits_intros browse_allowed) simp

lemma emits_is_directory: "emits A (is_directory_u F d)"
  unfolding is_directory_u_def by (intro emits_intros browse_allowed) simp

lemma emits_pack_companion: "emits A (pack_companion F t files pre dm am)"
  unfolding pack_companion_def by (intro emits_intros browse_allowed) simp

lemma emits_dropin_directory: "emits A (dropin_directory F i)"
  unfolding dropin_directory_def get_default_dropin_directory_def Let_def
  by (intro emits_intros emits_is_directory browse_allowed) simp

lemma emits_discover_credentials: "emits A (discover_credentials F d)"
  unfolding discover_credentials_def global_credentials_def
  by (intro emits_intros emits_is_directory emits_find_files emits_pack_companion browse_allowed) simp

lemma emits_discover_system_extensions: "emits A (discover_system_extensions F d)"
  unfolding discover_system_extensions_def by (intro emits_intros emits_find_files emits_pack_companion)

end

text \<open>The same, with the opening and closing of the file system around it.\<close>

fun file_event :: "event \<Rightarrow> bool" where
  "file_event (OpenFs _) = True"
| "file_event CloseFs = True"
| "file_event e = browse_event e"

locale reading =
  fixes A :: "event \<Rightarrow> bool"
  assumes file_allowed: "file_event e \<Longrightarrow> A e"
begin

lemma emits_open_fs: "emits A (open_file_system F)"
  unfolding open_file_system_def by (intro emits_intros file_allowed) simp

lemma emits_close_fs: "emits A (emit CloseFs)"
  by (intro emits_intros file_allowed) simp

end

sublocale reading \<subseteq> browsing A
proof
  show "A e" if "browse_event e" for e using that file_allowed by (cases e) auto
qed

text \<open>
  The variables that belong to the boot loader, which the stub provides only when the boot loader did
  not. Everything but exporting them is \<open>reporting\<close>.
\<close>

definition loader_variables :: "string list" where
  "loader_variables = [''LoaderDevicePartUUID'', ''LoaderImageIdentifier'', ''LoaderFirmwareInfo'', ''LoaderFirmwareType'']"

fun sets_loader_variable :: "event \<Rightarrow> bool" where
  "sets_loader_variable (SetVariable name _ _ _ _) = (name \<in> set loader_variables)"
| "sets_loader_variable _ = False"

locale reporting =
  fixes A :: "event \<Rightarrow> bool"
  assumes report_allowed: "\<not> boot_event e \<Longrightarrow> \<not> sets_loader_variable e \<Longrightarrow> A e"

sublocale reporting \<subseteq> reading A
proof
  show "A e" if "file_event e" for e using that report_allowed by (cases e) auto
qed

context reporting
begin

lemma emits_open: "emits A (open_protocol_exclusive F p d)"
  unfolding open_protocol_exclusive_def by (intro emits_intros report_allowed) simp_all

lemma emits_close: "emits A (close_protocol p d)"
  unfolding close_protocol_def by (intro emits_intros report_allowed) simp_all

lemma emits_with_protocol: "emits A m \<Longrightarrow> emits A (with_protocol F p d m)"
  unfolding with_protocol_def by (intro emits_intros emits_open emits_close)

lemma emits_get_handle: "emits A (get_handle_for_protocol F p)"
  unfolding get_handle_for_protocol_def by (intro emits_intros report_allowed) simp_all

lemma emits_get_variable: "emits A (get_variable F name vendor n)"
  unfolding get_variable_def by (intro emits_intros report_allowed) simp_all

lemma emits_set_stub_variable:
  "name \<notin> set loader_variables \<Longrightarrow> emits A (set_variable F name vendor attrs d)"
  unfolding set_variable_def by (intro emits_intros report_allowed) simp_all

lemma emits_open_capable_tpm2: "emits A (open_capable_tpm2 F)"
  unfolding open_capable_tpm2_def get_capability_def
  by (intro emits_intros emits_get_handle emits_open emits_close report_allowed) simp_all

lemma emits_tpm_available: "emits A (tpm_available F)"
  unfolding tpm_available_def by (intro emits_intros emits_open_capable_tpm2 emits_close)

lemma emits_tpm_log: "emits A (tpm_log_event_ascii F pcr buf desc)"
  unfolding tpm_log_event_ascii_def hash_log_extend_event_def Let_def
  by (intro emits_intros emits_open_capable_tpm2 emits_close report_allowed) simp_all

lemma emits_measure_boot_loader: "emits A (measure_boot_loader F buf desc)"
  unfolding measure_boot_loader_def by (rule emits_tpm_log)

lemma emits_measure_sections: "emits A (measure_sections F p k i us n)"
  by (induction us arbitrary: n)
    (auto simp: counted_def intro!: emits_intros emits_tpm_log)

lemma emits_measure_image: "emits A (measure_image F p k i)"
  unfolding measure_image_def by (intro emits_intros emits_measure_sections emits_set_stub_variable) (simp add: loader_variables_def)

lemma emits_measure_companions: "emits A (measure_companions F cs c)"
proof (induction cs arbitrary: c)
  case (Cons x cs)
  then show ?case unfolding measure_companions.simps by (intro emits_intros emits_tpm_log)
qed (simp add: emits_intros)

lemma emits_measure_companion_initrds: "emits A (measure_companion_initrds F cs)"
  unfolding measure_companion_initrds_def by (intro emits_intros emits_measure_companions emits_set_stub_variable) (simp_all add: loader_variables_def)

lemma emits_booted_image_file: "emits A (booted_image_file F)"
  unfolding booted_image_file_def by (intro emits_intros emits_with_protocol)

lemma emits_get_loader_features: "emits A (get_loader_features F)"
  unfolding get_loader_features_def by (intro emits_intros emits_get_variable)

lemma emits_values: "emits A (part_uuid_value F)" "emits A (image_identifier_value F)"
  unfolding part_uuid_value_def disk_get_part_uuid_def image_identifier_value_def
  by (intro emits_intros emits_with_protocol emits_get_handle report_allowed; simp)+

lemma emits_collect_companions: "emits A (collect_companions F i t)"
  unfolding collect_companions_def found_def ignore_u_def
  by (intro emits_intros emits_open_fs emits_close_fs emits_dropin_directory emits_discover_credentials
      emits_discover_system_extensions emits_measure_companion_initrds)

lemma emits_secure_boot: "emits A (get_secure_boot_status F)"
  unfolding get_secure_boot_status_def by (intro emits_intros emits_get_variable)

lemma emits_get_cmdline: "emits A (get_cmdline F e)"
  unfolding get_cmdline_def get_load_options_def
  by (intro emits_intros emits_secure_boot emits_with_protocol emits_measure_boot_loader)

lemma emits_load_from_pe: "emits A (load_from_pe F i)"
  unfolding load_from_pe_def
  by (intro emits_intros emits_open_fs emits_close_fs emits_read_file emits_secure_boot)

end

locale housekeeping =
  fixes A :: "event \<Rightarrow> bool"
  assumes allowed: "\<not> boot_event e \<Longrightarrow> A e"

sublocale housekeeping \<subseteq> reporting A
  by unfold_locales (rule allowed)

context housekeeping
begin

lemma emits_set_variable: "emits A (set_variable F name vendor attrs d)"
  unfolding set_variable_def by (intro emits_intros allowed) simp

lemma emits_ensure: "emits A v \<Longrightarrow> emits A (ensure_efi_variable F name vendor attrs v)"
  unfolding ensure_efi_variable_def variable_exists_def
  by (intro emits_intros emits_get_variable emits_set_variable) (auto split: status.splits intro: emits_intros)

lemma emits_export: "emits A (export_efi_variables F name)"
  unfolding export_efi_variables_def ignore_u_def
  by (intro emits_with_protocol emits_intros emits_ensure emits_set_variable emits_values)

end

interpretation asking: housekeeping "\<lambda>e. \<not> boot_event e"
  by unfold_locales

subsection \<open>Delivered values that satisfy a predicate\<close>

definition returns :: "('a \<Rightarrow> bool) \<Rightarrow> 'a uefi \<Rightarrow> bool" where
  "returns P m \<longleftrightarrow> (\<forall>h a h'. m h = (Val a, h') \<longrightarrow> P a)"

lemma returnsD: "returns P m \<Longrightarrow> m h = (Val a, h') \<Longrightarrow> P a"
  unfolding returns_def by blast

lemma returns_pure: "P a \<Longrightarrow> returns P (ret_u a)" "returns P (fail_u s)" "returns P panic_u"
  by (auto simp: returns_def flow_simps)

lemma returns_bind: "(\<And>a. returns P (f a)) \<Longrightarrow> returns P (bind_u m f)"
  unfolding returns_def bind_u_Val by blast

lemma returns_bind_where: "returns Q m \<Longrightarrow> (\<And>a. Q a \<Longrightarrow> returns P (f a)) \<Longrightarrow> returns P (bind_u m f)"
  unfolding returns_def bind_u_Val by blast

lemma returns_if: "returns P m \<Longrightarrow> returns P n \<Longrightarrow> returns P (if c then m else n)"
  by simp

lemma returns_option: "returns P m \<Longrightarrow> (\<And>a. returns P (f a)) \<Longrightarrow> returns P (case r of None \<Rightarrow> m | Some a \<Rightarrow> f a)"
  by (cases r) auto

lemma returns_bool: "returns P m \<Longrightarrow> returns P n \<Longrightarrow> returns P (case c of True \<Rightarrow> m | False \<Rightarrow> n)"
  by (cases c) auto

text \<open>A property of every archive that packing delivers is one of all companions.\<close>

locale companion_property =
  fixes F :: firmware and P :: "CompanionInitrd \<Rightarrow> bool"
  assumes global: "returns (list_all P) (pack_companion F GlobalCredentials files ''.extra/global_credentials'' 0x140 0x100)"
    and local: "returns (list_all P) (pack_companion F Credentials files ''.extra/credentials'' 0x140 0x100)"
    and sysext: "returns (list_all P) (pack_companion F SystemExtension files ''.extra/sysext'' 0x16D 0x124)"
begin

lemma returns_global_credentials: "returns (list_all P) (global_credentials F)"
  unfolding global_credentials_def
  by (intro returns_bind returns_option returns_bool returns_pure global) simp_all

lemma returns_discover_credentials: "returns (list_all P) (discover_credentials F d)"
  unfolding discover_credentials_def
proof (rule returns_bind_where [OF returns_global_credentials])
  fix xs
  assume xs: "list_all P xs"
  have "returns (list_all P)
      (bind_u (pack_companion F Credentials files ''.extra/credentials'' 0x140 0x100) (\<lambda>ys. ret_u (xs @ ys)))" for files
    by (rule returns_bind_where [OF local]) (use xs in \<open>auto intro: returns_pure\<close>)
  then show "returns (list_all P) (case d of None \<Rightarrow> ret_u xs
      | Some d \<Rightarrow> bind_u (find_files F d ''.cred'') (\<lambda>files.
          bind_u (pack_companion F Credentials files ''.extra/credentials'' 0x140 0x100) (\<lambda>ys. ret_u (xs @ ys))))"
    using xs by (intro returns_option returns_bind [of _ _ "find_files _ _ _"] returns_pure)
qed

lemma returns_discover_system_extensions: "returns (list_all P) (discover_system_extensions F d)"
  unfolding discover_system_extensions_def by (intro returns_bind sysext)

lemma returns_found:
  assumes "returns (list_all P) m"
  shows "returns (list_all P) (found m)"
  unfolding found_def
proof (rule returns_bind_where)
  show "returns (\<lambda>r. case r of Inl _ \<Rightarrow> True | Inr cs \<Rightarrow> list_all P cs) (try_u m)"
    unfolding returns_def try_u_Val using returnsD [OF assms] by fastforce
qed (auto intro!: returns_pure split: sum.splits)

lemmas found_credentials = returns_found [OF returns_discover_credentials]

lemma found_extensions:
  "returns (list_all P) (case d of None \<Rightarrow> ret_u [] | Some d \<Rightarrow> found (discover_system_extensions F d))"
  by (intro returns_option returns_pure returns_found returns_discover_system_extensions) simp

end

end
