(* ===== verification/Stub_Run.thy ===== *)
theory Stub_Run
  imports Uefi_Trace
begin

text \<open>
  What a run of the stub that starts a kernel has done before: the run is taken apart at the calls
  that lead to the start, with the history growing from one to the next.
\<close>

subsection \<open>Histories grow\<close>

lemma emits_prefix: "emits A m \<Longrightarrow> m h = (r, h') \<Longrightarrow> prefix h h'"
  using emitsD by (fastforce simp: prefix_def)

lemma event_of_first:
  assumes "e \<in> set (snd (bind_u m f h))" "\<And>a. emits A (f a)" "\<not> A e"
  shows "e \<in> set (snd (m h))"
proof (cases "m h")
  case (Pair r h1)
  show ?thesis
  proof (cases r)
    case (Val a)
    obtain ev where "snd (f a h1) = h1 @ ev" "list_all A ev" using assms(2) by (auto simp: emits_def)
    then show ?thesis using assms(1,3) Pair Val by (auto simp: bind_u_def list_all_iff)
  qed (use assms(1) Pair in \<open>auto simp: bind_u_def\<close>)
qed

lemma bind_grows:
  assumes "\<And>a. emits A (f a)"
  shows "\<exists>ev. snd (bind_u m f h) = snd (m h) @ ev"
proof (cases "m h")
  case (Pair r h1)
  show ?thesis
  proof (cases r)
    case (Val a)
    then show ?thesis using assms Pair by (auto simp: bind_u_def emits_def dest!: spec [of _ h1]) metis
  qed (use Pair in \<open>auto simp: bind_u_def\<close>)
qed

subsection \<open>Starting the kernel\<close>

fun is_start :: "event \<Rightarrow> bool" where
  "is_start (Start _ _ _) = True"
| "is_start _ = False"

interpretation quiet: housekeeping "\<lambda>e. \<not> is_start e"
proof
  show "\<not> is_start e" if "\<not> boot_event e" for e using that by (cases e) auto
qed

lemma quiet_load: "emits (\<lambda>e. \<not> is_start e) (load F d)"
  unfolding load_def allocate_pages_def Let_def by (intro emits_intros) simp

lemma quiet_loader:
  "emits (\<lambda>e. \<not> is_start e) (InitrdLoader_new F d r)"
  "emits (\<lambda>e. \<not> is_start e) (uninstall F l)"
  "emits (\<lambda>e. \<not> is_start e) (drop_loader l)"
  unfolding InitrdLoader_new_def uninstall_def drop_loader_def install_protocol_interface_def
    uninstall_protocol_interface_def
  by (intro emits_intros; simp)+

lemma quiet_set_load_options: "emits (\<lambda>e. \<not> is_start e) (set_load_options os)"
  unfolding set_load_options_def by (intro emits_intros) simp_all

lemma emits_run_kernel: "emits (\<lambda>e. e = Start d (img_bytes i) (img_entry i)) (run_kernel F d i)"
  by (auto simp: emits_def run_kernel_def split: option.splits)

lemma quiet_restore_image: "emits (\<lambda>e. \<not> is_start e) (restore_image F i a b os)"
  unfolding restore_image_def free_pages_def by (intro emits_intros quiet_set_load_options) simp_all

text \<open>There is only one start event, for this image, right after the command line was set.\<close>

lemma start_held_event:
  assumes e: "Start d' img entry \<in> set (snd (start_held F i d cmd h))" "Start d' img entry \<notin> set h"
  shows "d' = d \<and> img = img_bytes i \<and> entry = img_entry i \<and>
    (\<exists>sz post. snd (start_held F i d cmd h) =
       h @ [SetImage (img_base i) sz, SetLoadOptions (Some cmd), Start d img entry] @ post)"
proof -
  let ?sz = "of_nat (length (img_bytes i)) :: u64"
  obtain od os where info: "fw_image_info F h = (od, os)" by fastforce
  let ?restore = "\<lambda>status. bind_u (restore_image F i od os (fw_load_options F h)) (\<lambda>_. ret_u status)"
  let ?run = "\<lambda>_. bind_u (run_kernel F d i) ?restore"
  have quiet_restore: "emits (\<lambda>e. \<not> is_start e) (?restore s)" for s
    by (intro emits_intros quiet_restore_image)
  have run: "start_held F i d cmd h = bind_u (set_load_options (Some cmd)) ?run (h @ [SetImage (img_base i) ?sz])"
    using info by (simp add: start_held_def bind_u_def [of "look _"] bind_u_def [of "emit _"] look_def emit_def)
  note e' = e(1) [unfolded run]
  show ?thesis
  proof (rule event_of_bind [OF e' quiet_set_load_options])
    fix u :: unit and h3
    assume opts: "set_load_options (Some cmd) (h @ [SetImage (img_base i) ?sz]) = (Val u, h3)"
      and fresh: "Start d' img entry \<notin> set h3" and s: "Start d' img entry \<in> set (snd (?run u h3))"
    have h3: "h3 = h @ [SetImage (img_base i) ?sz, SetLoadOptions (Some cmd)]"
      using opts by (auto simp: set_load_options_def flow_simps split: if_splits)
    have "Start d' img entry \<in> set (snd (run_kernel F d i h3))"
      using event_of_first [OF s quiet_restore] by simp
    then have eq: "d' = d" "img = img_bytes i" "entry = img_entry i"
      using fresh by (auto simp: run_kernel_def split: option.splits)
    moreover have "snd (run_kernel F d i h3) = h3 @ [Start d img entry]"
      using eq by (auto simp: run_kernel_def split: option.splits)
    moreover obtain ev where "snd (?run u h3) = snd (run_kernel F d i h3) @ ev"
      using bind_grows [of _ ?restore "run_kernel F d i" h3, OF quiet_restore] by blast
    moreover have "snd (start_held F i d cmd h) = snd (?run u h3)"
      unfolding run bind_u_def [of "set_load_options _"] opts by simp
    ultimately show ?thesis using h3 by simp
  qed (use e(2) in simp_all)
qed

lemma start_event:
  assumes e: "Start d' img entry \<in> set (snd (start F i d cmd h))" "Start d' img entry \<notin> set h"
  shows "d' = d \<and> img = img_bytes i \<and> entry = img_entry i \<and>
    (\<exists>sz post. snd (start F i d cmd h) =
       h @ [Open LoadedImage d True, SetImage (img_base i) sz, SetLoadOptions (Some cmd), Start d img entry] @ post)"
proof -
  let ?fin = "\<lambda>r. bind_u (close_protocol LoadedImage d) (\<lambda>_. case r of Inl s \<Rightarrow> fail_u s | Inr a \<Rightarrow> ret_u a)"
  have quiet_fin: "emits (\<lambda>e. \<not> is_start e) (?fin r)" for r :: "status + status"
    by (intro emits_intros quiet.emits_close)
  have "emits (\<lambda>e. \<not> is_start e) (expect_u (open_protocol_exclusive F LoadedImage d))"
    by (intro emits_intros quiet.emits_open)
  then show ?thesis
  proof (rule event_of_bind [OF e(1) [unfolded start_def]])
    fix u :: unit and h1
    assume opened: "expect_u (open_protocol_exclusive F LoadedImage d) h = (Val u, h1)"
      and fresh: "Start d' img entry \<notin> set h1"
      and s: "Start d' img entry \<in> set (snd (finally_u (start_held F i d cmd) (close_protocol LoadedImage d) h1))"
    have h1: "h1 = h @ [Open LoadedImage d True]"
      using opened by (auto simp: flow_simps open_protocol_exclusive_def)
    have "Start d' img entry \<in> set (snd (start_held F i d cmd h1))"
      using event_of_first [OF s [unfolded finally_u_def] quiet_fin] by (simp add: event_of_try)
    from start_held_event [OF this fresh] obtain sz post where
      eq: "d' = d" "img = img_bytes i" "entry = img_entry i"
      "snd (start_held F i d cmd h1) =
         h1 @ [SetImage (img_base i) sz, SetLoadOptions (Some cmd), Start d img entry] @ post" by blast
    moreover obtain ev where "snd (finally_u (start_held F i d cmd) (close_protocol LoadedImage d) h1) =
        snd (start_held F i d cmd h1) @ ev"
      using bind_grows [of _ ?fin "try_u (start_held F i d cmd)" h1, OF quiet_fin]
      unfolding finally_u_def event_of_try by blast
    moreover have "snd (start F i d cmd h) =
        snd (finally_u (start_held F i d cmd) (close_protocol LoadedImage d) h1)"
      unfolding start_def bind_u_def [of "expect_u _"] opened by simp
    ultimately show ?thesis using h1 by simp
  qed (use e(2) in simp_all)
qed

subsection \<open>The boot\<close>

lemma unchecked_start:
  assumes e: "Start d' img entry \<in> set (snd (boot_linux_unchecked F d kf cmd rd h))"
    "Start d' img entry \<notin> set h"
  obtains k h1 l h2 sz post where
    "load F kf h = (Val k, h1)" "InitrdLoader_new F d rd h1 = (Val l, h2)"
    "d' = d" "img = img_bytes k" "entry = img_entry k"
    "snd (boot_linux_unchecked F d kf cmd rd h) =
       h2 @ [Open LoadedImage d True, SetImage (img_base k) sz, SetLoadOptions (Some cmd), Start d img entry] @ post"
proof (rule event_of_bind [OF e(1) [unfolded boot_linux_unchecked_def] emits_expect [OF quiet_load]])
  let ?rest = "\<lambda>loader status. bind_u (on_error_u (uninstall F loader) (drop_loader loader)) (\<lambda>loader.
     bind_u (drop_loader loader) (\<lambda>_. if status = SUCCESS then ret_u () else fail_u status))"
  let ?start = "\<lambda>k loader. bind_u (start F k d cmd) (?rest loader)"
  have quiet_rest: "emits (\<lambda>e. \<not> is_start e) (?rest l s)" for l s
    by (intro emits_intros quiet_loader)
  fix k h1
  assume k: "expect_u (load F kf) h = (Val k, h1)" and fresh1: "Start d' img entry \<notin> set h1"
    and e1: "Start d' img entry \<in> set (snd (bind_u (InitrdLoader_new F d rd) (?start k) h1))"
  show thesis
  proof (rule event_of_bind [OF e1 quiet_loader(1)])
    fix l h2
    assume l: "InitrdLoader_new F d rd h1 = (Val l, h2)" and fresh2: "Start d' img entry \<notin> set h2"
      and e2: "Start d' img entry \<in> set (snd (?start k l h2))"
    have "Start d' img entry \<in> set (snd (start F k d cmd h2))"
      using event_of_first [OF e2 quiet_rest] by simp
    from start_event [OF this fresh2] obtain sz post where
      eq: "d' = d" "img = img_bytes k" "entry = img_entry k" and
      st: "snd (start F k d cmd h2) = h2 @ [Open LoadedImage d True, SetImage (img_base k) sz,
         SetLoadOptions (Some cmd), Start d img entry] @ post" by blast
    have run: "snd (boot_linux_unchecked F d kf cmd rd h) = snd (?start k l h2)"
      using k l by (simp add: boot_linux_unchecked_def bind_u_def [of "expect_u _"] bind_u_def [of "InitrdLoader_new _ _ _"])
    obtain ev where ev: "snd (?start k l h2) = snd (start F k d cmd h2) @ ev"
      using bind_grows [of _ "?rest l" "start F k d cmd" h2, OF quiet_rest] by blast
    show thesis
      by (rule that [of k h1 l h2 sz "post @ ev"])
        (use k l eq st run ev in \<open>simp_all add: flow_simps\<close>)
  qed (use fresh1 in simp_all)
qed (use e(2) in simp_all)

lemma quiet_ignore: "emits A m \<Longrightarrow> emits A (ignore_u m)"
  unfolding ignore_u_def by (intro emits_intros)

lemmas quiet_parts = quiet.emits_tpm_available quiet.emits_booted_image_file quiet.emits_load_from_pe
  quiet.emits_measure_image quiet.emits_get_loader_features quiet.emits_export quiet.emits_collect_companions

lemma quiet_prepare: "emits (\<lambda>e. \<not> is_start e) (prepare F nm)"
  unfolding prepare_def by (intro emits_intros quiet_ignore quiet_parts)

text \<open>
  A run of the stub that starts a kernel, taken apart: the components come out of the image the
  firmware describes, then companions, command line, kernel image and initrd loader follow.
\<close>

definition boots ::
  "firmware \<Rightarrow> PeInMemory \<Rightarrow> UkiComponents \<Rightarrow> bytes list \<Rightarrow> bytes \<Rightarrow> Image \<Rightarrow> history \<Rightarrow> bool" where
  "boots F i c dyn cmd k h' \<longleftrightarrow>
     (\<exists>h0 h1 h2 h3 h4 h5 h6 t l.
        booted_image_file F h0 = (Val i, h1) \<and>
        load_from_pe F i h1 = (Val c, h2) \<and> prefix h2 h3 \<and>
        collect_companions F i t h3 = (Val dyn, h4) \<and>
        get_cmdline F (cmdline c) h4 = (Val cmd, h5) \<and>
        load F (kernel_data c) h5 = (Val k, h6) \<and>
        InitrdLoader_new F (fw_image_handle F)
          (append_initrds (pad_to_4 (initrd_data c)) dyn) h6 = (Val l, h'))"

lemma ignore_u_Val [flow_simps]: "ignore_u m h = (Val u, h') \<longleftrightarrow> (\<exists>r. try_u m h = (Val r, h'))"
  by (auto simp: ignore_u_def bind_u_Val ret_u_eq)

lemma prepare_Val:
  assumes "prepare F nm h = (Val (c, dyn), h')"
  obtains h0 i h1 h2 h3 t where
    "booted_image_file F h0 = (Val i, h1)" "load_from_pe F i h1 = (Val c, h2)" "prefix h2 h3"
    "collect_companions F i t h3 = (Val dyn, h')"
proof -
  obtain t i h0 h1 h2 h3 h4 h5 where run: "booted_image_file F h0 = (Val i, h1)"
    "load_from_pe F i h1 = (Val c, h2)"
    "(if t then ignore_u (measure_image F i (kernel_data c) (initrd_data c)) else ret_u ()) h2 = (Val (), h3)"
    "ignore_u (get_loader_features F) h3 = (Val (), h4)" "ignore_u (export_efi_variables F nm) h4 = (Val (), h5)"
    "collect_companions F i t h5 = (Val dyn, h')"
    using assms by (auto simp: prepare_def bind_u_Val expect_u_Val ret_u_eq)
  have "emits (\<lambda>e. \<not> is_start e)
      (if t then ignore_u (measure_image F i (kernel_data c) (initrd_data c)) else ret_u ())"
    by (intro emits_intros quiet_ignore quiet_parts)
  then have "prefix h2 h3" using emits_prefix run(3) by blast
  also have "prefix h3 h4" using emits_prefix [OF quiet_ignore run(4)] quiet_parts by blast
  also have "prefix h4 h5" using emits_prefix [OF quiet_ignore run(5)] quiet_parts by blast
  finally show thesis using that run by blast
qed

lemma snd_status_of: "snd (status_of m h) = snd (m h)"
  by (auto simp: status_of_def bind_u_def try_u_def ret_u_def split: prod.splits flow.splits)

lemma stub_start:
  assumes e: "Start d img entry \<in> set (snd (stub_main F nm []))"
  obtains i c dyn cmd k h' sz post where
    "boots F i c dyn cmd k h'" "d = fw_image_handle F" "img = img_bytes k" "entry = img_entry k"
    "snd (stub_main F nm []) =
       h' @ [Open LoadedImage d True, SetImage (img_base k) sz, SetLoadOptions (Some cmd), Start d img entry] @ post"
proof (rule event_of_bind [OF e [unfolded stub_main_def] quiet_prepare])
  fix p h4
  assume p: "prepare F nm [] = (Val p, h4)" and fresh: "Start d img entry \<notin> set h4"
    and e4: "Start d img entry \<in> set (snd ((case p of (c, dyn) \<Rightarrow>
      status_of (boot_linux F (fw_image_handle F) c dyn)) h4))"
  obtain c dyn where cd: "p = (c, dyn)" by fastforce
  note status = snd_status_of
  have main: "snd (stub_main F nm []) = snd (boot_linux F (fw_image_handle F) c dyn h4)"
    using p cd status by (simp add: stub_main_def bind_u_def)
  let ?rd = "append_initrds (pad_to_4 (initrd_data c)) dyn"
  show thesis
  proof (rule event_of_bind [of "Start d img entry" "get_cmdline F (cmdline c)" _ h4, OF _ quiet.emits_get_cmdline])
    show "Start d img entry \<in> set (snd (bind_u (get_cmdline F (cmdline c)) (\<lambda>cmd.
        boot_linux_unchecked F (fw_image_handle F) (kernel_data c) cmd ?rd) h4))"
      using e4 cd status by (simp add: boot_linux_def)
    fix cmd h5
    assume cmd: "get_cmdline F (cmdline c) h4 = (Val cmd, h5)" and fresh5: "Start d img entry \<notin> set h5"
      and e5: "Start d img entry \<in> set (snd (boot_linux_unchecked F (fw_image_handle F) (kernel_data c) cmd ?rd h5))"
    have run: "snd (boot_linux F (fw_image_handle F) c dyn h4) =
        snd (boot_linux_unchecked F (fw_image_handle F) (kernel_data c) cmd ?rd h5)"
      using cmd by (simp add: boot_linux_def bind_u_def)
    show thesis
    proof (rule unchecked_start [OF e5 fresh5])
      fix k h6 l h' sz post
      assume k: "load F (kernel_data c) h5 = (Val k, h6)"
        "InitrdLoader_new F (fw_image_handle F) ?rd h6 = (Val l, h')"
        "d = fw_image_handle F" "img = img_bytes k" "entry = img_entry k"
        "snd (boot_linux_unchecked F (fw_image_handle F) (kernel_data c) cmd ?rd h5) =
         h' @ [Open LoadedImage (fw_image_handle F) True, SetImage (img_base k) sz, SetLoadOptions (Some cmd),
               Start (fw_image_handle F) img entry] @ post"
      show thesis
      proof (rule prepare_Val [OF p [unfolded cd]])
        fix h0 i h1 h2 h3 t
        assume "booted_image_file F h0 = (Val i, h1)" "load_from_pe F i h1 = (Val c, h2)" "prefix h2 h3"
          "collect_companions F i t h3 = (Val dyn, h4)"
        then have "boots F i c dyn cmd k h'" unfolding boots_def using cmd k(1,2) by blast
        then show thesis using that k(3-6) main run by metis
      qed
    qed
  qed (use fresh in simp_all)
qed simp_all

end
