(* ===== verification/Stub_Progress.thy ===== *)
theory Stub_Progress
  imports Stub_Run
begin

text \<open>
  Runs that come to an end with a value: no panic and no hand-over in the parts that ask, measure
  and export, whatever the firmware answers, and the path from the checks to the start of the
  kernel.
\<close>

named_theorems safe_intros \<open>runs that neither panic nor hand over\<close>

subsection \<open>Runs without a panic\<close>

definition safe :: "'a uefi \<Rightarrow> bool" where
  "safe m \<longleftrightarrow> (\<forall>h. (\<exists>a. fst (m h) = Val a) \<or> (\<exists>s. fst (m h) = Fail s))"

definition gives :: "'a uefi \<Rightarrow> bool" where
  "gives m \<longleftrightarrow> (\<forall>h. \<exists>a. fst (m h) = Val a)"

lemma gives_run: "gives m \<Longrightarrow> \<exists>a h'. m h = (Val a, h')"
  unfolding gives_def by (metis prod.collapse)

lemma gives_safe: "gives m \<Longrightarrow> safe m"
  by (auto simp: gives_def safe_def)

lemma safe_pure [safe_intros]: "safe (ret_u a)" "safe (fail_u s)" "safe (look f)" "safe (emit e)" "safe (call rep ev)"
  by (auto simp: safe_def ret_u_def fail_u_def look_def emit_def call_def Let_def split: sum.splits)

lemma gives_pure [safe_intros]: "gives (ret_u a)" "gives (look f)" "gives (emit e)"
  by (auto simp: gives_def ret_u_def look_def emit_def)

lemma safe_bind [safe_intros]: "safe m \<Longrightarrow> (\<And>a. safe (f a)) \<Longrightarrow> safe (bind_u m f)"
  unfolding safe_def bind_u_def by (auto split: prod.splits flow.splits) (metis fst_conv flow.distinct)+

lemma gives_bind [safe_intros]: "gives m \<Longrightarrow> (\<And>a. gives (f a)) \<Longrightarrow> gives (bind_u m f)"
  unfolding gives_def bind_u_def by (auto split: prod.splits flow.splits) (metis fst_conv flow.distinct)+

lemma gives_try [safe_intros]: "safe m \<Longrightarrow> gives (try_u m)"
  unfolding gives_def safe_def try_u_def by (auto split: prod.splits flow.splits) (metis fst_conv flow.distinct)+

lemma safe_lift [safe_intros]: "r \<noteq> Panic \<Longrightarrow> safe (lift_u r)"
  by (cases r) (auto simp: lift_u_def intro: safe_intros)

lemma safe_if [safe_intros]: "safe m \<Longrightarrow> safe n \<Longrightarrow> safe (if c then m else n)"
  by simp

lemma gives_if [safe_intros]: "gives m \<Longrightarrow> gives n \<Longrightarrow> gives (if c then m else n)"
  by simp

lemma safe_sum [safe_intros]:
  "(\<And>s. safe (f s)) \<Longrightarrow> (\<And>a. safe (g a)) \<Longrightarrow> safe (case r of Inl s \<Rightarrow> f s | Inr a \<Rightarrow> g a)"
  by (cases r) auto

lemma gives_sum [safe_intros]:
  "(\<And>s. gives (f s)) \<Longrightarrow> (\<And>a. gives (g a)) \<Longrightarrow> gives (case r of Inl s \<Rightarrow> f s | Inr a \<Rightarrow> g a)"
  by (cases r) auto

lemma safe_option [safe_intros]:
  "safe m \<Longrightarrow> (\<And>a. safe (g a)) \<Longrightarrow> safe (case r of None \<Rightarrow> m | Some a \<Rightarrow> g a)"
  by (cases r) auto

lemma gives_option [safe_intros]:
  "gives m \<Longrightarrow> (\<And>a. gives (g a)) \<Longrightarrow> gives (case r of None \<Rightarrow> m | Some a \<Rightarrow> g a)"
  by (cases r) auto

lemma safe_finally [safe_intros]: "safe m \<Longrightarrow> gives d \<Longrightarrow> safe (finally_u m d)"
  unfolding finally_u_def by (intro safe_intros gives_safe [OF gives_try] gives_safe [of d])

lemma safe_on_error [safe_intros]: "safe m \<Longrightarrow> gives d \<Longrightarrow> safe (on_error_u m d)"
  unfolding on_error_u_def by (intro safe_intros gives_safe [OF gives_try] gives_safe [of d])

lemma gives_ignore [safe_intros]: "safe m \<Longrightarrow> gives (ignore_u m)"
  unfolding ignore_u_def by (intro safe_intros)

subsection \<open>The parts of the stub\<close>

lemma gives_close [safe_intros]: "gives (close_protocol p d)"
  unfolding close_protocol_def by (intro safe_intros)

lemma safe_calls [safe_intros]:
  "safe (open_protocol_exclusive F p d)" "safe (get_handle_for_protocol F p)" "safe (get_variable F name vendor n)"
  "safe (set_variable F name vendor attrs v)" "safe (open_file_system F)" "safe (get_capability F)"
  "safe (hash_log_extend_event F pcr buf desc)"
  unfolding open_protocol_exclusive_def get_handle_for_protocol_def get_variable_def set_variable_def
    open_file_system_def get_capability_def hash_log_extend_event_def
  by (intro safe_intros)+

lemma safe_with_protocol [safe_intros]: "safe m \<Longrightarrow> safe (with_protocol F p d m)"
  unfolding with_protocol_def by (intro safe_intros)

lemma safe_open_capable_tpm2 [safe_intros]: "safe (open_capable_tpm2 F)"
  unfolding open_capable_tpm2_def by (intro safe_intros)

lemma gives_tpm_available [safe_intros]: "gives (tpm_available F)"
  unfolding tpm_available_def by (intro safe_intros)

lemma safe_tpm_log [safe_intros]: "safe (tpm_log_event_ascii F pcr buf desc)"
  unfolding tpm_log_event_ascii_def Let_def by (intro safe_intros gives_safe [OF gives_try])

lemma gives_counted [safe_intros]: "safe m \<Longrightarrow> gives (counted m n)"
  unfolding counted_def by (intro safe_intros)

lemma safe_measure_sections:
  "(\<And>name. section_data p name \<noteq> Panic) \<Longrightarrow> safe (measure_sections F p k i us n)"
  by (induction us arbitrary: n) (auto intro!: safe_intros gives_safe [OF gives_counted])

lemma safe_measure_image:
  assumes "from_pe_in_memory F i = Ok p" "\<And>name. section_data p name \<noteq> Panic"
  shows "safe (measure_image F i k r)"
  unfolding measure_image_def assms(1) bind_u_lift
  by (intro safe_intros safe_measure_sections assms(2))

lemma safe_get_loader_features [safe_intros]: "safe (get_loader_features F)"
  unfolding get_loader_features_def by (intro safe_intros gives_safe [OF gives_try]) (simp add: ok_or_eq)

lemma safe_ensure [safe_intros]: "safe v \<Longrightarrow> safe (ensure_efi_variable F name vendor attrs v)"
  unfolding ensure_efi_variable_def variable_exists_def
  by (intro safe_intros gives_safe [OF gives_try]) (auto split: status.splits intro: safe_intros)

lemma find_part_uuid_no_panic: "find_part_uuid ns \<noteq> Panic"
  by (induction ns rule: find_part_uuid.induct) (auto split: option.splits partition_signature.splits)

lemma safe_export [safe_intros]: "safe (export_efi_variables F name)"
  unfolding export_efi_variables_def part_uuid_value_def disk_get_part_uuid_def image_identifier_value_def
  by (intro safe_intros gives_safe [OF gives_ignore] find_part_uuid_no_panic)

lemma gives_secure_boot [safe_intros]: "gives (get_secure_boot_status F)"
proof -
  have "secure_boot_value d \<noteq> Panic" for d by (auto simp: secure_boot_value_def split: list.splits)
  then show ?thesis unfolding get_secure_boot_status_def by (intro safe_intros)
qed

lemma gives_get_load_options [safe_intros]: "gives (get_load_options F)"
  unfolding get_load_options_def by (intro safe_intros)

lemma gives_get_cmdline [safe_intros]: "gives (get_cmdline F e)"
  unfolding get_cmdline_def measure_boot_loader_def by (intro safe_intros)

subsection \<open>Companions\<close>

text \<open>Errors while looking for companions are swallowed; only a panic can keep them from a result.\<close>

definition no_fail :: "'a uefi \<Rightarrow> bool" where
  "no_fail m \<longleftrightarrow> (\<forall>h s. fst (m h) \<noteq> Fail s)"

lemma no_fail_pure: "no_fail (ret_u a)" "no_fail (emit e)" "no_fail (try_u m)"
  by (auto simp: no_fail_def ret_u_def emit_def try_u_def split: prod.splits flow.splits)

lemma no_fail_bind: "no_fail m \<Longrightarrow> (\<And>a. no_fail (f a)) \<Longrightarrow> no_fail (bind_u m f)"
  unfolding no_fail_def bind_u_def by (auto split: prod.splits flow.splits) (metis fst_conv)+

lemma no_fail_finally: "no_fail m \<Longrightarrow> no_fail d \<Longrightarrow> no_fail (finally_u m d)"
  unfolding no_fail_def finally_u_def bind_u_def try_u_def ret_u_def fail_u_def
  by (auto split: prod.splits flow.splits sum.splits) (metis fst_conv)+

lemma no_fail_collect_companions: "no_fail (collect_companions F i t)"
proof -
  have "no_fail (dropin_directory F i)"
    unfolding dropin_directory_def by (cases "pe_file_path i") (auto intro!: no_fail_bind no_fail_pure)
  moreover have "no_fail (found m)" for m unfolding found_def by (intro no_fail_bind no_fail_pure)
  moreover have "no_fail (if c then ignore_u m else ret_u ())" for c and m :: "'b uefi"
    unfolding ignore_u_def by (auto intro!: no_fail_bind no_fail_pure)
  ultimately show ?thesis
    unfolding collect_companions_def
    by (intro no_fail_bind no_fail_pure; simp split: sum.splits)
      (auto intro!: no_fail_finally no_fail_bind no_fail_pure split: option.splits)
qed

lemma companions_run: "safe (collect_companions F i t) \<Longrightarrow> gives (collect_companions F i t)"
  using no_fail_collect_companions [of F i t] unfolding safe_def gives_def no_fail_def by blast

lemma safe_measure_companions: "safe (measure_companions F cs c)"
proof (induction cs arbitrary: c)
  case (Cons x cs)
  then show ?case
    unfolding measure_companions.simps
    by (auto split: option.splits intro!: safe_intros gives_safe [OF gives_try])
qed (simp add: safe_intros)

lemma safe_measure_companion_initrds [safe_intros]: "safe (measure_companion_initrds F cs)"
  unfolding measure_companion_initrds_def by (intro safe_intros safe_measure_companions)

lemma no_companions_safe:
  assumes "image_device_path i = None" "\<And>h. fw_try_exists F h global_dropin_dir = Some False"
  shows "safe (collect_companions F i t)"
proof -
  have "bind_u (look (\<lambda>h. fw_try_exists F h global_dropin_dir)) f = f (Some False)" for f :: "_ \<Rightarrow> 'a uefi"
    using assms(2) by (auto simp: bind_u_def look_def)
  then have "gives (discover_credentials F None)"
    unfolding discover_credentials_def global_credentials_def
    by (auto simp: bind_u_def gives_def look_def emit_def ret_u_def assms(2))
  then have found: "gives (found (discover_credentials F None))"
    unfolding found_def by (intro safe_intros gives_safe)
  have dir: "dropin_directory F i = ret_u None"
    by (simp add: dropin_directory_def pe_file_path_def assms(1))
  show ?thesis
    unfolding collect_companions_def dir bind_u_ret option.case
    by (intro safe_intros gives_safe [OF gives_try] gives_safe [OF found] gives_safe [OF gives_if])
qed

subsection \<open>The path to the kernel\<close>

text \<open>
  What has to work for a boot: the image protocol and the file system open, the image names a kernel
  and an initrd that can be read and have the expected hashes, the kernel unpacks into allocated
  memory without relocations, the initrd can be offered, and the embedded and the passed command
  line are of a length that load options can have. Nothing is asked of the TPM or of the EFI variables.
\<close>

record boot_files =
  bf_image :: PeInMemory
  bf_pe :: ParsedPe
  bf_kernel :: bytes
  bf_initrd :: bytes
  bf_cmdline :: cstr16
  bf_unpacked :: bytes
  bf_entry :: u32

definition image_boots :: "firmware \<Rightarrow> boot_files \<Rightarrow> bool" where
  "image_boots F b \<longleftrightarrow>
     fw_init F \<and>
     (\<forall>h. fw_open F h LoadedImage (fw_image_handle F) = None \<and> fw_open_fs F h = None \<and>
          fw_image_info F h = (mem_base (bf_image b), mem_size (bf_image b)) \<and>
          fw_file_path F h = image_device_path (bf_image b)) \<and>
     from_pe_in_memory F (bf_image b) = Ok (bf_pe b) \<and> (\<forall>name. section_data (bf_pe b) name \<noteq> Panic) \<and>
     (\<exists>kf rf. extract_string F (bf_pe b) ''.linux'' = Ok kf \<and> extract_string F (bf_pe b) ''.initrd'' = Ok rf \<and>
        (\<forall>h. fw_read F h kf = Some (bf_kernel b) \<and> fw_read F h rf = Some (bf_initrd b))) \<and>
     extract_hash (bf_pe b) ''.linuxh'' = Ok (fw_sha256 F (bf_kernel b)) \<and>
     extract_hash (bf_pe b) ''.initrdh'' = Ok (fw_sha256 F (bf_initrd b)) \<and>
     extract_string F (bf_pe b) ''.cmdline'' = Ok (bf_cmdline b)"

definition kernel_boots :: "firmware \<Rightarrow> boot_files \<Rightarrow> bool" where
  "kernel_boots F b \<longleftrightarrow>
     (\<exists>pe lens. fw_parse_file F (bf_kernel b) = Some pe \<and> section_lengths (pe_sections pe) = Ok lens \<and>
        populate (bf_kernel b) (pe_sections pe) (replicate (unat (image_length lens)) (char_of (0 :: nat))) =
          Ok (bf_unpacked b) \<and>
        \<not> base_relocation_table pe \<and> pe_entry pe = bf_entry b \<and> unat (bf_entry b) < length (bf_unpacked b) \<and>
        (\<forall>h. \<exists>base. fw_allocate_pages F h (bytes_to_pages (image_length lens)) = Inr base)) \<and>
     (\<forall>h i. fw_install F h (fw_image_handle F) i = None) \<and>
     length (fw_cstr16_bytes F (bf_cmdline b)) < 2 ^ 32 \<and>
     (\<forall>h os. fw_load_options F h = Some os \<longrightarrow> length os < 2 ^ 32)"

lemma booted_image_file_runs:
  "image_boots F b \<Longrightarrow> \<exists>h'. booted_image_file F h = (Val (bf_image b), h')"
  by (auto simp: image_boots_def booted_image_file_def with_protocol_def open_protocol_exclusive_def
      close_protocol_def flow_simps)

lemma load_from_pe_success:
  assumes "from_pe_in_memory F i = Ok p" "extract_string F p ''.linux'' = Ok kf" "extract_string F p ''.initrd'' = Ok rf"
    "extract_hash p ''.linuxh'' = Ok (fw_sha256 F k)" "extract_hash p ''.initrdh'' = Ok (fw_sha256 F r)"
    "extract_string F p ''.cmdline'' = Ok c"
    "\<And>h. fw_open_fs F h = None" "\<And>h. fw_read F h kf = Some k" "\<And>h. fw_read F h rf = Some r"
  shows "\<exists>h'. load_from_pe F i h = (Val \<lparr>kernel_data = k, initrd_data = r, cmdline = c\<rparr>, h')"
proof -
  obtain sb h' where "get_secure_boot_status F
      (h @ [OpenFs True, ReadFile kf (Some k), ReadFile rf (Some r)]) = (Val sb, h')"
    using gives_run [OF gives_secure_boot] by blast
  with assms show ?thesis
    by (auto simp: load_from_pe_def flow_simps open_file_system_def read_file_def check_hash_def)
qed

lemma load_from_pe_runs:
  assumes "image_boots F b"
  shows "\<exists>h'. load_from_pe F (bf_image b) h =
    (Val \<lparr>kernel_data = bf_kernel b, initrd_data = bf_initrd b, cmdline = bf_cmdline b\<rparr>, h')"
proof -
  obtain kf rf where "extract_string F (bf_pe b) ''.linux'' = Ok kf" "extract_string F (bf_pe b) ''.initrd'' = Ok rf"
    "\<And>h. fw_read F h kf = Some (bf_kernel b)" "\<And>h. fw_read F h rf = Some (bf_initrd b)"
    using assms unfolding image_boots_def by blast
  then show ?thesis
    using assms unfolding image_boots_def by (intro load_from_pe_success) auto
qed

lemma prepare_runs:
  assumes "image_boots F b" "\<And>t. safe (collect_companions F (bf_image b) t)"
  shows "\<exists>dyn h'. prepare F nm h =
    (Val (\<lparr>kernel_data = bf_kernel b, initrd_data = bf_initrd b, cmdline = bf_cmdline b\<rparr>, dyn), h')"
proof -
  have init: "fw_init F" and pe: "from_pe_in_memory F (bf_image b) = Ok (bf_pe b)"
    "\<And>name. section_data (bf_pe b) name \<noteq> Panic"
    using assms(1) unfolding image_boots_def by blast+
  note measure = safe_measure_image [OF pe]
  let ?c = "\<lparr>kernel_data = bf_kernel b, initrd_data = bf_initrd b, cmdline = bf_cmdline b\<rparr>"
  obtain t h0 where t: "tpm_available F h = (Val t, h0)" using gives_run [OF gives_tpm_available] by blast
  obtain h1 where i: "booted_image_file F h0 = (Val (bf_image b), h1)"
    using booted_image_file_runs [OF assms(1)] by blast
  obtain h2 where c: "load_from_pe F (bf_image b) h1 = (Val ?c, h2)" using load_from_pe_runs [OF assms(1)] by blast
  have "gives (if t then ignore_u (measure_image F (bf_image b) (bf_kernel b) (bf_initrd b)) else ret_u ())"
    by (intro safe_intros measure)
  then obtain h3 where m: "(if t then ignore_u (measure_image F (bf_image b) (bf_kernel b) (bf_initrd b))
      else ret_u ()) h2 = (Val (), h3)" using gives_run by fastforce
  obtain h4 where f: "ignore_u (get_loader_features F) h3 = (Val (), h4)"
    using gives_run [OF gives_ignore [OF safe_get_loader_features]] by fastforce
  obtain h5 where v: "ignore_u (export_efi_variables F nm) h4 = (Val (), h5)"
    using gives_run [OF gives_ignore [OF safe_export]] by fastforce
  obtain dyn h6 where d: "collect_companions F (bf_image b) t h5 = (Val dyn, h6)"
    using gives_run [OF companions_run [OF assms(2)]] by blast
  show ?thesis
    using t i c m f v d init by (auto simp: prepare_def flow_simps)
qed

lemma get_cmdline_choice:
  assumes "get_cmdline F e h = (Val cmd, h')"
  shows "cmd = fw_cstr16_bytes F e \<or> (\<exists>g. fw_load_options F g = Some cmd)"
proof -
  have "\<exists>g. fw_load_options F g = Some d" if "get_load_options F h1 = (Val (Some d), h2)" for h1 h2 d
    using that by (auto simp: get_load_options_def with_protocol_def flow_simps)
  then show ?thesis
    using assms by (fastforce simp: get_cmdline_def flow_simps split: if_splits option.splits)
qed

lemma load_runs:
  assumes "kernel_boots F b"
  shows "\<exists>base h'. load F (bf_kernel b) h =
    (Val \<lparr>img_base = base, img_bytes = bf_unpacked b, img_entry = ucast (bf_entry b)\<rparr>, h')"
proof -
  obtain pe lens where k: "fw_parse_file F (bf_kernel b) = Some pe" "section_lengths (pe_sections pe) = Ok lens"
    "populate (bf_kernel b) (pe_sections pe) (replicate (unat (image_length lens)) (char_of (0 :: nat))) =
       Ok (bf_unpacked b)"
    "\<not> base_relocation_table pe" "pe_entry pe = bf_entry b" "unat (bf_entry b) < length (bf_unpacked b)"
    "\<And>h. \<exists>base. fw_allocate_pages F h (bytes_to_pages (image_length lens)) = Inr base"
    using assms unfolding kernel_boots_def by blast
  obtain base where "fw_allocate_pages F h (bytes_to_pages (image_length lens)) = Inr base" using k(7) by blast
  with k(1-6) show ?thesis by (simp add: load_def Let_def allocate_pages_def flow_simps)
qed

lemma start_runs:
  assumes "fw_open F h LoadedImage d = None" "length cmd < 2 ^ 32"
  shows "Start d (img_bytes i) (img_entry i) \<in> set (snd (start F i d cmd h))"
proof -
  let ?fin = "\<lambda>r. bind_u (close_protocol LoadedImage d) (\<lambda>_. case r of Inl s \<Rightarrow> fail_u s | Inr a \<Rightarrow> ret_u a)"
  have any: "emits (\<lambda>_. True) (close_protocol p d)" "emits (\<lambda>_. True) (restore_image F i a b os)" for p a b os
    unfolding close_protocol_def restore_image_def free_pages_def set_load_options_def
    by (intro emits_intros; simp)+
  let ?h1 = "h @ [Open LoadedImage d True]"
  let ?h3 = "?h1 @ [SetImage (img_base i) (of_nat (length (img_bytes i))), SetLoadOptions (Some cmd)]"
  obtain od os where info: "fw_image_info F ?h1 = (od, os)" by fastforce
  let ?restore = "\<lambda>status. bind_u (restore_image F i od os (fw_load_options F ?h1)) (\<lambda>_. ret_u status)"
  have short: "\<not> 2 ^ 32 \<le> int (length cmd)" using assms(2) by simp
  have held: "start_held F i d cmd ?h1 = bind_u (run_kernel F d i) ?restore ?h3"
    using info short by (simp add: start_held_def bind_u_def [of "look _"] bind_u_def [of "emit _"]
        bind_u_def [of "set_load_options _"] look_def emit_def set_load_options_def)
  have "emits (\<lambda>_. True) (?restore s)" for s by (intro emits_intros any)
  then obtain ev where "snd (start_held F i d cmd ?h1) = snd (run_kernel F d i ?h3) @ ev"
    unfolding held using bind_grows [of "\<lambda>_. True" ?restore] by blast
  moreover have "Start d (img_bytes i) (img_entry i) \<in> set (snd (run_kernel F d i ?h3))"
    by (auto simp: run_kernel_def split: option.splits)
  ultimately have "Start d (img_bytes i) (img_entry i) \<in> set (snd (start_held F i d cmd ?h1))" by simp
  moreover have "expect_u (open_protocol_exclusive F LoadedImage d) h = (Val (), ?h1)"
    using assms(1) by (simp add: flow_simps open_protocol_exclusive_def)
  then have "snd (start F i d cmd h) = snd (bind_u (try_u (start_held F i d cmd)) ?fin ?h1)"
    by (simp add: start_def finally_u_def bind_u_run)
  moreover have "emits (\<lambda>_. True) (?fin r)" for r :: "status + status" by (intro emits_intros any)
  then obtain ev' where "snd (bind_u (try_u (start_held F i d cmd)) ?fin ?h1) =
      snd (start_held F i d cmd ?h1) @ ev'"
    using bind_grows [of "\<lambda>_. True" ?fin "try_u (start_held F i d cmd)" ?h1] by (auto simp: event_of_try)
  ultimately show ?thesis by simp
qed

text \<open>What follows the call of the kernel.\<close>

abbreviation after_kernel :: "firmware \<Rightarrow> InitrdLoader \<Rightarrow> status \<Rightarrow> unit uefi" where
  "after_kernel F l status \<equiv>
     bind_u (on_error_u (uninstall F l) (drop_loader l)) (\<lambda>loader.
     bind_u (drop_loader loader) (\<lambda>_. if status = SUCCESS then ret_u () else fail_u status))"

text \<open>Boots that have what they need reach the kernel.\<close>

lemma boot_before_start:
  assumes "image_boots F b" "kernel_boots F b" "\<And>t. safe (collect_companions F (bf_image b) t)"
  obtains c dyn h4 k l cmd h7 where
    "stub_main F nm h = status_of (boot_linux F (fw_image_handle F) c dyn) h4"
    "boot_linux F (fw_image_handle F) c dyn h4 = bind_u (start F k (fw_image_handle F) cmd) (after_kernel F l) h7"
    "img_bytes k = bf_unpacked b" "img_entry k = ucast (bf_entry b)" "length cmd < 2 ^ 32" "registered l"
proof -
  let ?d = "fw_image_handle F"
  let ?c = "\<lparr>kernel_data = bf_kernel b, initrd_data = bf_initrd b, cmdline = bf_cmdline b\<rparr>"
  obtain dyn h4 where p: "prepare F nm h = (Val (?c, dyn), h4)" using prepare_runs [OF assms(1,3)] by blast
  let ?rd = "append_initrds (pad_to_4 (bf_initrd b)) dyn"
  obtain cmd h5 where cmd: "get_cmdline F (bf_cmdline b) h4 = (Val cmd, h5)"
    using gives_run [OF gives_get_cmdline] by blast
  have short: "length cmd < 2 ^ 32"
    using get_cmdline_choice [OF cmd] assms(2) unfolding kernel_boots_def by blast
  obtain base h6 where k: "expect_u (load F (bf_kernel b)) h5 =
      (Val \<lparr>img_base = base, img_bytes = bf_unpacked b, img_entry = ucast (bf_entry b)\<rparr>, h6)"
    using load_runs [OF assms(2), of h5] by (auto simp: flow_simps)
  obtain l h7 where l: "InitrdLoader_new F ?d ?rd h6 = (Val l, h7)" "registered l"
    using assms(2) by (auto simp: kernel_boots_def InitrdLoader_new_def install_protocol_interface_def flow_simps)
  let ?k = "\<lparr>img_base = base, img_bytes = bf_unpacked b, img_entry = ucast (bf_entry b)\<rparr>"
  have "boot_linux F ?d ?c dyn h4 = bind_u (start F ?k ?d cmd) (after_kernel F l) h7"
    using cmd k l by (simp add: boot_linux_def boot_linux_unchecked_def bind_u_run)
  moreover have "stub_main F nm h = status_of (boot_linux F ?d ?c dyn) h4"
    using p by (simp add: stub_main_def bind_u_run)
  ultimately show thesis using that [of ?c dyn h4 ?k cmd l h7] short l(2) by simp
qed

lemma boot_reaches_kernel:
  assumes "image_boots F b" "kernel_boots F b" "\<And>t. safe (collect_companions F (bf_image b) t)"
  shows "Start (fw_image_handle F) (bf_unpacked b) (ucast (bf_entry b)) \<in> set (snd (stub_main F nm h))"
proof (rule boot_before_start [OF assms])
  let ?d = "fw_image_handle F"
  fix c dyn h4 k l cmd h7
  assume main: "stub_main F nm h = status_of (boot_linux F ?d c dyn) h4"
    and boot: "boot_linux F ?d c dyn h4 = bind_u (start F k ?d cmd) (after_kernel F l) h7"
    and k: "img_bytes k = bf_unpacked b" "img_entry k = ucast (bf_entry b)" "length cmd < 2 ^ 32"
  have "fw_open F h7 LoadedImage ?d = None" using assms(1) unfolding image_boots_def by blast
  from start_runs [OF this k(3), of k] have "Start ?d (bf_unpacked b) (ucast (bf_entry b)) \<in> set (snd (start F k ?d cmd h7))"
    using k by simp
  moreover have "emits (\<lambda>e. \<not> is_start e) (after_kernel F l s)" for s by (intro emits_intros quiet_loader)
  then obtain ev where "snd (bind_u (start F k ?d cmd) (after_kernel F l) h7) = snd (start F k ?d cmd h7) @ ev"
    using bind_grows [of "\<lambda>e. \<not> is_start e" "after_kernel F l"] by blast
  ultimately show ?thesis using main boot by (simp add: snd_status_of)
qed

text \<open>A kernel that returns, on firmware that takes back what it gave, makes the stub return its status.\<close>

lemma start_returns:
  assumes "fw_open F h LoadedImage d = None" "length cmd < 2 ^ 32"
    "\<And>h os. fw_load_options F h = Some os \<Longrightarrow> length os < 2 ^ 32"
    "\<And>h. fw_kernel F h d (img_bytes k) (img_entry k) = Some s" "\<And>h a n. fw_free_pages F h a n = None"
  shows "\<exists>h'. start F k d cmd h = (Val s, h')"
proof -
  have opts: "\<exists>h'. set_load_options os h = (Val (), h')" if "\<And>d. os = Some d \<Longrightarrow> length d < 2 ^ 32" for os h
    using that by (cases os) (auto simp: set_load_options_def emit_def)
  have "\<exists>h'. restore_image F k a n (fw_load_options F g) h = (Val (), h')" for a n g h
    using opts [of "fw_load_options F g"] assms(3,5)
    by (auto simp: restore_image_def free_pages_def flow_simps)
  moreover have "\<exists>h'. set_load_options (Some cmd) h = (Val (), h')" for h using opts assms(2) by blast
  moreover have "\<exists>h'. run_kernel F d k h = (Val s, h')" for h using assms(4) by (simp add: run_kernel_def)
  ultimately have "\<exists>h'. start_held F k d cmd h = (Val s, h')" for h
    by (cases "fw_image_info F h") (simp add: start_held_def flow_simps, metis)
  then show ?thesis
    using assms(1) by (simp add: start_def open_protocol_exclusive_def close_protocol_def flow_simps)
qed

lemma stub_returns:
  assumes "image_boots F b" "kernel_boots F b" "\<And>t. safe (collect_companions F (bf_image b) t)"
    "\<And>h. fw_kernel F h (fw_image_handle F) (bf_unpacked b) (ucast (bf_entry b)) = Some s"
    "\<And>h a n. fw_free_pages F h a n = None" "\<And>h d i. fw_uninstall F h d i = None"
  shows "fst (stub_main F nm h) = Val s"
proof (rule boot_before_start [OF assms(1-3)])
  let ?d = "fw_image_handle F"
  fix c dyn h4 k l cmd h7
  assume main: "stub_main F nm h = status_of (boot_linux F ?d c dyn) h4"
    and boot: "boot_linux F ?d c dyn h4 = bind_u (start F k ?d cmd) (after_kernel F l) h7"
    and k: "img_bytes k = bf_unpacked b" "img_entry k = ucast (bf_entry b)" "length cmd < 2 ^ 32" "registered l"
  have "fw_open F h7 LoadedImage ?d = None" using assms(1) unfolding image_boots_def by blast
  moreover have "length os < 2 ^ 32" if "fw_load_options F h = Some os" for h os
    using assms(2) that unfolding kernel_boots_def by blast
  moreover have "fw_kernel F h ?d (img_bytes k) (img_entry k) = Some s" for h using assms(4) k by simp
  ultimately obtain h8 where st: "start F k ?d cmd h7 = (Val s, h8)"
    using start_returns [OF _ k(3) _ _ assms(5)] by blast
  have "\<exists>l' h9. uninstall F l h8 = (Val l', h9) \<and> \<not> registered l'"
    using k(4) assms(6) by (auto simp: uninstall_def uninstall_protocol_interface_def flow_simps)
  then obtain l' h9 where "on_error_u (uninstall F l) (drop_loader l) h8 = (Val l', h9)" "\<not> registered l'"
    by (auto simp: on_error_u_Val)
  then have "boot_linux F ?d c dyn h4 = (if s = SUCCESS then (Val (), h9) else (Fail s, h9))"
    using boot st by (simp add: bind_u_run drop_loader_def ret_u_def fail_u_def)
  then show ?thesis using main by (auto simp: status_of_def bind_u_def try_u_def ret_u_def split: if_splits)
qed

end
