(* ===== verification/Sample_Firmware.thy ===== *)
theory Sample_Firmware
  imports Stub_Progress
begin

text \<open>
  A concrete firmware on which the hypotheses of the stub's properties are met: an image with the five
  sections the stub reads, every variable reading as \<open>sb\<close>, a kernel and an initrd file with their hashes, a TPM, and a kernel that
  does not return.
\<close>

definition sample_hash :: "bytes \<Rightarrow> bytes" where
  "sample_hash d = take 32 (d @ replicate 32 CHR ''h'')"

definition sample_memory :: bytes where
  "sample_memory = ''k'' @ sample_hash ''KK'' @ ''i'' @ sample_hash ''I'' @ ''c''"

definition sample_section :: "string \<Rightarrow> u32 \<Rightarrow> u32 \<Rightarrow> section_table" where
  "sample_section name va n =
     \<lparr>sec_name = Some name, virtual_size = n, virtual_address = va, size_of_raw_data = n, pointer_to_raw_data = 0\<rparr>"

definition sample_pe :: loaded_pe where
  "sample_pe =
     \<lparr>pe_sections = [sample_section ''.cmdline'' 66 1, sample_section ''.linux'' 0 1, sample_section ''.linuxh'' 1 32,
        sample_section ''.initrd'' 33 1, sample_section ''.initrdh'' 34 32],
      pe_entry = 0, base_relocation_table = False\<rparr>"

definition sample_kernel_pe :: loaded_pe where
  "sample_kernel_pe = \<lparr>pe_sections = [sample_section ''.text'' 0 2], pe_entry = 1, base_relocation_table = False\<rparr>"

definition sample_read :: "cstr16 \<Rightarrow> bytes option" where
  "sample_read p = (if p = cstr16 ''k'' then Some ''KK'' else if p = cstr16 ''i'' then Some ''I'' else None)"

definition sample_firmware :: "status + bytes \<Rightarrow> firmware" where
  "sample_firmware sb =
     \<lparr>fw_handle_for = (\<lambda>_ _. Inr 7), fw_open = (\<lambda>_ _ _. None), fw_tpm_present = (\<lambda>_. Inr True),
      fw_event_inputs = (\<lambda>_ _. None), fw_hash_log_extend = (\<lambda>_ _ _ _. None),
      fw_get_variable = (\<lambda>_ _ _ _. sb), fw_set_variable = (\<lambda>_ _ _ _ _. None),
      fw_image_handle = 1, fw_image_info = (\<lambda>_. (0, 67)),
      fw_memory = (\<lambda>a. if a < length sample_memory then sample_memory ! a else char_of (0 :: nat)),
      fw_file_path = (\<lambda>_. None), fw_device = (\<lambda>_. None), fw_load_options = (\<lambda>_. Some ''x''),
      fw_device_path_nodes = (\<lambda>_ _. []), fw_guid_to_string = (\<lambda>g. g),
      fw_path_to_text = (\<lambda>_ _. Inl UNSUPPORTED), fw_path_to_string16 = (\<lambda>_ _. None), fw_vendor = ''v'',
      fw_revision = 0x10000, fw_uefi_revision_text = ''2.100'', fw_open_fs = (\<lambda>_. None),
      fw_read = (\<lambda>_. sample_read), fw_read_dir = (\<lambda>_ _. Some []), fw_is_directory = (\<lambda>_ _. Some False),
      fw_try_exists = (\<lambda>_ _. Some False), fw_basename = (\<lambda>_. None),
      fw_allocate_pages = (\<lambda>_ _. Inr 4096), fw_free_pages = (\<lambda>_ _ _. None),
      fw_install = (\<lambda>_ _ _. None), fw_uninstall = (\<lambda>_ _ _. None), fw_kernel = (\<lambda>_ _ _ _. None),
      fw_init = True, fw_parse_in_memory = (\<lambda>_. Some sample_pe), fw_parse_file = (\<lambda>_. Some sample_kernel_pe),
      fw_sha256 = sample_hash, fw_cstring16 = (\<lambda>s. Some (cstr16 s)),
      fw_cstr16_bytes = (\<lambda>s. utf16_le (s @ [0])), fw_cstr16_text = (\<lambda>s. map (\<lambda>u. char_of (unat u)) s),
      fw_cstr16_is_ascii = list_all (\<lambda>u. u < 128)\<rparr>"

abbreviation sample_run :: "status + bytes \<Rightarrow> history" where
  "sample_run sb \<equiv> snd (stub_main (sample_firmware sb) ''lanzastub'' [])"

definition sample_files :: boot_files where
  "sample_files =
     \<lparr>bf_image = \<lparr>image_device_path = None, mem_base = 0, mem_size = 67\<rparr>,
      bf_pe = \<lparr>pe_data = sample_memory, parsed = sample_pe\<rparr>, bf_kernel = ''KK'', bf_initrd = ''I'',
      bf_cmdline = cstr16 ''c'', bf_unpacked = ''KK'', bf_entry = 1\<rparr>"

lemma section_data_in_range:
  assumes "list_all (\<lambda>s. unat (virtual_address s) + unat (min (virtual_size s) (size_of_raw_data s)) \<le> length (pe_data p))
    (pe_sections (parsed p))"
  shows "section_data p name \<noteq> Panic"
proof (cases "find (\<lambda>s. sec_name s = Some name) (pe_sections (parsed p))")
  case (Some s)
  then have "s \<in> set (pe_sections (parsed p))" by (auto simp: find_Some_iff)
  with Some assms show ?thesis
    by (auto simp: section_data_def read_data_from_section_table_def Let_def list_all_iff)
qed (simp add: section_data_def)

lemma sample_from_pe:
  "from_pe_in_memory (sample_firmware sb) (bf_image sample_files) =
     Ok \<lparr>pe_data = sample_memory, parsed = sample_pe\<rparr>"
proof -
  have "length sample_memory = 67" by code_simp
  then have "as_slice (sample_firmware sb) (bf_image sample_files) = sample_memory"
    by (auto simp: as_slice_def sample_firmware_def sample_files_def intro!: nth_equalityI)
  then show ?thesis by (simp add: from_pe_in_memory_def sample_firmware_def)
qed

lemma sample_no_panic: "section_data \<lparr>pe_data = sample_memory, parsed = sample_pe\<rparr> name \<noteq> Panic"
  by (rule section_data_in_range) code_simp

lemma sample_image_boots: "image_boots (sample_firmware sb) sample_files"
proof -
  let ?p = "\<lparr>pe_data = sample_memory, parsed = sample_pe\<rparr>"
  have "extract_string (sample_firmware sb) ?p ''.linux'' = Ok (cstr16 ''k'')"
    "extract_string (sample_firmware sb) ?p ''.initrd'' = Ok (cstr16 ''i'')"
    "extract_hash ?p ''.linuxh'' = Ok (sample_hash ''KK'')" "extract_hash ?p ''.initrdh'' = Ok (sample_hash ''I'')"
    "extract_string (sample_firmware sb) ?p ''.cmdline'' = Ok (cstr16 ''c'')"
    "sample_read (cstr16 ''k'') = Some ''KK''" "sample_read (cstr16 ''i'') = Some ''I''"
    by code_simp+
  with sample_from_pe sample_no_panic show ?thesis
    by (simp add: image_boots_def sample_files_def) (simp add: sample_firmware_def)
qed

lemma sample_kernel_boots: "kernel_boots (sample_firmware sb) sample_files"
proof -
  have "section_lengths (pe_sections sample_kernel_pe) = Ok [2]"
    "populate ''KK'' (pe_sections sample_kernel_pe) (replicate (unat (image_length [2])) (char_of (0 :: nat))) = Ok ''KK''"
    by code_simp+
  then show ?thesis
    by (auto simp: kernel_boots_def sample_firmware_def sample_files_def sample_kernel_pe_def cstr16_def utf16_le_def)
qed

lemma sample_companions: "safe (collect_companions (sample_firmware sb) (bf_image sample_files) t)"
  by (rule no_companions_safe) (simp_all add: sample_files_def sample_firmware_def)

lemma sample_starts: "Start 1 ''KK'' 1 \<in> set (sample_run sb)"
  using boot_reaches_kernel [OF sample_image_boots sample_kernel_boots sample_companions]
  by (simp add: sample_files_def sample_firmware_def)

end
