(* ===== verification/Stub_Properties.thy ===== *)
theory Stub_Properties
  imports Sample_Firmware
begin

text \<open>
  Properties of the boot stub: only verified kernels and initrds are started, the command line is
  the embedded one under Secure Boot and a foreign one is measured first, and a mismatching hash
  stops the boot.
\<close>

subsection \<open>Components\<close>

text \<open>The components the stub may boot: file names and hashes come from the sections of the image.\<close>

definition verified_components :: "firmware \<Rightarrow> ParsedPe \<Rightarrow> UkiComponents \<Rightarrow> history \<Rightarrow> bool" where
  "verified_components F p c h \<longleftrightarrow>
     (\<exists>kf rf. extract_string F p ''.linux'' = Ok kf \<and> extract_hash p ''.linuxh'' = Ok (fw_sha256 F (kernel_data c)) \<and>
        extract_string F p ''.initrd'' = Ok rf \<and> extract_hash p ''.initrdh'' = Ok (fw_sha256 F (initrd_data c)) \<and>
        extract_string F p ''.cmdline'' = Ok (cmdline c) \<and>
        ReadFile kf (Some (kernel_data c)) \<in> set h \<and> ReadFile rf (Some (initrd_data c)) \<in> set h)"

lemma read_file_Val: "read_file F p h = (Val d, h') \<longleftrightarrow> fw_read F h p = Some d \<and> h' = h @ [ReadFile p (Some d)]"
  by (auto simp: read_file_def flow_simps split: option.splits)

lemma check_hash_Ok: "check_hash F d x = Ok u \<longleftrightarrow> x = fw_sha256 F d"
  by (auto simp: check_hash_def)

lemma verified_mono: "verified_components F p c h \<Longrightarrow> set h \<subseteq> set h' \<Longrightarrow> verified_components F p c h'"
  by (auto simp: verified_components_def)

lemma load_from_pe_Val:
  assumes "load_from_pe F i h = (Val c, h')"
  shows "\<exists>p. from_pe_in_memory F i = Ok p \<and> verified_components F p c h'"
proof -
  obtain p kf kh rf rh cmd h1 h2 h3 k r u where
    run: "from_pe_in_memory F i = Ok p" "extract_string F p ''.linux'' = Ok kf" "extract_hash p ''.linuxh'' = Ok kh"
    "extract_string F p ''.initrd'' = Ok rf" "extract_hash p ''.initrdh'' = Ok rh"
    "extract_string F p ''.cmdline'' = Ok cmd"
    "read_file F kf h1 = (Val k, h2)" "read_file F rf h2 = (Val r, h3)"
    "get_secure_boot_status F h3 = (Val u, butlast h')"
    "kh = fw_sha256 F k" "rh = fw_sha256 F r"
    "c = \<lparr>kernel_data = k, initrd_data = r, cmdline = cmd\<rparr>" "h' \<noteq> []"
    using assms by (fastforce simp: load_from_pe_def flow_simps check_hash_Ok)
  have "prefix h3 (butlast h')" using emits_prefix [OF quiet.emits_secure_boot run(9)] .
  then have "set h3 \<subseteq> set h'" using set_mono_prefix in_set_butlastD by (metis subsetD subsetI)
  then show ?thesis
    using run(1-8,10-12) by (force simp: verified_components_def read_file_Val)
qed

subsection \<open>The image of the kernel\<close>

lemma load_Val:
  assumes "load F d h = (Val k, h')"
  shows "\<exists>pe lens. fw_parse_file F d = Some pe \<and> section_lengths (pe_sections pe) = Ok lens \<and>
    populate d (pe_sections pe) (replicate (unat (image_length lens)) (char_of (0 :: nat))) = Ok (img_bytes k) \<and>
    unat (pe_entry pe) < length (img_bytes k) \<and> img_entry k = ucast (pe_entry pe) \<and> \<not> base_relocation_table pe \<and>
    h' = h @ [AllocatePages (bytes_to_pages (image_length lens))]"
  using assms
  by (auto simp: load_def Let_def flow_simps outcome_simps allocate_pages_def split: if_splits)

text \<open>The image a kernel file unpacks to, and its entry point.\<close>

definition unpacks_to :: "firmware \<Rightarrow> bytes \<Rightarrow> bytes \<Rightarrow> usize \<Rightarrow> bool" where
  "unpacks_to F d img entry \<longleftrightarrow>
     (\<exists>pe lens. fw_parse_file F d = Some pe \<and> section_lengths (pe_sections pe) = Ok lens \<and>
        populate d (pe_sections pe) (replicate (unat (image_length lens)) (char_of (0 :: nat))) = Ok img \<and>
        unat entry < length img \<and> entry = ucast (pe_entry pe))"

lemma load_unpacks: "load F d h = (Val k, h') \<Longrightarrow> unpacks_to F d (img_bytes k) (img_entry k)"
  using load_Val [of F d h k h'] unfolding unpacks_to_def by auto

subsection \<open>Verified boot\<close>

lemma InitrdLoader_new_Val:
  "InitrdLoader_new F d r h = (Val l, h') \<Longrightarrow>
     l = \<lparr>loader_initrd = r, loader_handle = d, registered = True\<rparr> \<and>
     h' = h @ [Install d (DevicePathInterface DEVICE_PATH_PROTOCOL) True, Install d (LoadFile2Interface r) True]"
  by (auto simp: InitrdLoader_new_def install_protocol_interface_def flow_simps)

lemma boots_facts:
  assumes "boots F i c dyn cmd k h'"
  shows "\<exists>p. from_pe_in_memory F i = Ok p \<and> verified_components F p c h' \<and>
    unpacks_to F (kernel_data c) (img_bytes k) (img_entry k) \<and>
    Install (fw_image_handle F) (LoadFile2Interface (append_initrds (pad_to_4 (initrd_data c)) dyn)) True \<in> set h'"
proof -
  obtain h0 h1 h2 h3 h4 h5 h6 t l where run: "load_from_pe F i h1 = (Val c, h2)" "prefix h2 h3"
    "collect_companions F i t h3 = (Val dyn, h4)" "get_cmdline F (cmdline c) h4 = (Val cmd, h5)"
    "load F (kernel_data c) h5 = (Val k, h6)"
    "InitrdLoader_new F (fw_image_handle F) (append_initrds (pad_to_4 (initrd_data c)) dyn) h6 = (Val l, h')"
    using assms unfolding boots_def by blast
  have "prefix h3 h4" "prefix h4 h5" "prefix h5 h6" "prefix h6 h'"
    using emits_prefix [OF quiet.emits_collect_companions run(3)] emits_prefix [OF quiet.emits_get_cmdline run(4)]
      emits_prefix [OF quiet_load run(5)] emits_prefix [OF quiet_loader(1) run(6)] .
  then have "set h2 \<subseteq> set h'" using run(2) set_mono_prefix by blast
  then show ?thesis
    using load_from_pe_Val [OF run(1)] verified_mono load_unpacks [OF run(5)] InitrdLoader_new_Val [OF run(6)]
    by fastforce
qed

lemma booted_image_file_Val:
  "booted_image_file F h = (Val i, h') \<Longrightarrow> \<exists>g. fw_image_info F g = (mem_base i, mem_size i)"
  by (cases "fw_image_info F (h @ [Open LoadedImage (fw_image_handle F) True])")
    (auto simp: booted_image_file_def with_protocol_def open_protocol_exclusive_def flow_simps)

text \<open>
  C1: Whatever the firmware does, a kernel is started only after the checks. If the stub starts an
  image, then its own image in memory parses, the sections .linux and .initrd name files that were read, the
  hashes of exactly the bytes read are those in .linuxh and .initrdh, the started image and its entry point
  are what those kernel bytes unpack to, and the initrd offered to the kernel begins with those initrd bytes,
  followed only by the padded companion archives.\<close>

theorem stub_starts_only_verified:
  assumes "Start d img entry \<in> set (snd (stub_main F nm []))"
  shows "\<exists>i p c dyn pre post. (\<exists>g. fw_image_info F g = (mem_base i, mem_size i)) \<and> from_pe_in_memory F i = Ok p \<and>
    snd (stub_main F nm []) = pre @ [Start d img entry] @ post \<and> verified_components F p c pre \<and>
    unpacks_to F (kernel_data c) img entry \<and>
    (\<exists>t h h'. collect_companions F i t h = (Val dyn, h')) \<and>
    Install d (LoadFile2Interface (append_initrds (pad_to_4 (initrd_data c)) dyn)) True \<in> set pre"
proof (rule stub_start [OF assms])
  fix i c dyn cmd k h' sz post
  assume b: "boots F i c dyn cmd k h'" "d = fw_image_handle F" "img = img_bytes k" "entry = img_entry k"
    and run: "snd (stub_main F nm []) = h' @ [Open LoadedImage d True, SetImage (img_base k) sz,
      SetLoadOptions (Some cmd), Start d img entry] @ post"
  let ?pre = "h' @ [Open LoadedImage d True, SetImage (img_base k) sz, SetLoadOptions (Some cmd)]"
  obtain p where "from_pe_in_memory F i = Ok p" "verified_components F p c h'"
    "unpacks_to F (kernel_data c) img entry"
    "Install d (LoadFile2Interface (append_initrds (pad_to_4 (initrd_data c)) dyn)) True \<in> set h'"
    using boots_facts [OF b(1)] b(2-4) by blast
  moreover from this(2) have "verified_components F p c ?pre" by (rule verified_mono) auto
  moreover have "\<exists>g. fw_image_info F g = (mem_base i, mem_size i)"
    using b(1) booted_image_file_Val unfolding boots_def by blast
  moreover have "\<exists>t h h'. collect_companions F i t h = (Val dyn, h')"
    using b(1) unfolding boots_def by blast
  moreover have "snd (stub_main F nm []) = ?pre @ [Start d img entry] @ post" using run by simp
  ultimately show ?thesis by (intro exI [of _ i] exI [of _ p] exI [of _ c] exI [of _ dyn] exI [of _ ?pre] exI [of _ post]) auto
qed

theorem stub_starts_only_verified_witness:
  "\<exists>(c :: UkiComponents) pre post. sample_run (Inl NOT_FOUND) = pre @ [Start 1 ''KK'' 1] @ post \<and>
     unpacks_to (sample_firmware (Inl NOT_FOUND)) (kernel_data c) ''KK'' 1"
  using stub_starts_only_verified [OF sample_starts] by blast

subsection \<open>The command line\<close>

text \<open>The firmware says that Secure Boot is off: the variable is zero or there is none.\<close>

definition secure_boot_off :: "firmware \<Rightarrow> history \<Rightarrow> bool" where
  "secure_boot_off F h \<longleftrightarrow>
     fw_get_variable F h ''SecureBoot'' EFI_GLOBAL_VARIABLE 1 \<in> {Inl NOT_FOUND, Inr [char_of (0 :: nat)]}"

lemma get_secure_boot_status_run:
  "get_secure_boot_status F h =
     (Val (\<not> secure_boot_off F h), h @ [GetVariable ''SecureBoot'' EFI_GLOBAL_VARIABLE])"
  by (auto simp: get_secure_boot_status_def secure_boot_off_def secure_boot_value_def get_variable_def bind_u_def
      try_u_def call_def ret_u_def fail_u_def lift_u_def Let_def
      split: sum.splits list.splits prod.splits flow.splits outcome.splits if_splits)

lemma get_cmdline_secure:
  assumes "\<And>h. \<not> secure_boot_off F h" "get_cmdline F e h = (Val cmd, h')"
  shows "cmd = fw_cstr16_bytes F e"
  using assms by (auto simp: get_cmdline_def flow_simps get_secure_boot_status_run)

lemma stub_start_cmdline:
  assumes "Start d img entry \<in> set (snd (stub_main F nm []))"
  obtains i p c cmd h1 h2 pre post where "fw_image_info F h1 = (mem_base i, mem_size i)"
    "from_pe_in_memory F i = Ok p" "extract_string F p ''.cmdline'' = Ok c"
    "get_cmdline F c h2 = (Val cmd, pre)" "\<exists>mid. snd (stub_main F nm []) =
      pre @ mid @ [SetLoadOptions (Some cmd), Start d img entry] @ post"
proof (rule stub_start [OF assms])
  fix i c dyn cmd k h' sz post
  assume b: "boots F i c dyn cmd k h'" and run: "snd (stub_main F nm []) = h' @ [Open LoadedImage d True,
      SetImage (img_base k) sz, SetLoadOptions (Some cmd), Start d img entry] @ post"
  obtain h0 h1 h2 h4 h5 h6 l where st: "booted_image_file F h0 = (Val i, h1)" "load_from_pe F i h1 = (Val c, h2)"
    "get_cmdline F (cmdline c) h4 = (Val cmd, h5)" "load F (kernel_data c) h5 = (Val k, h6)"
    "InitrdLoader_new F (fw_image_handle F) (append_initrds (pad_to_4 (initrd_data c)) dyn) h6 = (Val l, h')"
    using b unfolding boots_def by blast
  obtain p where p: "from_pe_in_memory F i = Ok p" "extract_string F p ''.cmdline'' = Ok (cmdline c)"
    using load_from_pe_Val [OF st(2)] unfolding verified_components_def by blast
  have "prefix h5 h'"
    using emits_prefix [OF quiet_load st(4)] emits_prefix [OF quiet_loader(1) st(5)] by simp
  then obtain m where "h' = h5 @ m" by (auto simp: prefix_def)
  moreover obtain g where "fw_image_info F g = (mem_base i, mem_size i)" using booted_image_file_Val [OF st(1)] by blast
  ultimately show thesis
    using that [of g i p "cmdline c" h4 cmd h5 post] p st(3) run by (auto simp: append_eq_append_conv2)
qed

text \<open>
  C2: Unless the firmware says that Secure Boot is off, a kernel is only ever started with the command line
  embedded in the image; load options passed by the boot loader are ignored. An unreadable or malformed
  SecureBoot variable counts as on.\<close>

theorem stub_secure_boot_cmdline:
  assumes "\<And>h. \<not> secure_boot_off F h" "Start d img entry \<in> set (snd (stub_main F nm []))"
  shows "\<exists>i p c h pre post. fw_image_info F h = (mem_base i, mem_size i) \<and> from_pe_in_memory F i = Ok p \<and>
    extract_string F p ''.cmdline'' = Ok c \<and>
    snd (stub_main F nm []) = pre @ [SetLoadOptions (Some (fw_cstr16_bytes F c)), Start d img entry] @ post"
proof (rule stub_start_cmdline [OF assms(2)])
  fix i p c cmd h1 h2 pre post
  assume a: "fw_image_info F h1 = (mem_base i, mem_size i)" "from_pe_in_memory F i = Ok p"
    "extract_string F p ''.cmdline'' = Ok c" "get_cmdline F c h2 = (Val cmd, pre)"
    and "\<exists>mid. snd (stub_main F nm []) = pre @ mid @ [SetLoadOptions (Some cmd), Start d img entry] @ post"
  then obtain mid where "snd (stub_main F nm []) =
      (pre @ mid) @ [SetLoadOptions (Some cmd), Start d img entry] @ post" by auto
  moreover have "cmd = fw_cstr16_bytes F c" using get_cmdline_secure [OF assms(1) a(4)] .
  ultimately show ?thesis using a(1-3) by blast
qed

theorem stub_secure_boot_cmdline_witness:
  "\<exists>c pre post. sample_run (Inr [char_of (1 :: nat)]) =
     pre @ [SetLoadOptions (Some (fw_cstr16_bytes (sample_firmware (Inr [char_of (1 :: nat)])) c)), Start 1 ''KK'' 1] @ post"
proof -
  have "\<not> secure_boot_off (sample_firmware (Inr [char_of (1 :: nat)])) h" for h
    by (simp add: secure_boot_off_def sample_firmware_def)
  from stub_secure_boot_cmdline [OF this sample_starts] show ?thesis by blast
qed

text \<open>A TPM that can be opened; nothing is said about whether it accepts measurements.\<close>

definition tpm_usable :: "firmware \<Rightarrow> bool" where
  "tpm_usable F \<longleftrightarrow>
     (\<forall>h. \<exists>t. fw_handle_for F h Tcg = Inr t \<and> (\<forall>h. fw_open F h Tcg t = None) \<and> fw_tpm_present F h = Inr True)"

lemma tpm_usable_opens:
  assumes "tpm_usable F"
  shows "\<exists>t. open_capable_tpm2 F h = (Val t, h @ [GetHandle Tcg, Open Tcg t True, GetCapability])"
proof -
  obtain t where t: "fw_handle_for F h Tcg = Inr t" "\<And>h. fw_open F h Tcg t = None"
    using assms unfolding tpm_usable_def by metis
  moreover have "fw_tpm_present F g = Inr True" for g using assms unfolding tpm_usable_def by metis
  ultimately show ?thesis
    by (auto simp: open_capable_tpm2_def get_handle_for_protocol_def open_protocol_exclusive_def get_capability_def
        flow_simps)
qed

lemma tpm_log_Val:
  assumes "tpm_usable F" "tpm_log_event_ascii F pcr buf desc h = (Val u, h')"
  shows "\<exists>t. h' = h @ [GetHandle Tcg, Open Tcg t True, GetCapability,
    HashLogExtend pcr buf (utf16_le (encode_utf16 desc)) True, Close Tcg t]"
proof -
  obtain t where t: "open_capable_tpm2 F h = (Val t, h @ [GetHandle Tcg, Open Tcg t True, GetCapability])"
    using tpm_usable_opens [OF assms(1)] by blast
  then show ?thesis
    using assms(2)
    by (auto simp: tpm_log_event_ascii_def flow_simps close_protocol_def hash_log_extend_event_def Let_def
        split: if_splits option.splits)
qed

lemma get_cmdline_measured:
  assumes "tpm_usable F" "get_cmdline F e h = (Val cmd, h')" "cmd \<noteq> fw_cstr16_bytes F e"
  shows "HashLogExtend TPM_PCR_INDEX_BOOT_LOADER cmd
    (utf16_le (encode_utf16 ''Custom user provided kernel cmdline'')) True \<in> set h'"
proof -
  obtain g where "measure_boot_loader F cmd ''Custom user provided kernel cmdline'' g = (Val (), h')"
    using assms(2,3) by (auto simp: get_cmdline_def flow_simps split: if_splits option.splits)
  then show ?thesis
    using tpm_log_Val [OF assms(1)] unfolding measure_boot_loader_def by fastforce
qed

text \<open>
  C27: With a TPM, a kernel that is started with a command line other than the embedded one is started after
  that command line was successfully measured into PCR 4.\<close>

theorem stub_custom_cmdline_measured:
  assumes "tpm_usable F" "Start d img entry \<in> set (snd (stub_main F nm []))"
  shows "\<exists>i p c h cmd pre post. fw_image_info F h = (mem_base i, mem_size i) \<and> from_pe_in_memory F i = Ok p \<and>
    extract_string F p ''.cmdline'' = Ok c \<and>
    snd (stub_main F nm []) = pre @ [SetLoadOptions (Some cmd), Start d img entry] @ post \<and>
    (cmd = fw_cstr16_bytes F c \<or>
     HashLogExtend TPM_PCR_INDEX_BOOT_LOADER cmd
       (utf16_le (encode_utf16 ''Custom user provided kernel cmdline'')) True \<in> set pre)"
proof (rule stub_start_cmdline [OF assms(2)])
  fix i p c cmd h1 h2 pre post
  assume a: "fw_image_info F h1 = (mem_base i, mem_size i)" "from_pe_in_memory F i = Ok p"
    "extract_string F p ''.cmdline'' = Ok c" "get_cmdline F c h2 = (Val cmd, pre)"
    and "\<exists>mid. snd (stub_main F nm []) = pre @ mid @ [SetLoadOptions (Some cmd), Start d img entry] @ post"
  then obtain mid where run: "snd (stub_main F nm []) =
      (pre @ mid) @ [SetLoadOptions (Some cmd), Start d img entry] @ post" by auto
  have "cmd = fw_cstr16_bytes F c \<or> HashLogExtend TPM_PCR_INDEX_BOOT_LOADER cmd
      (utf16_le (encode_utf16 ''Custom user provided kernel cmdline'')) True \<in> set (pre @ mid)"
    using get_cmdline_measured [OF assms(1) a(4)] by auto
  with run a(1-3) show ?thesis by blast
qed

theorem stub_custom_cmdline_measured_witness:
  "\<exists>cmd pre post. sample_run (Inl NOT_FOUND) = pre @ [SetLoadOptions (Some cmd), Start 1 ''KK'' 1] @ post"
proof -
  have "tpm_usable (sample_firmware (Inl NOT_FOUND))" by (simp add: tpm_usable_def sample_firmware_def)
  from stub_custom_cmdline_measured [OF this sample_starts] show ?thesis by blast
qed

subsection \<open>Reaching the kernel\<close>



subsection \<open>Mismatching hashes\<close>

lemma load_from_pe_mismatch:
  assumes "from_pe_in_memory F i = Ok p" "extract_string F p ''.linux'' = Ok kf" "extract_hash p ''.linuxh'' = Ok kh"
    "extract_string F p ''.initrd'' = Ok rf" "extract_hash p ''.initrdh'' = Ok rh" "extract_string F p ''.cmdline'' = Ok c"
    "\<And>h. fw_open_fs F h = None" "\<And>h. fw_read F h kf = Some k" "\<And>h. fw_read F h rf = Some r"
    "fw_sha256 F k \<noteq> kh \<or> fw_sha256 F r \<noteq> rh"
  shows "fst (load_from_pe F i h) = Fail SECURITY_VIOLATION"
proof -
  let ?h = "h @ [OpenFs True, ReadFile kf (Some k), ReadFile rf (Some r)]"
  have opened: "expect_u (open_file_system F) h = (Val (), h @ [OpenFs True])"
    using assms(7) by (simp add: flow_simps open_file_system_def)
  have reads: "read_file F kf (h @ [OpenFs True]) = (Val k, h @ [OpenFs True, ReadFile kf (Some k)])"
    "read_file F rf (h @ [OpenFs True, ReadFile kf (Some k)]) = (Val r, ?h)"
    using assms(8,9) by (simp_all add: read_file_Val)
  let ?body = "bind_u (read_file F kf) (\<lambda>k. bind_u (read_file F rf) (\<lambda>r.
      bind_u (get_secure_boot_status F) (\<lambda>_. bind_u (lift_u (check_hash F k kh)) (\<lambda>_.
      bind_u (lift_u (check_hash F r rh)) (\<lambda>_. ret_u \<lparr>kernel_data = k, initrd_data = r, cmdline = c\<rparr>)))))"
  have checks: "bind_u (lift_u (check_hash F k kh)) (\<lambda>_. bind_u (lift_u (check_hash F r rh)) f) g =
      (Fail SECURITY_VIOLATION, g)" for f :: "unit \<Rightarrow> UkiComponents uefi" and g
    using assms(10) by (auto simp: check_hash_def bind_u_def lift_u_def fail_u_def ret_u_def)
  have "?body (h @ [OpenFs True]) =
      (Fail SECURITY_VIOLATION, ?h @ [GetVariable ''SecureBoot'' EFI_GLOBAL_VARIABLE])"
    using reads by (simp add: bind_u_run get_secure_boot_status_run checks)
  then show ?thesis
    using assms(1-6) opened
    by (simp add: load_from_pe_def bind_u_run finally_u_def try_u_def)
      (simp add: bind_u_def emit_def fail_u_def try_u_def)
qed

lemma prepare_panics:
  assumes "fw_init F" "\<And>h. fst (load_from_pe F i h) = Fail s"
    "\<And>h. \<exists>h'. booted_image_file F h = (Val i, h')"
  shows "fst (prepare F nm h) = Panicked"
proof -
  obtain t h0 where t: "tpm_available F h = (Val t, h0)" using gives_run [OF gives_tpm_available] by blast
  obtain h1 where i: "expect_u (booted_image_file F) h0 = (Val i, h1)" using assms(3) by (auto simp: flow_simps)
  have "fst (expect_u (load_from_pe F i) h1) = Panicked"
    using assms(2) [of h1]
    by (cases "load_from_pe F i h1") (simp add: expect_u_def bind_u_def try_u_def panic_u_def)
  then show ?thesis
    using assms(1) t i by (cases "expect_u (load_from_pe F i) h1")
      (simp add: prepare_def bind_u_run, simp add: bind_u_def)
qed

text \<open>
  C29: A wrong hash stops the boot. If the hash of the kernel or initrd file differs from the one in the image, loading
  fails with SECURITY_VIOLATION, and the stub panics without starting anything.\<close>

theorem stub_stops_on_wrong_hash:
  assumes "fw_init F" "\<And>h. fw_open F h LoadedImage (fw_image_handle F) = None"
    "\<And>h. fw_image_info F h = (mem_base i, mem_size i)" "\<And>h. fw_file_path F h = image_device_path i"
    "from_pe_in_memory F i = Ok p" "extract_string F p ''.linux'' = Ok kf" "extract_hash p ''.linuxh'' = Ok kh"
    "extract_string F p ''.initrd'' = Ok rf" "extract_hash p ''.initrdh'' = Ok rh" "extract_string F p ''.cmdline'' = Ok c"
    "\<And>h. fw_open_fs F h = None" "\<And>h. fw_read F h kf = Some k" "\<And>h. fw_read F h rf = Some r"
    "fw_sha256 F k \<noteq> kh \<or> fw_sha256 F r \<noteq> rh"
  shows "fst (load_from_pe F i h) = Fail SECURITY_VIOLATION \<and>
    fst (stub_main F nm h) = Panicked \<and> (is_start e \<longrightarrow> e \<in> set (snd (stub_main F nm h)) \<longrightarrow> e \<in> set h)"
proof -
  have fails: "fst (load_from_pe F i g) = Fail SECURITY_VIOLATION" for g
    using load_from_pe_mismatch [OF assms(5-14)] .
  have "\<exists>h'. booted_image_file F g = (Val i, h')" for g
    using assms(2-4) by (auto simp: booted_image_file_def with_protocol_def open_protocol_exclusive_def
        close_protocol_def flow_simps)
  note panics = prepare_panics [OF assms(1) fails this]
  obtain h' where h': "prepare F nm h = (Panicked, h')" using panics [of nm h] by (metis prod.collapse)
  moreover obtain ev where "h' = h @ ev" "list_all (\<lambda>e. \<not> is_start e) ev"
    using emitsD [OF quiet_prepare h'] by blast
  ultimately show ?thesis
    using fails by (auto simp: stub_main_def bind_u_def list_all_iff)
qed

theorem stub_stops_on_wrong_hash_witness:
  "fst (stub_main ((sample_firmware (Inl NOT_FOUND))\<lparr>fw_sha256 := (\<lambda>_. [])\<rparr>) ''lanzastub'' []) = Panicked"
proof -
  let ?F = "(sample_firmware (Inl NOT_FOUND))\<lparr>fw_sha256 := (\<lambda>_. [])\<rparr>"
  have pe: "from_pe_in_memory ?F (bf_image sample_files) = Ok \<lparr>pe_data = sample_memory, parsed = sample_pe\<rparr>"
    using sample_from_pe by (simp add: from_pe_in_memory_def as_slice_def)
  have "fst (load_from_pe ?F (bf_image sample_files) []) = Fail SECURITY_VIOLATION \<and>
      fst (stub_main ?F ''lanzastub'' []) = Panicked \<and>
      (is_start CloseFs \<longrightarrow> CloseFs \<in> set (snd (stub_main ?F ''lanzastub'' [])) \<longrightarrow> CloseFs \<in> set [])"
  proof (rule stub_stops_on_wrong_hash [OF _ _ _ _ pe])
    show "extract_string ?F \<lparr>pe_data = sample_memory, parsed = sample_pe\<rparr> ''.linux'' = Ok (cstr16 ''k'')" by code_simp
    show "extract_hash \<lparr>pe_data = sample_memory, parsed = sample_pe\<rparr> ''.linuxh'' = Ok (sample_hash ''KK'')" by code_simp
    show "extract_string ?F \<lparr>pe_data = sample_memory, parsed = sample_pe\<rparr> ''.initrd'' = Ok (cstr16 ''i'')" by code_simp
    show "extract_hash \<lparr>pe_data = sample_memory, parsed = sample_pe\<rparr> ''.initrdh'' = Ok (sample_hash ''I'')" by code_simp
    show "extract_string ?F \<lparr>pe_data = sample_memory, parsed = sample_pe\<rparr> ''.cmdline'' = Ok (cstr16 ''c'')" by code_simp
    show "fw_read ?F h (cstr16 ''k'') = Some ''KK''" for h by (simp add: sample_firmware_def sample_read_def)
    show "fw_read ?F h (cstr16 ''i'') = Some ''I''" for h
      by (simp add: sample_firmware_def sample_read_def cstr16_def)
    show "fw_sha256 ?F ''KK'' \<noteq> sample_hash ''KK'' \<or> fw_sha256 ?F ''I'' \<noteq> sample_hash ''I''"
      by (simp add: sample_hash_def)
  qed (simp_all add: sample_firmware_def sample_files_def)
  then show ?thesis by blast
qed

end
