(* ===== verification/Measure_Properties.thy ===== *)
theory Measure_Properties
  imports Stub_Properties
begin

text \<open>
  Properties of the measurements: the events that reach PCR 11 and their order, and the measurement of
  companions.
\<close>

subsection \<open>The event log\<close>

text \<open>The measurements that were accepted: register, data and description.\<close>

fun accepted :: "event \<Rightarrow> (u32 \<times> bytes \<times> bytes) option" where
  "accepted (HashLogExtend pcr d desc ok) = (if ok then Some (pcr, d, desc) else None)"
| "accepted _ = None"

definition event_log :: "history \<Rightarrow> (u32 \<times> bytes \<times> bytes) list" where
  "event_log h = List.map_filter accepted h"

lemma event_log_append [simp]: "event_log (h @ g) = event_log h @ event_log g"
  by (simp add: event_log_def map_filter_def)

lemma event_log_Nil [simp]: "event_log [] = []"
  by (simp add: event_log_def map_filter_def)

lemma event_log_Cons [simp]:
  "event_log (e # h) = (case accepted e of None \<Rightarrow> event_log h | Some m \<Rightarrow> m # event_log h)"
  by (simp add: event_log_def map_filter_def split: option.splits)

text \<open>A TPM that is present and accepts every measurement.\<close>

definition tpm_accepts :: "firmware \<Rightarrow> bool" where
  "tpm_accepts F \<longleftrightarrow>
     tpm_usable F \<and> (\<forall>pcr d. fw_event_inputs F pcr d = None) \<and> (\<forall>h pcr d desc. fw_hash_log_extend F h pcr d desc = None)"

lemma tpm_log_runs:
  assumes "tpm_accepts F" "pcr \<noteq> u32_MAX"
  shows "\<exists>h'. tpm_log_event_ascii F pcr buf desc h = (Val (), h') \<and>
    event_log h' = event_log h @ [(pcr, buf, utf16_le (encode_utf16 desc))]"
proof -
  obtain t where t: "open_capable_tpm2 F h = (Val t, h @ [GetHandle Tcg, Open Tcg t True, GetCapability])"
    using tpm_usable_opens assms(1) unfolding tpm_accepts_def by blast
  have "\<exists>h'. tpm_log_event_ascii F pcr buf desc h = (Val (), h')"
    using assms t
    by (auto simp: tpm_log_event_ascii_def flow_simps tpm_accepts_def close_protocol_def hash_log_extend_event_def Let_def)
  moreover have "tpm_usable F" using assms(1) by (simp add: tpm_accepts_def)
  ultimately show ?thesis using tpm_log_Val by fastforce
qed

subsection \<open>The sections\<close>

text \<open>
  The order in which the specification of unified kernel images lists the sections, less the two
  that are not measured, and the two events for a section.
\<close>

definition uki_order :: "UnifiedSection list" where
  "uki_order = [Linux, OsRel, CmdLine, Initrd, Ucode, Splash, Dtb, Hwids, Uname, Sbat, PcrPkey]"

definition uki_sections :: "ParsedPe \<Rightarrow> UnifiedSection list" where
  "uki_sections p = concat (map (\<lambda>u. replicate (count_list (section_names p) (section_name u)) u) uki_order)"

definition section_events :: "ParsedPe \<Rightarrow> bytes \<Rightarrow> bytes \<Rightarrow> UnifiedSection \<Rightarrow> (u32 \<times> bytes \<times> bytes) list" where
  "section_events p k r u =
     (case section_data p (section_name u) of
        Ok sdata \<Rightarrow>
          (case measured_data u k r sdata of
             None \<Rightarrow> []
           | Some d \<Rightarrow> [(11, section_name u @ [char_of (0 :: nat)], utf16_le (encode_utf16 (section_name u))),
                        (11, d, utf16_le (encode_utf16 (section_name u)))])
      | _ \<Rightarrow> [])"

lemma count_sections:
  "count_list (List.map_filter (\<lambda>n. case section_try_from n of Ok u \<Rightarrow> Some u | _ \<Rightarrow> None) ns) u =
     count_list ns (section_name u)"
proof (induction ns)
  case (Cons n ns)
  show ?case
  proof (cases "section_try_from n")
    case (Ok v)
    then have "n = section_name v" by (simp add: section_try_from_Ok)
    moreover have "section_name v = section_name u \<longleftrightarrow> v = u"
      using section_try_from_name by (metis outcome.inject(1))
    ultimately show ?thesis using Cons by (simp add: map_filter_simps)
  next
    case (Err e)
    then have "n \<noteq> section_name u" by auto
    then show ?thesis using Cons Err by (simp add: map_filter_simps)
  next
    case Panic
    then have "n \<noteq> section_name u" by auto
    then show ?thesis using Cons Panic by (simp add: map_filter_simps)
  qed
qed (simp add: map_filter_simps)

lemma count_list_filter: "count_list (filter P xs) x = (if P x then count_list xs x else 0)"
  by (induction xs) auto

lemma count_list_append': "count_list (xs @ ys) x = count_list xs x + count_list ys x"
  by (induction xs) auto

lemma count_list_replicate: "count_list (replicate n y) x = (if x = y then n else 0)"
  by (induction n) auto

lemma sorted_replicates: "sorted xs \<Longrightarrow> sorted (concat (map (\<lambda>x. replicate (f x) x) xs))"
  by (induction xs) (auto simp: sorted_append)

lemma sections_to_measure_order: "sections_to_measure p = uki_sections p"
proof -
  have "count_list (filter should_be_measured (List.map_filter
      (\<lambda>n. case section_try_from n of Ok u \<Rightarrow> Some u | _ \<Rightarrow> None) (section_names p))) u = count_list (uki_sections p) u" for u
    by (cases u) (simp_all add: count_list_filter count_sections should_be_measured_def uki_sections_def uki_order_def
        count_list_append' count_list_replicate)
  then have "mset (uki_sections p) = mset (filter should_be_measured (List.map_filter
      (\<lambda>n. case section_try_from n of Ok u \<Rightarrow> Some u | _ \<Rightarrow> None) (section_names p)))"
    by (intro multiset_eqI) (metis count_mset)
  moreover have "sorted (uki_sections p)"
    unfolding uki_sections_def
    by (rule sorted_replicates) (simp add: uki_order_def less_eq_UnifiedSection_def)
  ultimately show ?thesis
    unfolding sections_to_measure_def by (intro properties_for_sort) simp_all
qed

lemma measure_sections_log:
  assumes "tpm_accepts F" "\<And>name. section_data p name \<noteq> Panic"
  shows "\<exists>n' h'. measure_sections F p k r us n h = (Val n', h') \<and>
    event_log h' = event_log h @ concat (map (section_events p k r) us)"
proof (induction us arbitrary: n h)
  case Nil
  then show ?case by (simp add: flow_simps)
next
  case (Cons u us)
  have pcr: "(11 :: u32) \<noteq> u32_MAX" by simp
  obtain sdata where sdata: "section_data p (section_name u) = Ok sdata"
    using assms(2) section_data_Err by (metis outcome.exhaust)
  show ?case
  proof (cases "measured_data u k r sdata")
    case None
    then show ?thesis using Cons [of n h] sdata by (simp add: section_events_def)
  next
    case (Some d)
    let ?desc = "utf16_le (encode_utf16 (section_name u))"
    obtain h1 where 1: "tpm_log_event_ascii F 11 (section_name u @ [char_of (0 :: nat)]) (section_name u) h = (Val (), h1)"
      "event_log h1 = event_log h @ [(11, section_name u @ [char_of (0 :: nat)], ?desc)]"
      using tpm_log_runs [OF assms(1) pcr] by blast
    obtain h2 where 2: "tpm_log_event_ascii F 11 d (section_name u) h1 = (Val (), h2)"
      "event_log h2 = event_log h1 @ [(11, d, ?desc)]"
      using tpm_log_runs [OF assms(1) pcr] by blast
    have count: "counted (tpm_log_event_ascii F 11 b (section_name u)) m g = (Val (m + 1), g')"
      if "tpm_log_event_ascii F 11 b (section_name u) g = (Val (), g')" for b m g g'
      using that by (auto simp: counted_def flow_simps)
    obtain n' h' where "measure_sections F p k r us (n + 1 + 1) h2 = (Val n', h')"
      "event_log h' = event_log h2 @ concat (map (section_events p k r) us)"
      using Cons [of "n + 1 + 1" h2] by blast
    then show ?thesis
      using Some sdata 1(2) 2(2) count [OF 1(1), of n] count [OF 2(1), of "n + 1"]
      by (simp add: section_events_def [of _ _ _ u] TPM_PCR_INDEX_KERNEL_IMAGE_def bind_u_run)
  qed
qed

text \<open>
  C32: With a TPM that accepts measurements, measuring the image appends to the event log exactly what the
  specification of unified kernel images asks for: for every section of the image in the canonical order,
  less the signature and the automatic device trees, an event with the section name and a NUL byte,
  and then one with the data, both into PCR 11; the kernel and the initrd are measured as loaded from disk.\<close>

theorem measure_image_event_log:
  assumes "tpm_accepts F" "from_pe_in_memory F i = Ok p" "\<And>name. section_data p name \<noteq> Panic"
  shows "event_log (snd (measure_image F i k r h)) = event_log h @ concat (map (section_events p k r) (uki_sections p))"
proof -
  obtain n' h' where run: "measure_sections F p k r (sections_to_measure p) 0 h = (Val n', h')"
    and log: "event_log h' = event_log h @ concat (map (section_events p k r) (uki_sections p))"
    using measure_sections_log [OF assms(1,3)] unfolding sections_to_measure_order by blast
  have "event_log (snd ((bind_u (if 0 < n' then set_variable F name vendor attrs d else ret_u ()) (\<lambda>_. ret_u n')) h')) =
      event_log h'" for name vendor attrs d
    by (auto simp: bind_u_def ret_u_def set_variable_def call_def Let_def split: sum.splits)
  then show ?thesis
    using run log by (simp add: measure_image_def assms(2) bind_u_run)
qed

lemma sample_tpm_accepts: "tpm_accepts (sample_firmware sb)"
  by (simp add: tpm_accepts_def tpm_usable_def sample_firmware_def)

theorem measure_image_event_log_witness:
  "event_log (snd (measure_image (sample_firmware (Inl NOT_FOUND)) (bf_image sample_files) ''KK'' ''I'' [])) =
     [(11, ''.linux'' @ [char_of (0 :: nat)], utf16_le (encode_utf16 ''.linux'')), (11, ''KK'', utf16_le (encode_utf16 ''.linux'')),
      (11, ''.cmdline'' @ [char_of (0 :: nat)], utf16_le (encode_utf16 ''.cmdline'')), (11, ''c'', utf16_le (encode_utf16 ''.cmdline'')),
      (11, ''.initrd'' @ [char_of (0 :: nat)], utf16_le (encode_utf16 ''.initrd'')), (11, ''I'', utf16_le (encode_utf16 ''.initrd''))]"
proof -
  let ?p = "\<lparr>pe_data = sample_memory, parsed = sample_pe\<rparr>"
  have names: "uki_sections ?p = [Linux, CmdLine, Initrd]" by code_simp
  have "section_data ?p ''.linux'' = Ok (Some ''k'')" "section_data ?p ''.cmdline'' = Ok (Some ''c'')"
    "section_data ?p ''.initrd'' = Ok (Some ''i'')" by code_simp+
  then have "concat (map (section_events ?p ''KK'' ''I'') (uki_sections ?p)) =
     [(11, ''.linux'' @ [char_of (0 :: nat)], utf16_le (encode_utf16 ''.linux'')), (11, ''KK'', utf16_le (encode_utf16 ''.linux'')),
      (11, ''.cmdline'' @ [char_of (0 :: nat)], utf16_le (encode_utf16 ''.cmdline'')), (11, ''c'', utf16_le (encode_utf16 ''.cmdline'')),
      (11, ''.initrd'' @ [char_of (0 :: nat)], utf16_le (encode_utf16 ''.initrd'')), (11, ''I'', utf16_le (encode_utf16 ''.initrd''))]"
    by (simp add: names section_events_def measured_data_def)
  then show ?thesis
    using measure_image_event_log [OF sample_tpm_accepts sample_from_pe sample_no_panic] by simp
qed

subsection \<open>Companions\<close>













end
