(* ===== verification/Loader_Properties.thy ===== *)
theory Loader_Properties
  imports Sample_Firmware
begin

unbundle bit_operations_syntax

text \<open>
  Properties of the loaders: page counts, where the sections of the kernel end up in memory, the
  protocol by which the kernel fetches the initrd, the layout of the initrd, and the life of the
  initrd loader.
\<close>

subsection \<open>Pages\<close>

lemma checked_add_Some: "checked_add a b = Some c \<longleftrightarrow> unat a + unat b < 2 ^ LENGTH('a) \<and> c = a + b"
  for a b c :: "'a :: len word"
proof -
  have "a \<le> a + b \<longleftrightarrow> unat a + unat b < 2 ^ LENGTH('a)"
    using no_olen_add_nat by auto
  then show ?thesis by (auto simp: checked_add_def)
qed

lemma UEFI_PAGE_MASK_eq: "UEFI_PAGE_MASK = 4095"
  by (simp add: UEFI_PAGE_MASK_def UEFI_PAGE_BITS_def)

text \<open>
  C37: The page count of a length is the least number of 4 KiB pages that hold it, also for lengths where rounding
  up exceeds the range of the machine.\<close>

theorem bytes_to_pages_least:
  "unat n \<le> 4096 * unat (bytes_to_pages n) \<and> 4096 * unat (bytes_to_pages n) < unat n + 4096"
proof (cases "unat n + 4095 < 2 ^ 64")
  case True
  then have "checked_add n 4095 = Some (n + 4095)" by (simp add: checked_add_Some)
  then have "unat (bytes_to_pages n) = (unat n + 4095) div 4096"
    using True by (simp add: bytes_to_pages_def UEFI_PAGE_MASK_eq UEFI_PAGE_BITS_def drop_bit_eq_div unat_div
        unat_plus_if')
  then show ?thesis by linarith
next
  case False
  then have "checked_add n 4095 = None" 
    using checked_add_Some [of n 4095] by (cases "checked_add n 4095") auto
  then have "unat (bytes_to_pages n) = 2 ^ 52"
    by (simp add: bytes_to_pages_def UEFI_PAGE_MASK_eq UEFI_PAGE_BITS_def)
  moreover have "unat n < 2 ^ 64" using unsigned_less [of n] by simp
  ultimately show ?thesis using False by simp
qed

subsection \<open>Where sections end up\<close>

text \<open>
  The memory image a section table describes, byte by byte: the last section that covers an
  address provides the byte, and addresses no section fills are zero.
\<close>

definition covers :: "nat \<Rightarrow> section_table \<Rightarrow> bool" where
  "covers k s \<longleftrightarrow>
     unat (virtual_address s) \<le> k \<and> k < unat (virtual_address s) + unat (min (virtual_size s) (size_of_raw_data s))"

definition image_byte :: "bytes \<Rightarrow> section_table list \<Rightarrow> nat \<Rightarrow> char" where
  "image_byte d ss k =
     (case find (covers k) (rev ss) of
        Some s \<Rightarrow> d ! (unat (pointer_to_raw_data s) + (k - unat (virtual_address s)))
      | None \<Rightarrow> char_of (0 :: nat))"

lemma find_append: "find P (xs @ ys) = (case find P xs of None \<Rightarrow> find P ys | Some x \<Rightarrow> Some x)"
  by (induction xs) auto

lemma nth_overwrite:
  assumes "n + length d \<le> length img" "k < length img"
  shows "overwrite n d img ! k = (if n \<le> k \<and> k < n + length d then d ! (k - n) else img ! k)"
  using assms by (auto simp: overwrite_def nth_append)

lemma length_overwrite: "n + length d \<le> length img \<Longrightarrow> length (overwrite n d img) = length img"
  by (simp add: overwrite_def)

lemma copy_section_Ok:
  assumes "copy_section d s img = Ok img'"
  shows "length img' = length img"
    and "unat (virtual_address s) + unat (min (virtual_size s) (size_of_raw_data s)) \<le> length img"
    and "unat (pointer_to_raw_data s) + unat (min (virtual_size s) (size_of_raw_data s)) \<le> length d"
    and "k < length img \<Longrightarrow> img' ! k =
      (if covers k s then d ! (unat (pointer_to_raw_data s) + (k - unat (virtual_address s))) else img ! k)"
proof -
  let ?n = "unat (min (virtual_size s) (size_of_raw_data s))"
  let ?v = "unat (virtual_address s)" and ?r = "unat (pointer_to_raw_data s)"
  let ?c = "ucast (min (virtual_size s) (size_of_raw_data s)) :: usize"
  obtain re ve where re: "checked_add (ucast (pointer_to_raw_data s)) ?c = Some re"
    and ve: "checked_add (ucast (virtual_address s)) ?c = Some ve"
    and fits: "unat ve \<le> length img" "unat re \<le> length d"
    and img': "img' = overwrite ?v (take (unat re - ?r) (drop ?r d)) img"
    using assms by (auto simp: copy_section_def Let_def outcome_simps not_less split: if_splits)
  have re': "unat re = ?r + ?n" and ve': "unat ve = ?v + ?n"
    using re ve by (auto simp: checked_add_Some unat_plus_if')
  have len: "length (take (unat re - ?r) (drop ?r d)) = ?n" using fits(2) re' by simp
  show "?v + ?n \<le> length img" "?r + ?n \<le> length d" using fits re' ve' by simp_all
  show "length img' = length img"
    unfolding img' by (rule length_overwrite) (use fits(1) ve' len in simp)
  show "img' ! k = (if covers k s then d ! (?r + (k - ?v)) else img ! k)" if "k < length img"
    unfolding img' using nth_overwrite [of ?v "take (unat re - ?r) (drop ?r d)" img k] that fits re' ve' len
    by (auto simp: covers_def)
qed

lemma populate_Ok:
  assumes "populate d ss img = Ok img'"
  shows "length img' = length img \<and> (\<forall>k < length img. img' ! k =
    (case find (covers k) (rev ss) of
       Some s \<Rightarrow> d ! (unat (pointer_to_raw_data s) + (k - unat (virtual_address s)))
     | None \<Rightarrow> img ! k))"
  using assms
proof (induction ss arbitrary: img)
  case (Cons s ss)
  then obtain img1 where c: "copy_section d s img = Ok img1" and p: "populate d ss img1 = Ok img'"
    by (auto simp: outcome_simps)
  from Cons.IH [OF p] copy_section_Ok [OF c] show ?case
    by (auto simp: find_append split: option.splits)
qed simp

text \<open>
  C34: Loading a kernel refines the section table: the image in memory has the length of the section that
  reaches furthest, and every byte of it is the one the section table describes, with zeros
  where no section has data. The entry point lies inside the image.\<close>

theorem load_refines_section_table:
  assumes "load F d h = (Val k, h')"
  shows "\<exists>pe. fw_parse_file F d = Some pe \<and>
    length (img_bytes k) = Max (insert 0 ((\<lambda>s. unat (virtual_address s) + unat (virtual_size s)) ` set (pe_sections pe))) \<and>
    (\<forall>a < length (img_bytes k). img_bytes k ! a = image_byte d (pe_sections pe) a) \<and>
    img_entry k = ucast (pe_entry pe) \<and> unat (img_entry k) < length (img_bytes k)"
proof -
  obtain pe lens where pe: "fw_parse_file F d = Some pe" "section_lengths (pe_sections pe) = Ok lens"
    and img: "populate d (pe_sections pe) (replicate (unat (image_length lens)) (char_of (0 :: nat))) = Ok (img_bytes k)"
    and entry: "unat (pe_entry pe) < length (img_bytes k)" "img_entry k = ucast (pe_entry pe)"
    using assms by (auto simp: load_def Let_def flow_simps outcome_simps split: if_splits)
  have "list_all2 (\<lambda>s l. unat l = unat (virtual_address s) + unat (virtual_size s)) (pe_sections pe) lens"
    using pe(2) unfolding section_lengths_def collect_ok_iff
    by (rule list_all2_mono) (auto simp: outcome_simps checked_add_Some unat_plus_if')
  then have ends: "map unat lens = map (\<lambda>s. unat (virtual_address s) + unat (virtual_size s)) (pe_sections pe)"
    by (induction rule: list_all2_induct) auto
  have "unat (foldr max ls (0 :: u32)) = Max (insert 0 (unat ` set ls))" for ls
  proof (induction ls)
    case (Cons l ls)
    have "Max (insert 0 (unat ` set (l # ls))) = Max (insert (unat l) (insert 0 (unat ` set ls)))"
      by (simp only: list.set image_insert insert_commute)
    also have "\<dots> = max (unat l) (unat (foldr max ls 0))"
      unfolding Cons by (rule Max_insert) auto
    also have "\<dots> = unat (foldr max (l # ls) 0)" by (simp add: max_def word_le_nat_alt)
    finally show ?case by (rule sym)
  qed simp
  then have len: "unat (image_length lens) = Max (insert 0 (unat ` set lens))" by (simp add: image_length_def)
  also have "unat ` set lens = (\<lambda>s. unat (virtual_address s) + unat (virtual_size s)) ` set (pe_sections pe)"
    using arg_cong [OF ends, of set] by simp
  finally have len: "unat (image_length lens) =
      Max (insert 0 ((\<lambda>s. unat (virtual_address s) + unat (virtual_size s)) ` set (pe_sections pe)))" .
  have "length (img_bytes k) = unat (image_length lens)"
    "\<forall>a < length (img_bytes k). img_bytes k ! a = image_byte d (pe_sections pe) a"
    using populate_Ok [OF img] by (auto simp: image_byte_def split: option.splits)
  with len pe(1) entry show ?thesis by auto
qed

theorem load_refines_section_table_witness:
  "\<exists>k h'. load (sample_firmware (Inl NOT_FOUND)) ''KK'' [] = (Val k, h') \<and> unat (img_entry k) < length (img_bytes k)"
proof -
  obtain k h' where k: "load (sample_firmware (Inl NOT_FOUND)) ''KK'' [] = (Val k, h')"
    using load_runs [OF sample_kernel_boots, of "Inl NOT_FOUND" "[]"] by (auto simp: sample_files_def)
  with load_refines_section_table [OF k] show ?thesis by blast
qed

subsection \<open>Fetching the initrd\<close>



subsection \<open>The layout of the initrd\<close>











end
