(* ===== verification/Exclusive_Use.thy ===== *)
theory Exclusive_Use
  imports Stub_Run Sample_Firmware
begin

text \<open>
  Exclusive protocols. The stub opens firmware protocols exclusively and closes them when their guards are
  dropped; opening a protocol that is still held would fail or take it away from its holder. The
  resources held are the state of a step system over the events, and every run of the stub is a
  path of that system.
\<close>

subsection \<open>The step system\<close>

datatype resource = Protocol protocol | FileSystem

text \<open>
  The file system the image came from is found through the image's own LoadedImage protocol, which
  must therefore not be held when the file system is opened.

  Events that neither acquire nor release a resource are \<open>neutral\<close>.
\<close>

fun neutral :: "event \<Rightarrow> bool" where
  "neutral (Open _ _ ok) = (\<not> ok)"
| "neutral (Close _ _) = False"
| "neutral (OpenFs ok) = (\<not> ok)"
| "neutral CloseFs = False"
| "neutral _ = True"

inductive held_step :: "resource set \<Rightarrow> event \<Rightarrow> resource set \<Rightarrow> bool" where
  opens: "Protocol p \<notin> S \<Longrightarrow> held_step S (Open p d True) (insert (Protocol p) S)"
| closes: "Protocol p \<in> S \<Longrightarrow> held_step S (Close p d) (S - {Protocol p})"
| opens_fs: "FileSystem \<notin> S \<Longrightarrow> Protocol LoadedImage \<notin> S \<Longrightarrow> held_step S (OpenFs True) (insert FileSystem S)"
| closes_fs: "FileSystem \<in> S \<Longrightarrow> held_step S CloseFs (S - {FileSystem})"
| neutral: "neutral e \<Longrightarrow> held_step S e S"

inductive_cases held_step_openE: "held_step S (Open p d True) S'"

inductive held_path :: "resource set \<Rightarrow> history \<Rightarrow> resource set \<Rightarrow> bool" where
  stop: "held_path S [] S"
| step: "held_step S e S1 \<Longrightarrow> held_path S1 es S2 \<Longrightarrow> held_path S (e # es) S2"

inductive_simps held_path_Nil [simp]: "held_path S [] S'"
inductive_simps held_path_Cons [simp]: "held_path S (e # es) S'"

lemma held_path_append: "held_path S es S1 \<Longrightarrow> held_path S1 fs S2 \<Longrightarrow> held_path S (es @ fs) S2"
  by (induction rule: held_path.induct) auto

subsection \<open>Tidy runs\<close>

named_theorems tidy_intros \<open>runs that give back what they acquire\<close>

text \<open>
  A run is tidy over a set of free resources if, started when none of them is held, it follows the
  step system and holds at its end what it held at its start, unless it panicked or handed over.
\<close>

definition ends_normally :: "'a flow \<Rightarrow> bool" where
  "ends_normally r \<longleftrightarrow> (case r of Val _ \<Rightarrow> True | Fail _ \<Rightarrow> True | _ \<Rightarrow> False)"

definition tidy :: "resource set \<Rightarrow> 'a uefi \<Rightarrow> bool" where
  "tidy T m \<longleftrightarrow>
     (\<forall>h S. S \<inter> T = {} \<longrightarrow>
        (\<exists>ev S'. snd (m h) = h @ ev \<and> held_path S ev S' \<and> (ends_normally (fst (m h)) \<longrightarrow> S' = S)))"

lemma ends_normally_simps [simp]:
  "ends_normally (Val a)" "ends_normally (Fail s)" "\<not> ends_normally Panicked" "\<not> ends_normally Gone"
  by (simp_all add: ends_normally_def)

lemma tidyI:
  assumes "\<And>h S. S \<inter> T = {} \<Longrightarrow>
    \<exists>ev S'. snd (m h) = h @ ev \<and> held_path S ev S' \<and> (ends_normally (fst (m h)) \<longrightarrow> S' = S)"
  shows "tidy T m"
  using assms unfolding tidy_def by blast

lemma tidyD:
  assumes "tidy T m" "S \<inter> T = {}" "m h = (r, h')"
  obtains ev S' where "h' = h @ ev" "held_path S ev S'" "ends_normally r \<Longrightarrow> S' = S"
  using assms unfolding tidy_def by (metis fst_conv snd_conv)

lemma tidy_neutral: "emits neutral m \<Longrightarrow> tidy T m"
proof (rule tidyI)
  fix h S
  assume "emits neutral m"
  then obtain ev where ev: "snd (m h) = h @ ev" "list_all neutral ev" unfolding emits_def by blast
  have "held_path S ev S" using ev(2) by (induction ev) (auto intro: held_step.neutral)
  with ev show "\<exists>ev S'. snd (m h) = h @ ev \<and> held_path S ev S' \<and> (ends_normally (fst (m h)) \<longrightarrow> S' = S)"
    by blast
qed

lemma tidy_pure [tidy_intros]:
  "tidy T (ret_u a)" "tidy T (fail_u s)" "tidy T panic_u" "tidy T (look f)" "tidy T (lift_u r)"
  by (intro tidy_neutral emits_intros)+

lemma tidy_call [tidy_intros]: "(\<And>r. neutral (ev r)) \<Longrightarrow> tidy T (call reply ev)"
  by (intro tidy_neutral emits_intros)

lemma tidy_emit [tidy_intros]: "neutral e \<Longrightarrow> tidy T (emit e)"
  by (intro tidy_neutral emits_intros)

lemma tidy_bind [tidy_intros]:
  assumes m: "tidy T m" and f: "\<And>a. tidy T (f a)"
  shows "tidy T (bind_u m f)"
proof (rule tidyI)
  fix h S
  assume S: "S \<inter> T = {}"
  obtain r h1 where r: "m h = (r, h1)" by fastforce
  obtain ev S1 where ev: "h1 = h @ ev" "held_path S ev S1" "ends_normally r \<Longrightarrow> S1 = S"
    using tidyD [OF m S r] by blast
  show "\<exists>ev S'. snd (bind_u m f h) = h @ ev \<and> held_path S ev S' \<and> (ends_normally (fst (bind_u m f h)) \<longrightarrow> S' = S)"
  proof (cases r)
    case (Val a)
    obtain q h2 where q: "f a h1 = (q, h2)" by fastforce
    obtain ev' S2 where "h2 = h1 @ ev'" "held_path S ev' S2" "ends_normally q \<Longrightarrow> S2 = S"
      using tidyD [OF f S q] by blast
    then show ?thesis
      using r q ev Val held_path_append by (fastforce simp: bind_u_def)
  qed (use r ev in \<open>auto simp: bind_u_def\<close>)
qed

lemma tidy_try [tidy_intros]:
  assumes "tidy T m"
  shows "tidy T (try_u m)"
proof (rule tidyI)
  fix h S
  assume S: "S \<inter> T = {}"
  obtain r h1 where r: "m h = (r, h1)" by fastforce
  from tidyD [OF assms S r] obtain ev S1 where "h1 = h @ ev" "held_path S ev S1" "ends_normally r \<Longrightarrow> S1 = S" by blast
  then show "\<exists>ev S'. snd (try_u m h) = h @ ev \<and> held_path S ev S' \<and> (ends_normally (fst (try_u m h)) \<longrightarrow> S' = S)"
    using r by (cases r) (auto simp: try_u_def)
qed

lemma tidy_if [tidy_intros]: "tidy T m \<Longrightarrow> tidy T n \<Longrightarrow> tidy T (if c then m else n)"
  by simp

lemma tidy_sum [tidy_intros]:
  "(\<And>s. tidy T (f s)) \<Longrightarrow> (\<And>a. tidy T (g a)) \<Longrightarrow> tidy T (case r of Inl s \<Rightarrow> f s | Inr a \<Rightarrow> g a)"
  by (cases r) auto

lemma tidy_option [tidy_intros]:
  "tidy T m \<Longrightarrow> (\<And>a. tidy T (g a)) \<Longrightarrow> tidy T (case r of None \<Rightarrow> m | Some a \<Rightarrow> g a)"
  by (cases r) auto

lemma tidy_pair [tidy_intros]: "(\<And>a b. tidy T (f a b)) \<Longrightarrow> tidy T (case p of (a, b) \<Rightarrow> f a b)"
  by (cases p) auto

lemma tidy_expect [tidy_intros]: "tidy T m \<Longrightarrow> tidy T (expect_u m)"
  unfolding expect_u_def by (intro tidy_intros)

lemma tidy_ignore [tidy_intros]: "tidy T m \<Longrightarrow> tidy T (ignore_u m)"
  unfolding ignore_u_def by (intro tidy_intros)

lemma tidy_on_error [tidy_intros]: "tidy T m \<Longrightarrow> tidy T d \<Longrightarrow> tidy T (on_error_u m d)"
  unfolding on_error_u_def by (intro tidy_intros)

subsection \<open>Acquiring and releasing\<close>

text \<open>A run that leaves one resource held when it delivers a value, and a block that gives it back.\<close>

definition acquires :: "resource set \<Rightarrow> resource \<Rightarrow> 'a uefi \<Rightarrow> bool" where
  "acquires T x m \<longleftrightarrow>
     (\<forall>h S. S \<inter> T = {} \<longrightarrow>
        (\<exists>ev S'. snd (m h) = h @ ev \<and> held_path S ev S' \<and>
           (case fst (m h) of Val _ \<Rightarrow> S' = insert x S | Fail _ \<Rightarrow> S' = S | _ \<Rightarrow> True)))"

definition releases :: "resource \<Rightarrow> unit uefi \<Rightarrow> bool" where
  "releases x d \<longleftrightarrow> (\<forall>h. \<exists>e. d h = (Val (), h @ [e]) \<and> (\<forall>S. x \<in> S \<longrightarrow> held_step S e (S - {x})))"

lemma releases_close: "releases (Protocol p) (close_protocol p d)"
  by (auto simp: releases_def close_protocol_def emit_def intro: held_step.closes)

lemma releases_close_fs: "releases FileSystem (emit CloseFs)"
  by (auto simp: releases_def emit_def intro: held_step.closes_fs)

lemma acquires_open:
  assumes "Protocol p \<in> T"
  shows "acquires T (Protocol p) (open_protocol_exclusive F p d)"
proof -
  have "held_step S (Open p d True) (insert (Protocol p) S)" if "S \<inter> T = {}" for S
    using that assms by (intro held_step.opens) auto
  moreover have "held_step S (Open p d False) S" for S by (intro held_step.neutral) simp
  ultimately show ?thesis
    by (auto simp: acquires_def open_protocol_exclusive_def call_def Let_def succeeds_def unit_reply_def split: option.splits)
qed

lemma acquires_open_fs:
  assumes T: "FileSystem \<in> T" "Protocol LoadedImage \<in> T"
  shows "acquires T FileSystem (open_file_system F)"
proof -
  have "held_step S (OpenFs True) (insert FileSystem S)" if "S \<inter> T = {}" for S
    using that T by (intro held_step.opens_fs) auto
  moreover have "held_step S (OpenFs False) S" for S by (intro held_step.neutral) simp
  ultimately show ?thesis
    by (auto simp: acquires_def open_file_system_def call_def Let_def succeeds_def unit_reply_def split: option.splits)
qed

text \<open>While the resource is held a body that does not need it runs, and then it is given back.\<close>

lemma finally_gives_back:
  assumes "tidy (T - {x}) m" "releases x d" "S \<inter> T = {}"
  shows "\<exists>ev S'. snd (finally_u m d h) = h @ ev \<and> held_path (insert x S) ev S' \<and>
    (ends_normally (fst (finally_u m d h)) \<longrightarrow> S' = S - {x})"
proof -
  obtain r h1 where r: "m h = (r, h1)" by fastforce
  have "insert x S \<inter> (T - {x}) = {}" using assms(3) by auto
  from tidyD [OF assms(1) this r] obtain ev S1 where
    ev: "h1 = h @ ev" "held_path (insert x S) ev S1" "ends_normally r \<Longrightarrow> S1 = insert x S" by blast
  obtain e where e: "d h1 = (Val (), h1 @ [e])" "held_step (insert x S) e (insert x S - {x})"
    using assms(2) unfolding releases_def by (metis insertI1)
  have path: "held_path (insert x S) (ev @ [e]) (S - {x})" if "ends_normally r"
    using ev that e(2) by (intro held_path_append) auto
  show ?thesis
  proof (cases "ends_normally r")
    case True
    then have "finally_u m d h = ((case r of Val a \<Rightarrow> Val a | Fail s \<Rightarrow> Fail s), h1 @ [e])"
      using r e(1) by (cases r) (auto simp: finally_u_def bind_u_def try_u_def ret_u_def fail_u_def)
    then show ?thesis using ev(1) path [OF True] by auto
  next
    case False
    then have "finally_u m d h = (r, h1) \<or> (r = Panicked \<or> r = Gone) \<and> snd (finally_u m d h) = h1 \<and>
        \<not> ends_normally (fst (finally_u m d h))"
      using r by (cases r) (auto simp: finally_u_def bind_u_def try_u_def)
    then show ?thesis using ev False by auto
  qed
qed

lemma acquires_split:
  assumes "acquires T x m" "S \<inter> T = {}" "m h = (r, h1)"
  obtains ev S1 where "h1 = h @ ev" "held_path S ev S1" "\<And>a. r = Val a \<Longrightarrow> S1 = insert x S" "\<And>s. r = Fail s \<Longrightarrow> S1 = S"
proof -
  obtain ev S1 where "snd (m h) = h @ ev" "held_path S ev S1"
    "case fst (m h) of Val _ \<Rightarrow> S1 = insert x S | Fail _ \<Rightarrow> S1 = S | _ \<Rightarrow> True"
    using assms(1,2) unfolding acquires_def by blast
  then show thesis using that assms(3) by (auto split: flow.splits)
qed

lemma tidy_hold_try:
  assumes m: "acquires T x m" and x: "x \<in> T" and f: "\<And>s. tidy T (f s)"
    and body: "\<And>a. tidy (T - {x}) (body a)" and d: "\<And>a. releases x (d a)"
  shows "tidy T (bind_u (try_u m) (\<lambda>r. case r of Inl s \<Rightarrow> f s | Inr a \<Rightarrow> finally_u (body a) (d a)))"
    (is "tidy T ?run")
proof (rule tidyI)
  fix h S
  assume S: "S \<inter> T = {}"
  obtain r h1 where r: "m h = (r, h1)" by fastforce
  obtain ev S1 where ev: "h1 = h @ ev" "held_path S ev S1" "\<And>a. r = Val a \<Longrightarrow> S1 = insert x S"
    "\<And>s. r = Fail s \<Longrightarrow> S1 = S" using acquires_split [OF m S r] by blast
  show "\<exists>ev S'. snd (?run h) = h @ ev \<and> held_path S ev S' \<and> (ends_normally (fst (?run h)) \<longrightarrow> S' = S)"
  proof (cases r)
    case (Val a)
    have "x \<notin> S" using x S by blast
    obtain ev' S2 where "snd (finally_u (body a) (d a) h1) = h1 @ ev'" "held_path (insert x S) ev' S2"
      "ends_normally (fst (finally_u (body a) (d a) h1)) \<longrightarrow> S2 = S - {x}"
      using finally_gives_back [OF body d S] by blast
    moreover have "?run h = finally_u (body a) (d a) h1" using r Val by (simp add: bind_u_def try_u_def)
    ultimately show ?thesis
      using ev(1,2) ev(3) [OF Val] held_path_append \<open>x \<notin> S\<close> by fastforce
  next
    case (Fail s)
    obtain q h2 where q: "f s h1 = (q, h2)" by fastforce
    from tidyD [OF f S q] obtain ev' S2 where "h2 = h1 @ ev'" "held_path S ev' S2" "ends_normally q \<Longrightarrow> S2 = S" by blast
    moreover have "?run h = f s h1" using r Fail by (simp add: bind_u_def try_u_def)
    ultimately show ?thesis using ev(1,2) ev(4) [OF Fail] held_path_append q by fastforce
  qed (use r ev(1,2) in \<open>auto simp: bind_u_def try_u_def\<close>)
qed

lemma bind_as_try: "bind_u m f = bind_u (try_u m) (\<lambda>r. case r of Inl s \<Rightarrow> fail_u s | Inr a \<Rightarrow> f a)"
  by (rule ext) (auto simp: bind_u_def try_u_def fail_u_def split: prod.splits flow.splits)

lemma tidy_hold:
  assumes "acquires T x m" "x \<in> T" "\<And>a. tidy (T - {x}) (body a)" "\<And>a. releases x (d a)"
  shows "tidy T (bind_u m (\<lambda>a. finally_u (body a) (d a)))"
  unfolding bind_as_try [of m] using assms by (intro tidy_hold_try tidy_intros)

lemma acquires_expect:
  assumes "acquires T x m"
  shows "acquires T x (expect_u m)"
  unfolding acquires_def
proof (intro allI impI)
  fix h S
  assume S: "S \<inter> T = {}"
  obtain r h1 where r: "m h = (r, h1)" by fastforce
  from acquires_split [OF assms S r] obtain ev S1 where "h1 = h @ ev" "held_path S ev S1" "\<And>a. r = Val a \<Longrightarrow> S1 = insert x S"
    by blast
  then show "\<exists>ev S'. snd (expect_u m h) = h @ ev \<and> held_path S ev S' \<and>
      (case fst (expect_u m h) of Val _ \<Rightarrow> S' = insert x S | Fail _ \<Rightarrow> S' = S | _ \<Rightarrow> True)"
    using r by (cases r) (auto simp: expect_u_def bind_u_def try_u_def ret_u_def panic_u_def)
qed

lemma acquires_after:
  assumes m: "tidy T m" and f: "\<And>a. acquires T x (f a)"
  shows "acquires T x (bind_u m f)"
  unfolding acquires_def
proof (intro allI impI)
  fix h S
  assume S: "S \<inter> T = {}"
  obtain r h1 where r: "m h = (r, h1)" by fastforce
  from tidyD [OF m S r] obtain ev S1 where ev: "h1 = h @ ev" "held_path S ev S1" "ends_normally r \<Longrightarrow> S1 = S" by blast
  show "\<exists>ev S'. snd (bind_u m f h) = h @ ev \<and> held_path S ev S' \<and>
      (case fst (bind_u m f h) of Val _ \<Rightarrow> S' = insert x S | Fail _ \<Rightarrow> S' = S | _ \<Rightarrow> True)"
  proof (cases r)
    case (Val a)
    obtain q h2 where q: "f a h1 = (q, h2)" by fastforce
    from acquires_split [OF f S q] obtain ev' S2 where "h2 = h1 @ ev'" "held_path S ev' S2"
      "\<And>a. q = Val a \<Longrightarrow> S2 = insert x S" "\<And>s. q = Fail s \<Longrightarrow> S2 = S" by blast
    then show ?thesis
      using r q ev Val held_path_append by (cases q) (fastforce simp: bind_u_def)+
  qed (use r ev in \<open>auto simp: bind_u_def\<close>)
qed

lemma acquires_checked:
  assumes m: "acquires T x m" and x: "x \<in> T" and body: "tidy (T - {x}) body" and d: "releases x d"
  shows "acquires T x (bind_u m (\<lambda>_. on_error_u body d))"
  unfolding acquires_def
proof (intro allI impI)
  fix h S
  assume S: "S \<inter> T = {}"
  obtain r h1 where r: "m h = (r, h1)" by fastforce
  from acquires_split [OF m S r] obtain ev S1 where ev: "h1 = h @ ev" "held_path S ev S1"
    "\<And>a. r = Val a \<Longrightarrow> S1 = insert x S" "\<And>s. r = Fail s \<Longrightarrow> S1 = S" by blast
  let ?run = "bind_u m (\<lambda>_. on_error_u body d)"
  show "\<exists>ev S'. snd (?run h) = h @ ev \<and> held_path S ev S' \<and>
      (case fst (?run h) of Val _ \<Rightarrow> S' = insert x S | Fail _ \<Rightarrow> S' = S | _ \<Rightarrow> True)"
  proof (cases r)
    case (Val a)
    obtain q h2 where q: "body h1 = (q, h2)" by fastforce
    have "insert x S \<inter> (T - {x}) = {}" "x \<notin> S" using S x by auto
    from tidyD [OF body this(1) q] obtain ev' S2 where
      ev': "h2 = h1 @ ev'" "held_path (insert x S) ev' S2" "ends_normally q \<Longrightarrow> S2 = insert x S" by blast
    obtain e where e: "d h2 = (Val (), h2 @ [e])" "held_step (insert x S) e (insert x S - {x})"
      using d unfolding releases_def by (metis insertI1)
    have given: "held_path S ((ev @ ev') @ [e]) S" if "ends_normally q"
      using held_path_append [OF held_path_append [OF ev(2)]] ev(3) [OF Val] ev' that e(2) \<open>x \<notin> S\<close> by auto
    have keep: "held_path S (ev @ ev') S2" using held_path_append ev(2) ev(3) [OF Val] ev'(2) by blast
    show ?thesis
      using r Val q e(1) ev(1) ev' given keep
      by (cases q) (force simp: bind_u_def on_error_u_def try_u_def ret_u_def fail_u_def)+
  qed (use r ev in \<open>auto simp: bind_u_def\<close>)
qed

lemma finally_ret: "finally_u (ret_u a) d = bind_u d (\<lambda>_. ret_u a)"
  by (rule ext) (simp add: finally_u_def try_u_def bind_u_def ret_u_def)

subsection \<open>The parts of the stub\<close>

interpretation calm: browsing neutral
proof
  show "neutral e" if "browse_event e" for e using that by (cases e) auto
qed

lemmas tidy_browsing = calm.emits_read_file [THEN tidy_neutral] calm.emits_find_files [THEN tidy_neutral]
  calm.emits_dropin_directory [THEN tidy_neutral] calm.emits_discover_credentials [THEN tidy_neutral]
  calm.emits_discover_system_extensions [THEN tidy_neutral]

lemma tidy_with_protocol:
  "Protocol p \<in> T \<Longrightarrow> tidy (T - {Protocol p}) m \<Longrightarrow> tidy T (with_protocol F p d m)"
  unfolding with_protocol_def by (rule tidy_hold [OF acquires_open _ _ releases_close])

lemma tidy_get_handle: "tidy T (get_handle_for_protocol F p)"
  unfolding get_handle_for_protocol_def by (intro tidy_intros) simp

lemma tidy_variables: "tidy T (get_variable F name vendor n)" "tidy T (set_variable F name vendor attrs d)"
  unfolding get_variable_def set_variable_def by (intro tidy_intros; simp)+

lemma acquires_tpm: "Protocol Tcg \<in> T \<Longrightarrow> acquires T (Protocol Tcg) (open_capable_tpm2 F)"
  unfolding open_capable_tpm2_def get_capability_def
  by (intro acquires_after tidy_get_handle acquires_checked acquires_open releases_close tidy_intros) simp_all

lemma tidy_tpm_available: "Protocol Tcg \<in> T \<Longrightarrow> tidy T (tpm_available F)"
  unfolding tpm_available_def finally_ret [symmetric]
  by (rule tidy_hold_try [OF acquires_tpm _ _ _ releases_close]) (intro tidy_intros | assumption)+

lemma tidy_tpm_log: "Protocol Tcg \<in> T \<Longrightarrow> tidy T (tpm_log_event_ascii F pcr buf desc)"
  unfolding tpm_log_event_ascii_def hash_log_extend_event_def Let_def
  by (intro tidy_if tidy_hold_try [OF acquires_tpm _ _ _ releases_close] tidy_intros) simp_all

lemma tidy_measure_sections: "Protocol Tcg \<in> T \<Longrightarrow> tidy T (measure_sections F p k i us n)"
  by (induction us arbitrary: n) (auto simp: counted_def intro!: tidy_intros tidy_tpm_log)

lemma tidy_measure_image: "Protocol Tcg \<in> T \<Longrightarrow> tidy T (measure_image F p k i)"
  unfolding measure_image_def by (intro tidy_intros tidy_measure_sections tidy_variables)

lemma tidy_measure_companions: "Protocol Tcg \<in> T \<Longrightarrow> tidy T (measure_companions F cs c)"
proof (induction cs arbitrary: c)
  case (Cons x cs)
  then show ?case unfolding measure_companions.simps by (intro tidy_intros tidy_tpm_log)
qed (simp add: tidy_intros)

lemma tidy_measure_companion_initrds: "Protocol Tcg \<in> T \<Longrightarrow> tidy T (measure_companion_initrds F cs)"
  unfolding measure_companion_initrds_def by (intro tidy_intros tidy_measure_companions tidy_variables)

lemma tidy_booted_image_file: "Protocol LoadedImage \<in> T \<Longrightarrow> tidy T (booted_image_file F)"
  unfolding booted_image_file_def by (intro tidy_with_protocol tidy_intros)

lemma tidy_get_loader_features: "tidy T (get_loader_features F)"
  unfolding get_loader_features_def by (intro tidy_intros tidy_variables)

lemma tidy_ensure: "tidy T v \<Longrightarrow> tidy T (ensure_efi_variable F name vendor attrs v)"
  unfolding ensure_efi_variable_def variable_exists_def
  by (intro tidy_intros tidy_variables) (auto split: status.splits intro: tidy_intros)

lemma tidy_values:
  "Protocol DevicePath \<in> T \<Longrightarrow> tidy T (part_uuid_value F)"
  "Protocol DevicePathToText \<in> T \<Longrightarrow> tidy T (image_identifier_value F)"
  unfolding part_uuid_value_def disk_get_part_uuid_def image_identifier_value_def
  by (intro tidy_intros tidy_with_protocol tidy_get_handle; simp)+

lemma tidy_export: "tidy UNIV (export_efi_variables F name)"
  unfolding export_efi_variables_def
  by (intro tidy_with_protocol tidy_intros tidy_ensure tidy_values tidy_variables) simp_all

lemma tidy_secure_boot: "tidy T (get_secure_boot_status F)"
  unfolding get_secure_boot_status_def by (intro tidy_intros tidy_variables)

lemma tidy_get_cmdline: "tidy UNIV (get_cmdline F e)"
  unfolding get_cmdline_def get_load_options_def measure_boot_loader_def
  by (intro tidy_intros tidy_secure_boot tidy_with_protocol tidy_tpm_log) simp_all

lemmas tidy_hold_fs = tidy_hold [OF acquires_expect [OF acquires_open_fs] _ _ releases_close_fs]

lemma tidy_load_from_pe: "tidy UNIV (load_from_pe F i)"
  unfolding load_from_pe_def
  by ((intro tidy_hold_fs tidy_browsing tidy_secure_boot tidy_pure; simp)+ | rule tidy_bind)+

lemma tidy_collect_companions: "tidy UNIV (collect_companions F i t)"
  unfolding collect_companions_def
  by (rule tidy_hold_try [OF acquires_open_fs _ _ _ releases_close_fs])
    (auto simp: found_def intro!: tidy_intros tidy_browsing tidy_measure_companion_initrds)

lemma tidy_start: "tidy UNIV (start F i d cmd)"
proof -
  have "emits neutral (run_kernel F d i)"
    using emits_run_kernel by (rule emits_mono) simp
  moreover have "emits neutral (set_load_options os)" for os
    unfolding set_load_options_def by (intro emits_intros) simp_all
  moreover have "emits neutral (free_pages F a n)" for a n
    unfolding free_pages_def by (intro emits_intros) simp
  moreover have "neutral (SetImage a n)" for a n by simp
  ultimately have "emits neutral (start_held F i d cmd)"
    unfolding start_held_def restore_image_def case_prod_beta by (intro emits_intros) assumption+
  then show ?thesis
    unfolding start_def
    by (intro tidy_hold [OF acquires_expect [OF acquires_open] _ _ releases_close] tidy_neutral) simp_all
qed

lemma tidy_boot_linux: "tidy UNIV (boot_linux F d c ds)"
proof -
  have "tidy UNIV (load F kf)" for kf
    unfolding load_def allocate_pages_def Let_def by (intro tidy_intros) simp
  moreover have "tidy UNIV (InitrdLoader_new F d r)" "tidy UNIV (uninstall F l)" "tidy UNIV (drop_loader l)" for r l
    unfolding InitrdLoader_new_def uninstall_def drop_loader_def install_protocol_interface_def
      uninstall_protocol_interface_def
    by (intro tidy_intros; simp)+
  ultimately show ?thesis
    unfolding boot_linux_def boot_linux_unchecked_def by (intro tidy_intros tidy_get_cmdline tidy_start)
qed

lemma tidy_stub_main: "tidy UNIV (stub_main F nm)"
  unfolding stub_main_def prepare_def status_of_def
  by (intro tidy_intros tidy_tpm_available tidy_booted_image_file tidy_load_from_pe tidy_measure_image
      tidy_get_loader_features tidy_export tidy_collect_companions tidy_boot_linux) simp_all

text \<open>
  C38: Whatever the firmware answers, the stub never opens a protocol or the file system while it
  still holds it, never closes what it does not hold, does not open the file system while it holds
  the LoadedImage protocol the file system is found through, and has given back everything when
  it returns to the firmware.
\<close>

theorem stub_holds_exclusively:
  "\<exists>S. held_path {} (snd (stub_main F nm [])) S \<and>
     (case fst (stub_main F nm []) of Val _ \<Rightarrow> S = {} | Fail _ \<Rightarrow> S = {} | _ \<Rightarrow> True)"
proof -
  obtain ev S where "snd (stub_main F nm []) = [] @ ev" "held_path {} ev S"
    "ends_normally (fst (stub_main F nm [])) \<longrightarrow> S = {}"
    using tidy_stub_main [of F nm] unfolding tidy_def by (metis inf_bot_left)
  then show ?thesis by (auto split: flow.splits)
qed

end
