(* ===== verification/Staged_Files.thy ===== *)
theory Staged_Files
  imports Pe_Image Gc
begin

text \<open>
  The temporary files the installer stages for \<open>objcopy\<close> (\<open>utils.rs\<close>, \<open>pe.rs\<close>): which file holds what
  after a sequence of writes to fresh names, and that such a sequence succeeds when nothing
  fails.
\<close>

subsection \<open>Temporary files\<close>

definition tmp_path :: "env \<Rightarrow> path \<Rightarrow> nat \<Rightarrow> path" where
  "tmp_path E d n = d @ [map (\<lambda>i. alphanumeric E (n + i)) [0..<TEMPFILE_RANDOM_LENGTH]]"

text \<open>What \<open>fastrand::alphanumeric\<close> promises.\<close>

definition alphanumeric_names :: "env \<Rightarrow> bool" where
  "alphanumeric_names E \<longleftrightarrow> (\<forall>n. alphanumeric E n \<noteq> CHR ''/'' \<and> alphanumeric E n \<noteq> CHR ''.'')"

lemma tmp_name_plain:
  assumes "alphanumeric_names E"
  shows "plain_name (map (\<lambda>i. alphanumeric E (n + i)) [0..<TEMPFILE_RANDOM_LENGTH])"
proof -
  let ?s = "map (\<lambda>i. alphanumeric E (n + i)) [0..<TEMPFILE_RANDOM_LENGTH]"
  have long: "x \<noteq> [] \<and> x \<noteq> ''.'' \<and> x \<noteq> ''..''" if "length x = 32" for x :: string using that by auto
  have "?s \<noteq> [] \<and> ?s \<noteq> ''.'' \<and> ?s \<noteq> ''..''" by (rule long) (simp add: TEMPFILE_RANDOM_LENGTH_def)
  moreover have "CHR ''/'' \<notin> set ?s" using assms by (auto simp: alphanumeric_names_def)
  ultimately show ?thesis by (simp add: plain_name_def)
qed

lemma path_join_tmpname:
  "alphanumeric_names E \<Longrightarrow>
     path_join d (map (\<lambda>i. alphanumeric E (n + i)) [0..<TEMPFILE_RANDOM_LENGTH]) = tmp_path E d n"
  unfolding tmp_path_def by (rule path_join_plain [OF tmp_name_plain])

text \<open>The path of the k-th temporary file after \<open>n\<close> random draws.\<close>

definition slot_path :: "env \<Rightarrow> path \<Rightarrow> nat \<Rightarrow> nat \<Rightarrow> path" where
  "slot_path E dir n k = tmp_path E dir (n + k * TEMPFILE_RANDOM_LENGTH)"

text \<open>What a step leaves of the files: everything but one path, or everything.\<close>

definition same_but :: "path set \<Rightarrow> world \<Rightarrow> world \<Rightarrow> bool" where
  "same_but A w w' \<longleftrightarrow> (\<forall>q. q \<notin> A \<longrightarrow> fs_get (files w') q = fs_get (files w) q)"

lemma same_but_trans: "same_but A w w1 \<Longrightarrow> same_but B w1 w2 \<Longrightarrow> same_but (A \<union> B) w w2"
  by (simp add: same_but_def)

definition holds :: "world \<Rightarrow> path \<Rightarrow> bytes \<Rightarrow> bool" where
  "holds w p d \<longleftrightarrow> (\<exists>m. fs_get (files w) p = Some (File d m))"

lemma holds_unique: "holds w p d \<Longrightarrow> holds w p d' \<Longrightarrow> d' = d"
  by (auto simp: holds_def)

lemma holds_same: "same_but A w w' \<Longrightarrow> p \<notin> A \<Longrightarrow> holds w' p d = holds w p d"
  by (simp add: same_but_def holds_def)

lemma syscall_draws: "syscall f w = (r, w') \<Longrightarrow> draws w' = draws w"
  by (auto simp: syscall_def Let_def split: prod.splits)

lemma io_draws:
  "io_read p w = (r, w') \<Longrightarrow> draws w' = draws w" "io_create m p w = (u, w') \<Longrightarrow> draws w' = draws w"
  "io_write_all p d w = (v, w') \<Longrightarrow> draws w' = draws w"
  unfolding io_read_def io_create_def io_write_all_def by (erule syscall_draws)+

lemma io_read_run:
  assumes "io_read p w = (Ok d, w')"
  shows "holds w p d \<and> draws w' = draws w \<and> same_but {} w w'"
  using io_read_Ok [OF assms] io_draws(1) [OF assms] by (auto simp: holds_def same_but_def)

lemma write_secure_file_Ok:
  assumes "write_secure_file E d c w = (Ok p, w')" "alphanumeric_names E"
  shows "p = tmp_path E d (draws w) \<and> draws w' = draws w + TEMPFILE_RANDOM_LENGTH \<and> holds w' p c \<and> same_but {p} w w'"
proof -
  obtain w1 where run: "p = tmp_path E d (draws w)"
    "io_create 0x180 p (w\<lparr>draws := draws w + TEMPFILE_RANDOM_LENGTH\<rparr>) = (Ok (), w1)"
    "io_write_all p c w1 = (Ok (), w')"
    using assms(1) unfolding write_secure_file_def create_secure_file_def tmpname_def bind_io_Ok Let_def
    by (auto simp: path_join_tmpname [OF assms(2)])
  obtain m m' where "files w1 = fs_put p (File [] m) (files w)" "files w' = fs_put p (File c m') (files w1)"
    using io_create_Ok [OF run(2)] io_write_all_Ok [OF run(3)] by auto
  then show ?thesis
    using run(1) io_draws(2) [OF run(2)] io_draws(3) [OF run(3)] by (simp add: holds_def same_but_def)
qed

lemma file_hash_run:
  assumes "file_hash E p w = (Ok h, w')"
  shows "(\<exists>d. holds w p d \<and> h = sha256 E d) \<and> draws w' = draws w \<and> same_but {} w w'"
  using assms by (auto simp: file_hash_def bind_io_Ok dest!: io_read_run)

lemma file_size_run:
  assumes "Tool_Env.file_size p w = (Ok n, w')"
  shows "(\<exists>d. holds w p d \<and> n = of_nat (length d)) \<and> draws w' = draws w \<and> same_but {} w w'"
  using assms by (auto simp: Tool_Env.file_size_def bind_io_Ok dest!: io_read_run)

lemma stub_offset_run:
  assumes "stub_offset E p w = (Ok off, w')"
  shows "\<exists>d pe base. holds w p d \<and> pe_parse E d = Some pe \<and> optional_image_base pe = Some base \<and> sections pe \<noteq> [] \<and>
    off = ucast (virtual_size (last (sections pe)) + virtual_address (last (sections pe))) + base \<and>
    draws w' = draws w \<and> same_but {} w w'"
  using assms
  by (auto simp: stub_offset_def bind_io_Ok image_base_def outcome_simps Let_def dest!: io_read_run split: if_splits)

lemma tmp_path_abs: "abs_path d \<Longrightarrow> alphanumeric_names E \<Longrightarrow> abs_path (tmp_path E d n)"
  unfolding tmp_path_def using tmp_name_plain [of E n]
  by (intro abs_path_append) (simp_all add: component_def plain_name_def)

subsection \<open>Staging the files\<close>

text \<open>The given contents have been written to the first temporary files, and nothing else has changed.\<close>

definition staged :: "env \<Rightarrow> path \<Rightarrow> world \<Rightarrow> bytes list \<Rightarrow> world \<Rightarrow> bool" where
  "staged E dir w0 cs w \<longleftrightarrow>
     draws w = draws w0 + length cs * TEMPFILE_RANDOM_LENGTH \<and>
     (\<forall>k < length cs. holds w (slot_path E dir (draws w0) k) (cs ! k)) \<and>
     same_but (slot_path E dir (draws w0) ` {0..<length cs}) w0 w"

lemma staged_start: "staged E dir w [] w"
  by (simp add: staged_def same_but_def)

lemma staged_read: "staged E dir w0 cs w \<Longrightarrow> draws w' = draws w \<and> same_but {} w w' \<Longrightarrow> staged E dir w0 cs w'"
  by (auto simp: staged_def same_but_def holds_def)

lemma staged_write:
  assumes "staged E dir w0 cs w" "write_secure_file E dir c w = (Ok p, w')" "alphanumeric_names E"
    "inj_on (slot_path E dir (draws w0)) {0..<7}" "length cs < 7"
  shows "p = slot_path E dir (draws w0) (length cs) \<and> staged E dir w0 (cs @ [c]) w'"
proof -
  have p: "p = slot_path E dir (draws w0) (length cs)" "draws w' = draws w + TEMPFILE_RANDOM_LENGTH" "holds w' p c"
    "same_but {p} w w'"
    using write_secure_file_Ok [OF assms(2,3)] assms(1) by (auto simp: slot_path_def staged_def)
  have "slot_path E dir (draws w0) k \<noteq> p" if "k < length cs" for k
    using inj_onD [OF assms(4), of k "length cs"] that assms(5) p(1) by auto
  then show ?thesis
    using p assms(1) unfolding staged_def
    by (auto simp: less_Suc_eq nth_append holds_def same_but_def atLeast0_lessThan_Suc)
qed

lemma staged_file: "staged E dir w0 cs w \<Longrightarrow> k < length cs \<Longrightarrow> holds w (slot_path E dir (draws w0) k) (cs ! k)"
  by (simp add: staged_def)

lemma staged_input:
  assumes "staged E dir w0 cs w" "q \<notin> slot_path E dir (draws w0) ` {0..<7}" "length cs \<le> 7"
  shows "holds w q d = holds w0 q d"
proof -
  have "q \<notin> slot_path E dir (draws w0) ` {0..<length cs}" using assms(2,3) by auto
  then show ?thesis using holds_same assms(1) unfolding staged_def by blast
qed

lemma staged_hash:
  assumes "staged E dir w0 cs w" "file_hash E q w = (Ok h, w')" "q \<notin> slot_path E dir (draws w0) ` {0..<7}"
    "length cs \<le> 7" "holds w0 q d"
  shows "h = sha256 E d \<and> staged E dir w0 cs w'"
  using file_hash_run [OF assms(2)] staged_input [OF assms(1,3,4)] assms(5) staged_read [OF assms(1)] holds_unique
  by blast

lemma staged_size:
  assumes "staged E dir w0 cs w" "Tool_Env.file_size (slot_path E dir (draws w0) k) w = (Ok n, w')" "k < length cs"
  shows "n = of_nat (length (cs ! k)) \<and> staged E dir w0 cs w'"
  using file_size_run [OF assms(2)] staged_file [OF assms(1,3)] staged_read [OF assms(1)] holds_unique by blast

subsection \<open>Undisturbed runs\<close>

lemma io_read_runs: "faults w = [] \<Longrightarrow> holds w p d \<Longrightarrow> \<exists>w'. io_read p w = (Ok d, w') \<and> faults w' = []"
  by (auto simp: io_read_def syscall_fault_free holds_def)

lemma file_hash_runs: "faults w = [] \<Longrightarrow> holds w p d \<Longrightarrow> \<exists>w'. file_hash E p w = (Ok (sha256 E d), w') \<and> faults w' = []"
  using io_read_runs [of w p d] by (auto simp: file_hash_def bind_io_Ok)

lemma file_size_runs:
  "faults w = [] \<Longrightarrow> holds w p d \<Longrightarrow> \<exists>w'. Tool_Env.file_size p w = (Ok (of_nat (length d)), w') \<and> faults w' = []"
  using io_read_runs [of w p d] by (auto simp: Tool_Env.file_size_def bind_io_Ok)

lemma stub_offset_runs:
  assumes "faults w = []" "holds w p d" "pe_parse E d = Some pe" "optional_image_base pe = Some base" "sections pe \<noteq> []"
  shows "\<exists>w'. stub_offset E p w =
      (Ok (ucast (virtual_size (last (sections pe)) + virtual_address (last (sections pe))) + base), w') \<and> faults w' = []"
  using io_read_runs [OF assms(1,2)] assms(3-5)
  by (auto simp: stub_offset_def bind_io_Ok image_base_def Let_def outcome_simps)

lemma write_secure_file_runs:
  assumes "faults w = []" "is_dir (files w) dir" "\<not> is_dir (files w) (tmp_path E dir (draws w))" "alphanumeric_names E"
  shows "\<exists>w'. write_secure_file E dir c w = (Ok (tmp_path E dir (draws w)), w') \<and> faults w' = []"
proof -
  have "parent_ok s (tmp_path E dir n) \<longleftrightarrow> is_dir s dir" for s n
    by (simp add: parent_ok_def tmp_path_def)
  then show ?thesis
    using assms
    by (auto simp: write_secure_file_def tmpname_def create_secure_file_def bind_io_def path_join_tmpname Let_def
        io_create_def io_write_all_def syscall_fault_free ret_def)
qed

lemma staged_runs:
  assumes "staged E dir w0 cs w" "faults w = []" "fs_get (files w0) dir = Some Dir"
    "\<And>k. fs_get (files w0) (slot_path E dir (draws w0) k) = None" "alphanumeric_names E"
    "inj_on (slot_path E dir (draws w0)) {0..<7}" "length cs < 7"
  shows "\<exists>w'. write_secure_file E dir c w = (Ok (slot_path E dir (draws w0) (length cs)), w') \<and> faults w' = [] \<and>
    staged E dir w0 (cs @ [c]) w'"
proof -
  let ?p = "slot_path E dir (draws w0) (length cs)"
  have p: "tmp_path E dir (draws w) = ?p" using assms(1) by (simp add: staged_def slot_path_def)
  have "dir \<notin> slot_path E dir (draws w0) ` {0..<length cs}" by (auto simp: slot_path_def tmp_path_def)
  then have "is_dir (files w) dir" using assms(1,3) by (simp add: staged_def same_but_def is_dir_def)
  moreover have "?p \<notin> slot_path E dir (draws w0) ` {0..<length cs}"
    using inj_onD [OF assms(6)] assms(7) by fastforce
  then have "fs_get (files w) ?p = None" using assms(1,4) by (simp add: staged_def same_but_def)
  moreover obtain n where "?p = dir @ [n]" "plain_name n"
    using tmp_name_plain [OF assms(5)] unfolding slot_path_def tmp_path_def by blast
  then have "?p \<noteq> [] \<and> ?p \<noteq> [''/'']" by (auto simp: plain_name_def)
  ultimately have "\<not> is_dir (files w) ?p" by (simp add: is_dir_def)
  with p \<open>is_dir (files w) dir\<close> obtain w' where w': "write_secure_file E dir c w = (Ok ?p, w')" "faults w' = []"
    using write_secure_file_runs [OF assms(2) _ _ assms(5)] by force
  with staged_write [OF assms(1) w'(1) assms(5-7)] show ?thesis by blast
qed

text \<open>A directory to stage files in, and a run that has staged some of them and meets no faults.\<close>

definition staging :: "env \<Rightarrow> path \<Rightarrow> world \<Rightarrow> bool" where
  "staging E dir w0 \<longleftrightarrow>
     fs_get (files w0) dir = Some Dir \<and> (\<forall>k. fs_get (files w0) (slot_path E dir (draws w0) k) = None) \<and>
     alphanumeric_names E \<and> inj_on (slot_path E dir (draws w0)) {0..<7}"

definition ready :: "env \<Rightarrow> path \<Rightarrow> world \<Rightarrow> bytes list \<Rightarrow> world \<Rightarrow> bool" where
  "ready E dir w0 cs w \<longleftrightarrow> staged E dir w0 cs w \<and> faults w = []"

lemma run_write:
  assumes "ready E dir w0 cs w" "staging E dir w0" "length cs < 7"
    "\<And>w'. ready E dir w0 (cs @ [c]) w' \<Longrightarrow> fst (f (slot_path E dir (draws w0) (length cs)) w') = r"
  shows "fst (bind_io (write_secure_file E dir c) f w) = r"
proof -
  obtain w' where "write_secure_file E dir c w = (Ok (slot_path E dir (draws w0) (length cs)), w')"
    "ready E dir w0 (cs @ [c]) w'"
    using staged_runs [of E dir w0 cs w c] assms(1-3) unfolding ready_def staging_def by blast
  with assms(4) show ?thesis by (simp add: bind_io_def)
qed

lemma run_hash:
  assumes "ready E dir w0 cs w" "holds w0 q d" "q \<notin> slot_path E dir (draws w0) ` {0..<7}" "length cs \<le> 7"
    "\<And>w'. ready E dir w0 cs w' \<Longrightarrow> fst (f (sha256 E d) w') = r"
  shows "fst (bind_io (file_hash E q) f w) = r"
proof -
  have st: "staged E dir w0 cs w" "faults w = []" using assms(1) by (simp_all add: ready_def)
  then have "holds w q d" using staged_input [OF st(1) assms(3,4)] assms(2) by simp
  then obtain w' where w': "file_hash E q w = (Ok (sha256 E d), w')" "faults w' = []"
    using file_hash_runs st(2) by blast
  moreover have "ready E dir w0 cs w'"
    using file_hash_run [OF w'(1)] staged_read [OF st(1)] w'(2) by (simp add: ready_def)
  ultimately show ?thesis using assms(5) by (simp add: bind_io_def)
qed

lemma run_size:
  assumes "ready E dir w0 cs w" "k < length cs"
    "\<And>w'. ready E dir w0 cs w' \<Longrightarrow> fst (f (of_nat (length (cs ! k))) w') = r"
  shows "fst (bind_io (Tool_Env.file_size (slot_path E dir (draws w0) k)) f w) = r"
proof -
  have st: "staged E dir w0 cs w" "faults w = []" using assms(1) by (simp_all add: ready_def)
  then obtain w' where w': "Tool_Env.file_size (slot_path E dir (draws w0) k) w = (Ok (of_nat (length (cs ! k))), w')"
    "faults w' = []"
    using file_size_runs staged_file [OF st(1) assms(2)] by blast
  moreover have "ready E dir w0 cs w'"
    using file_size_run [OF w'(1)] staged_read [OF st(1)] w'(2) by (simp add: ready_def)
  ultimately show ?thesis using assms(3) by (simp add: bind_io_def)
qed

lemma run_offset:
  assumes "ready E dir w0 cs w" "holds w0 q d" "q \<notin> slot_path E dir (draws w0) ` {0..<7}" "length cs \<le> 7"
    "pe_parse E d = Some pe" "optional_image_base pe = Some base" "sections pe \<noteq> []"
    "\<And>w'. ready E dir w0 cs w' \<Longrightarrow>
       fst (f (ucast (virtual_size (last (sections pe)) + virtual_address (last (sections pe))) + base) w') = r"
  shows "fst (bind_io (stub_offset E q) f w) = r"
proof -
  have st: "staged E dir w0 cs w" "faults w = []" using assms(1) by (simp_all add: ready_def)
  then have "holds w q d" using staged_input [OF st(1) assms(3,4)] assms(2) by simp
  then obtain w' where w': "stub_offset E q w =
      (Ok (ucast (virtual_size (last (sections pe)) + virtual_address (last (sections pe))) + base), w')" "faults w' = []"
    using stub_offset_runs [OF st(2) _ assms(5-7)] by blast
  moreover have "ready E dir w0 cs w'"
    using stub_offset_run [OF w'(1)] staged_read [OF st(1)] w'(2) by (auto simp: ready_def)
  ultimately show ?thesis using assms(8) by (simp add: bind_io_def)
qed

lemma run_wrap:
  assumes "ready E dir w0 cs w" "length cs = 6" "staging E dir w0"
    "fst (run E ''objcopy'' (concat (map to_objcopy ss) @ [path_display stub, path_display (slot_path E dir (draws w0) 6)])
       0 (files w)) = Some True"
  shows "fst (bind_io (tmpname E) (\<lambda>n. bind_io (wrap_in_pe E stub ss (path_join dir n)) (\<lambda>_. ret (path_join dir n))) w) =
    Ok (slot_path E dir (draws w0) 6)"
proof -
  define n where "n = map (\<lambda>i. alphanumeric E (draws w + i)) [0..<TEMPFILE_RANDOM_LENGTH]"
  define w' where "w' = w\<lparr>draws := draws w + TEMPFILE_RANDOM_LENGTH\<rparr>"
  have w': "tmpname E w = (Ok n, w')" "faults w' = []" "files w' = files w"
    using assms(1) by (simp_all add: tmpname_def n_def w'_def ready_def)
  have join: "path_join dir n = slot_path E dir (draws w0) 6"
    using assms(1-3) path_join_tmpname unfolding n_def ready_def staged_def staging_def slot_path_def by metis
  show ?thesis
    using assms(4) w' by (auto simp: bind_io_def join wrap_in_pe_def command_def syscall_fault_free ret_def split: prod.splits)
qed

end
