(* ===== verification/Section_Placement.thy ===== *)
theory Section_Placement
  imports Pe_Image
begin

text \<open>
  Where the installer places the sections it attaches to the stub (\<open>pe.rs\<close>, \<open>lanzaboote_image\<close> and
  \<open>stub_offset\<close>): behind the stub's own sections and apart from each other.
\<close>

subsection \<open>Room for the sections\<close>

text \<open>A section table in ascending order without overlaps, as the PE format asks for.\<close>

definition table_end :: "section_table \<Rightarrow> nat" where
  "table_end t = unat (virtual_address t) + unat (virtual_size t)"

definition table_ascending :: "section_table list \<Rightarrow> bool" where
  "table_ascending ts \<longleftrightarrow>
     sorted_wrt (\<lambda>a b. table_end a \<le> unat (virtual_address b)) ts \<and> list_all (\<lambda>t. table_end t < 2 ^ 32) ts"

text \<open>The given sections, with their lengths, lie behind the sections of the stub and do not overlap.\<close>

definition room_for :: "env \<Rightarrow> bytes \<Rightarrow> (Section \<times> nat) list \<Rightarrow> bool" where
  "room_for E stub xs \<longleftrightarrow>
     (\<exists>pe base. pe_parse E stub = Some pe \<and> optional_image_base pe = Some base \<and>
        list_all (\<lambda>(s, _). list_all (\<lambda>t. unat base + table_end t \<le> unat (s_offset s)) (sections pe)) xs \<and>
        sorted_wrt (\<lambda>(s, n) (t, _). unat (s_offset s) + n \<le> unat (s_offset t)) xs)"

lemma ascending_last:
  "table_ascending ts \<Longrightarrow> t \<in> set ts \<Longrightarrow> table_end t \<le> table_end (last ts)"
proof (induction ts)
  case (Cons a ts)
  show ?case
  proof (cases "t = a \<and> ts \<noteq> []")
    case True
    then have "table_end a \<le> unat (virtual_address (last ts))"
      using Cons.prems(1) by (simp add: table_ascending_def)
    with True show ?thesis by (simp add: table_end_def)
  next
    case False
    with Cons show ?thesis by (auto simp: table_ascending_def)
  qed
qed simp

definition total_size :: "(string \<times> path \<times> u64) list \<Rightarrow> nat" where
  "total_size xs = (\<Sum>(_, _, n) \<leftarrow> xs. unat n)"

lemma unat_add_less: "unat (a :: u64) + unat b < 2 ^ 64 \<Longrightarrow> unat (a + b) = unat a + unat b"
  by (simp add: unat_word_ariths)

lemma unat_add_u32: "unat (a :: u32) + unat b < 2 ^ 32 \<Longrightarrow> unat (a + b) = unat a + unat b"
  by (simp add: unat_word_ariths)

lemma place_sections_above:
  "unat offs + total_size xs < 2 ^ 64 \<Longrightarrow> s \<in> set (place_sections offs xs) \<Longrightarrow> unat offs \<le> unat (s_offset s)"
proof (induction offs xs rule: place_sections.induct)
  case (2 offs n f sz xs)
  then have sum: "unat (offs + sz) = unat offs + unat sz"
    by (intro unat_add_less) (simp add: total_size_def)
  show ?case
  proof (cases "s \<in> set (place_sections (offs + sz) xs)")
    case True
    then show ?thesis using "2.IH" "2.prems"(1) sum by (simp add: total_size_def)
  qed (use "2.prems"(2) in auto)
qed simp

text \<open>The length of the last section does not enter the placement.\<close>

lemma place_sections_apart:
  assumes "unat offs + total_size xs < 2 ^ 64" "length ns = length xs"
    "\<And>i. Suc i < length xs \<Longrightarrow> ns ! i = unat (snd (snd (xs ! i)))"
  shows "sorted_wrt (\<lambda>(s, n) (t, _). unat (s_offset s) + n \<le> unat (s_offset t)) (zip (place_sections offs xs) ns)"
  using assms
proof (induction offs xs arbitrary: ns rule: place_sections.induct)
  case (2 offs n f sz xs)
  then obtain k ks where ns: "ns = k # ks" by (cases ns) auto
  have sum: "unat (offs + sz) = unat offs + unat sz"
    using "2.prems"(1) by (intro unat_add_less) (simp add: total_size_def)
  have room: "unat (offs + sz) + total_size xs < 2 ^ 64"
    using "2.prems"(1) sum by (simp add: total_size_def)
  have "k = unat sz" if "xs \<noteq> []" using "2.prems"(3) [of 0] that ns by simp
  then have "unat offs + k \<le> unat (s_offset t)" if "(t, l) \<in> set (zip (place_sections (offs + sz) xs) ks)" for t l
    using that place_sections_above [OF room] sum by (cases "xs = []") (auto dest!: set_zip_leftD)
  moreover have "ks ! i = unat (snd (snd (xs ! i)))" if "Suc i < length xs" for i
    using "2.prems"(3) [of "Suc i"] that ns by simp
  ultimately show ?case using "2.IH" [OF room] "2.prems"(2) ns by auto
qed simp

lemma length_place_sections [simp]: "length (place_sections offs xs) = length xs"
  by (induction offs xs rule: place_sections.induct) auto

lemma placed_room:
  assumes "pe_parse E stub = Some pe" "optional_image_base pe = Some base" "sections pe \<noteq> []"
    "table_ascending (sections pe)" "unat base + 2 ^ 32 + total_size xs < 2 ^ 64" "length ns = length xs"
    "\<And>i. Suc i < length xs \<Longrightarrow> ns ! i = unat (snd (snd (xs ! i)))"
  shows "room_for E stub (zip (place_sections
    (ucast (virtual_size (last (sections pe)) + virtual_address (last (sections pe))) + base) xs) ns)"
proof -
  let ?t = "last (sections pe)" and ?off = "ucast (virtual_size (last (sections pe)) + virtual_address (last (sections pe))) + base"
  have "table_end ?t < 2 ^ 32" using assms(3,4) by (auto simp: table_ascending_def list_all_iff)
  then have "unat (virtual_size ?t + virtual_address ?t) = table_end ?t"
    using unat_add_u32 [of "virtual_size ?t" "virtual_address ?t"] unfolding table_end_def by linarith
  then have "unat (ucast (virtual_size ?t + virtual_address ?t) :: u64) = table_end ?t"
    by (simp only: unat_ucast_u32)
  then have off: "unat ?off = unat base + table_end ?t"
    using unat_add_less [of "ucast (virtual_size ?t + virtual_address ?t)" base] \<open>table_end ?t < 2 ^ 32\<close> assms(5)
    by linarith
  have small: "unat ?off + total_size xs < 2 ^ 64" using off \<open>table_end ?t < 2 ^ 32\<close> assms(5) by linarith
  have above: "unat base + table_end t \<le> unat (s_offset s)"
    if "s \<in> set (place_sections ?off xs)" "t \<in> set (sections pe)" for s t
    using place_sections_above [OF small that(1)] ascending_last [OF assms(4) that(2)] off by linarith
  have "list_all (\<lambda>(s, _). list_all (\<lambda>t. unat base + table_end t \<le> unat (s_offset s)) (sections pe))
      (zip (place_sections ?off xs) ns)"
    unfolding list_all_iff by (intro ballI) (use above set_zip_leftD in fastforce)
  then show ?thesis
    unfolding room_for_def using assms(1,2) place_sections_apart [OF small assms(6,7)] by blast
qed

lemma place_sections_parts:
  "map s_name (place_sections offs xs) = map fst xs" "map s_file_path (place_sections offs xs) = map (fst \<circ> snd) xs"
  by (induction offs xs rule: place_sections.induct) auto

lemma total_size_zip:
  "length ns = length szs \<Longrightarrow> length fs = length szs \<Longrightarrow> total_size (zip ns (zip fs szs)) = sum_list (map unat szs)"
proof (induction szs arbitrary: ns fs)
  case (Cons z szs)
  then show ?case by (cases ns; cases fs) (auto simp: total_size_def)
qed (simp add: total_size_def)

end
