(* ===== verification/Built_Image.thy ===== *)
theory Built_Image
  imports Staged_Files Section_Placement Stub_Properties
begin

text \<open>
  From the installer to the stub: the image the installer assembles carries, in the sections the stub
  reads, the paths and hashes the installer was given, so the stub's checks succeed on the files the
  installer hashed. \<open>objcopy\<close> and the firmware's image loader lie in between; what is relied on of
  them is the definition \<open>objcopy_attaches\<close>.
\<close>

subsection \<open>What objcopy and the image loader promise\<close>

text \<open>
  \<open>in_memory d\<close> is the parsed image in memory the firmware makes of a file \<open>d\<close> when it starts it. If
  objcopy succeeds, the sections it was asked to add, when they have room behind the stub, are found
  there under their names with exactly the contents of their files.
\<close>

definition objcopy_attaches :: "env \<Rightarrow> (bytes \<Rightarrow> ParsedPe) \<Rightarrow> bool" where
  "objcopy_attaches E in_memory \<longleftrightarrow>
     (\<forall>stub out ss cs k s s' d m.
        abs_path stub \<and> abs_path out \<and> list_all (\<lambda>x. abs_path (s_file_path x) \<and> CHR ''='' \<notin> set (s_name x)) ss \<and>
        distinct (map s_name ss) \<and> out \<notin> s_file_path ` set ss \<and> fs_get s stub = Some (File d m) \<and>
        list_all2 (\<lambda>x c. \<exists>m. fs_get s (s_file_path x) = Some (File c m)) ss cs \<and>
        room_for E d (zip ss (map length cs)) \<and>
        run E ''objcopy'' (concat (map to_objcopy ss) @ [path_display stub, path_display out]) k s = (Some True, s') \<longrightarrow>
        (\<exists>d' m'. fs_get s' out = Some (File d' m') \<and>
           list_all2 (\<lambda>x c. section_data (in_memory d') (s_name x) = Ok (Some c)) ss cs))"

lemma objcopy_attachesD:
  assumes "objcopy_attaches E in_memory" "abs_path stub" "abs_path out"
    "list_all (\<lambda>x. abs_path (s_file_path x) \<and> CHR ''='' \<notin> set (s_name x)) ss" "distinct (map s_name ss)"
    "out \<notin> s_file_path ` set ss" "fs_get s stub = Some (File d m)"
    "list_all2 (\<lambda>x c. \<exists>m. fs_get s (s_file_path x) = Some (File c m)) ss cs" "room_for E d (zip ss (map length cs))"
    "run E ''objcopy'' (concat (map to_objcopy ss) @ [path_display stub, path_display out]) k s = (Some True, s')"
  obtains d' m' where "fs_get s' out = Some (File d' m')"
    "list_all2 (\<lambda>x c. section_data (in_memory d') (s_name x) = Ok (Some c)) ss cs"
  using assms(1) [unfolded objcopy_attaches_def, rule_format, OF conjI [OF assms(2) conjI [OF assms(3) conjI [OF assms(4)
    conjI [OF assms(5) conjI [OF assms(6) conjI [OF assms(7) conjI [OF assms(8) conjI [OF assms(9,10)]]]]]]]]]
  by (elim exE conjE)

text \<open>The contents of the sections, in the order of the placement.\<close>

definition image_contents :: "env \<Rightarrow> StubParameters \<Rightarrow> bytes \<Rightarrow> bytes \<Rightarrow> (string \<times> bytes) list" where
  "image_contents E sp k r =
     [(''.osrel'', os_release_contents sp), (''.cmdline'', join_with '' '' (kernel_cmdline sp)),
      (''.initrd'', initrd_path_at_esp sp), (''.linux'', kernel_path_at_esp sp),
      (''.initrdh'', sha256 E r), (''.linuxh'', sha256 E k)]"

text \<open>The sizes the placement uses; that of the last section is not needed.\<close>

definition image_sizes :: "env \<Rightarrow> StubParameters \<Rightarrow> bytes \<Rightarrow> u64 list" where
  "image_sizes E sp r =
     [of_nat (length (os_release_contents sp)), of_nat (length (join_with '' '' (kernel_cmdline sp))),
      of_nat (length (initrd_path_at_esp sp)), of_nat (length (kernel_path_at_esp sp)),
      of_nat (length (sha256 E r)), 0]"

text \<open>The temporary files in the order of the sections: the files were written in another order.\<close>

definition image_files :: "env \<Rightarrow> path \<Rightarrow> nat \<Rightarrow> path list" where
  "image_files E dir n = map (slot_path E dir n) [5, 0, 3, 1, 4, 2]"

definition carries :: "ParsedPe \<Rightarrow> (string \<times> bytes) list \<Rightarrow> bool" where
  "carries p cs \<longleftrightarrow> list_all (\<lambda>(n, c). section_data p n = Ok (Some c)) cs"

text \<open>The stub's own sections are in order and there is room for the sections behind them.\<close>

definition stub_fits :: "env \<Rightarrow> bytes \<Rightarrow> nat \<Rightarrow> bool" where
  "stub_fits E d n \<longleftrightarrow>
     (\<exists>pe base. pe_parse E d = Some pe \<and> optional_image_base pe = Some base \<and> table_ascending (sections pe) \<and>
        unat base + 2 ^ 32 + n < 2 ^ 64)"

text \<open>Seven different temporary names are drawn, none of them naming an input.\<close>

definition fresh_names :: "env \<Rightarrow> path \<Rightarrow> StubParameters \<Rightarrow> nat \<Rightarrow> bool" where
  "fresh_names E dir sp n \<longleftrightarrow>
     inj_on (slot_path E dir n) {0..<7} \<and>
     {lanzaboote_store_path sp, kernel_store_path sp, initrd_store_path sp} \<inter> slot_path E dir n ` {0..<7} = {}"

subsection \<open>The staged image\<close>

lemma lanzaboote_image_files:
  assumes run: "lanzaboote_image E dir sp w = (Ok p, w')" and names: "alphanumeric_names E"
    and fresh: "fresh_names E dir sp (draws w)"
    and inputs: "holds w (kernel_store_path sp) kd" "holds w (initrd_store_path sp) rd" "holds w (lanzaboote_store_path sp) d"
  shows "\<exists>v pe base. staged E dir w [join_with '' '' (kernel_cmdline sp), kernel_path_at_esp sp, sha256 E kd,
      initrd_path_at_esp sp, sha256 E rd, os_release_contents sp] v \<and>
    pe_parse E d = Some pe \<and> optional_image_base pe = Some base \<and> sections pe \<noteq> [] \<and>
    p = slot_path E dir (draws w) 6 \<and>
    wrap_in_pe E (lanzaboote_store_path sp)
      (place_sections (ucast (virtual_size (last (sections pe)) + virtual_address (last (sections pe))) + base)
        (zip (map fst (image_contents E sp kd rd)) (zip (image_files E dir (draws w)) (image_sizes E sp rd)))) p
      (v\<lparr>draws := draws v + TEMPFILE_RANDOM_LENGTH\<rparr>) = (Ok (), w')"
proof -
  obtain f0 f1 kh f2 f3 rh f4 f5 offs n0 n1 n2 n3 n4 nm w1 w2 w3 w4 w5 w6 w7 w8 w9 v0 v1 v2 v3 v4 v where
    steps: "write_secure_file E dir (join_with '' '' (kernel_cmdline sp)) w = (Ok f0, w1)"
    "write_secure_file E dir (kernel_path_at_esp sp) w1 = (Ok f1, w2)"
    "file_hash E (kernel_store_path sp) w2 = (Ok kh, w3)" "write_secure_file E dir kh w3 = (Ok f2, w4)"
    "write_secure_file E dir (initrd_path_at_esp sp) w4 = (Ok f3, w5)"
    "file_hash E (initrd_store_path sp) w5 = (Ok rh, w6)" "write_secure_file E dir rh w6 = (Ok f4, w7)"
    "write_secure_file E dir (os_release_contents sp) w7 = (Ok f5, w8)"
    "stub_offset E (lanzaboote_store_path sp) w8 = (Ok offs, w9)"
    "Tool_Env.file_size f5 w9 = (Ok n0, v0)" "Tool_Env.file_size f0 v0 = (Ok n1, v1)"
    "Tool_Env.file_size f3 v1 = (Ok n2, v2)" "Tool_Env.file_size f1 v2 = (Ok n3, v3)"
    "Tool_Env.file_size f4 v3 = (Ok n4, v4)" "tmpname E v4 = (Ok nm, v)" "p = path_join dir nm"
    "wrap_in_pe E (lanzaboote_store_path sp) (place_sections offs [(''.osrel'', f5, n0), (''.cmdline'', f0, n1),
       (''.initrd'', f3, n2), (''.linux'', f1, n3), (''.initrdh'', f4, n4), (''.linuxh'', f2, 0)]) p v = (Ok (), w')"
    using run unfolding lanzaboote_image_def bind_io_Ok Let_def ret_Ok by (elim exE conjE) auto
  have inj: "inj_on (slot_path E dir (draws w)) {0..<7}" using fresh by (simp add: fresh_names_def)
  have apart: "q \<notin> slot_path E dir (draws w) ` {0..<7}"
    if "q \<in> {lanzaboote_store_path sp, kernel_store_path sp, initrd_store_path sp}" for q
    using fresh that unfolding fresh_names_def by blast
  note put = staged_write [OF conjunct2 _ names inj]
  note s1 = staged_write [OF staged_start steps(1) names inj, simplified]
  note s2 = put [OF s1 steps(2), simplified]
  note s3 = staged_hash [OF conjunct2 [OF s2] steps(3) apart [of "kernel_store_path sp"] _ inputs(1), simplified]
  note s4 = put [OF s3 steps(4), simplified]
  note s5 = put [OF s4 steps(5), simplified]
  note s6 = staged_hash [OF conjunct2 [OF s5] steps(6) apart [of "initrd_store_path sp"] _ inputs(2), simplified]
  note s7 = put [OF s6 steps(7), simplified]
  note s8 = put [OF s7 steps(8), simplified]
  obtain d' pe base where stub: "holds w8 (lanzaboote_store_path sp) d'" "pe_parse E d' = Some pe"
    "optional_image_base pe = Some base" "sections pe \<noteq> []"
    "offs = ucast (virtual_size (last (sections pe)) + virtual_address (last (sections pe))) + base"
    "draws w9 = draws w8 \<and> same_but {} w8 w9" using stub_offset_run [OF steps(9)] by blast
  have d': "d' = d"
    using stub(1) inputs(3) staged_input [OF conjunct2 [OF s8] apart, of "lanzaboote_store_path sp"] holds_unique by simp
  have slots: "f0 = slot_path E dir (draws w) 0" "f1 = slot_path E dir (draws w) 1" "f2 = slot_path E dir (draws w) 2"
    "f3 = slot_path E dir (draws w) 3" "f4 = slot_path E dir (draws w) 4" "f5 = slot_path E dir (draws w) 5"
    using s1 s2 s4 s5 s7 s8 by (simp_all add: eval_nat_numeral)
  note z0 = staged_size [OF staged_read [OF conjunct2 [OF s8] stub(6)] steps(10) [unfolded slots], simplified]
  note z1 = staged_size [OF conjunct2 [OF z0] steps(11) [unfolded slots], simplified]
  note z2 = staged_size [OF conjunct2 [OF z1] steps(12) [unfolded slots], simplified]
  note z3 = staged_size [OF conjunct2 [OF z2] steps(13) [unfolded slots], simplified]
  note z4 = staged_size [OF conjunct2 [OF z3] steps(14) [unfolded slots], simplified]
  have "p = slot_path E dir (draws w) 6" "v = v4\<lparr>draws := draws v4 + TEMPFILE_RANDOM_LENGTH\<rparr>"
    using steps(15,16) path_join_tmpname [OF names] z4 by (auto simp: tmpname_def slot_path_def staged_def eval_nat_numeral)
  then show ?thesis
    using steps(17) stub(2-5) d' z0 z1 z2 z3 z4 s3 s6 slots
    by (intro exI [of _ v4] exI [of _ pe] exI [of _ base])
      (simp add: image_contents_def image_sizes_def image_files_def)
qed

text \<open>Without faults, on inputs that exist, the image is assembled whenever objcopy succeeds.\<close>

lemma lanzaboote_image_runs:
  assumes start: "staging E dir w" "faults w = []" "fresh_names E dir sp (draws w)"
    and inputs: "holds w (kernel_store_path sp) kd" "holds w (initrd_store_path sp) rd" "holds w (lanzaboote_store_path sp) d"
    and pe: "pe_parse E d = Some pe" "optional_image_base pe = Some base" "sections pe \<noteq> []"
    and objcopy: "\<And>v. staged E dir w [join_with '' '' (kernel_cmdline sp), kernel_path_at_esp sp, sha256 E kd,
        initrd_path_at_esp sp, sha256 E rd, os_release_contents sp] v \<Longrightarrow>
      fst (run E ''objcopy'' (concat (map to_objcopy (place_sections
          (ucast (virtual_size (last (sections pe)) + virtual_address (last (sections pe))) + base)
          (zip (map fst (image_contents E sp kd rd)) (zip (image_files E dir (draws w)) (image_sizes E sp rd))))) @
        [path_display (lanzaboote_store_path sp), path_display (slot_path E dir (draws w) 6)]) 0 (files v)) = Some True"
  shows "fst (lanzaboote_image E dir sp w) = Ok (slot_path E dir (draws w) 6)"
proof -
  have apart: "q \<notin> slot_path E dir (draws w) ` {0..<7}"
    if "q \<in> {lanzaboote_store_path sp, kernel_store_path sp, initrd_store_path sp}" for q
    using start(3) that unfolding fresh_names_def by blast
  have first: "ready E dir w [] w" using start(2) by (simp add: ready_def staged_start)
  note puts = run_write [OF _ start(1)]
    and hashes = run_hash [OF _ inputs(1) apart] run_hash [OF _ inputs(2) apart]
    and offset = run_offset [OF _ inputs(3) apart _ pe]
  show ?thesis
    unfolding lanzaboote_image_def Let_def
    apply (rule puts [OF first], simp, rule puts, assumption, simp, rule hashes(1), assumption, simp, simp)
    apply (rule puts, assumption, simp, rule puts, assumption, simp, rule hashes(2), assumption, simp, simp)
    apply (rule puts, assumption, simp, rule puts, assumption, simp, rule offset, assumption, simp, simp)
    apply (rule run_size, assumption, simp, rule run_size, assumption, simp, rule run_size, assumption, simp)
    apply (rule run_size, assumption, simp, rule run_size, assumption, simp)
    apply (rule run_wrap [OF _ _ start(1)], assumption, simp)
    using objcopy by (simp add: ready_def image_contents_def image_files_def image_sizes_def eval_nat_numeral)
qed

subsection \<open>The image\<close>

lemma image_sizes_lengths:
  fixes cs :: "bytes list"
  assumes "cs = map snd (image_contents E sp kd rd)" "sum_list (map length cs) < 2 ^ 64"
  shows "map unat (image_sizes E sp rd) = butlast (map length cs) @ [0]"
    "sum_list (map unat (image_sizes E sp rd)) \<le> sum_list (map length cs)"
proof -
  have "unat (of_nat (length c) :: u64) = length c" if "c \<in> set cs" for c
  proof -
    have "length c \<le> sum_list (map length cs)" using that by (simp add: member_le_sum_list)
    with assms(2) show ?thesis by (simp add: unat_of_nat)
  qed
  then show "map unat (image_sizes E sp rd) = butlast (map length cs) @ [0]"
    by (simp add: assms(1) image_contents_def image_sizes_def)
  then show "sum_list (map unat (image_sizes E sp rd)) \<le> sum_list (map length cs)"
    by (simp add: assms(1) image_contents_def)
qed

abbreviation behind :: "pe \<Rightarrow> u64 \<Rightarrow> u64" where
  "behind pe base \<equiv> ucast (virtual_size (last (sections pe)) + virtual_address (last (sections pe))) + base"

lemma image_room:
  assumes pe: "pe_parse E d = Some pe" "optional_image_base pe = Some base" "sections pe \<noteq> []"
    and fits: "stub_fits E d (\<Sum>(_, c) \<leftarrow> image_contents E sp kd rd. length c)" and fs: "length fs = 6"
  shows "room_for E d (zip (place_sections (behind pe base)
      (zip (map fst (image_contents E sp kd rd)) (zip fs (image_sizes E sp rd))))
    (map length (map snd (image_contents E sp kd rd))))"
proof -
  define cs where "cs = map snd (image_contents E sp kd rd)"
  define szs where "szs = image_sizes E sp rd"
  let ?xs = "zip (map fst (image_contents E sp kd rd)) (zip fs szs)"
  have lens: "length cs = 6" "length szs = 6" "length (map fst (image_contents E sp kd rd)) = 6"
    by (simp_all add: cs_def szs_def image_contents_def image_sizes_def)
  have total: "(\<Sum>(_, c) \<leftarrow> image_contents E sp kd rd. length c) = sum_list (map length cs)"
    by (simp add: cs_def image_contents_def)
  have asc: "table_ascending (sections pe)" and bound: "unat base + 2 ^ 32 + sum_list (map length cs) < 2 ^ 64"
    using fits pe(1,2) unfolding stub_fits_def total by auto
  have sizes: "map unat szs = butlast (map length cs) @ [0]" "sum_list (map unat szs) \<le> sum_list (map length cs)"
    using image_sizes_lengths [OF cs_def] bound unfolding szs_def by simp_all
  have "total_size ?xs = sum_list (map unat szs)" using lens fs by (intro total_size_zip) simp_all
  then have small: "unat base + 2 ^ 32 + total_size ?xs < 2 ^ 64" using bound sizes(2) by linarith
  have "map length cs ! i = unat (snd (snd (?xs ! i)))" if "Suc i < length ?xs" for i
  proof -
    have i: "i < 5" using that lens fs by simp
    then have "unat (szs ! i) = map unat szs ! i" using lens by simp
    then show ?thesis unfolding sizes(1) using i lens fs by (simp add: nth_append nth_butlast)
  qed
  from placed_room [OF pe asc small _ this] show ?thesis using lens fs unfolding cs_def szs_def by simp
qed

lemma image_section_names: "distinct (map fst (image_contents E sp kd rd))"
  "n \<in> fst ` set (image_contents E sp kd rd) \<Longrightarrow> CHR ''='' \<notin> set n"
  by (auto simp: image_contents_def)

lemma built_image_carries:
  assumes run: "lanzaboote_image E dir sp w = (Ok p, w')" and names: "alphanumeric_names E"
    and fresh: "fresh_names E dir sp (draws w)"
    and inputs: "holds w (kernel_store_path sp) kd" "holds w (initrd_store_path sp) rd" "holds w (lanzaboote_store_path sp) d"
    and abs: "abs_path dir" "abs_path (lanzaboote_store_path sp)"
    and objcopy: "objcopy_attaches E in_memory"
    and fits: "stub_fits E d (\<Sum>(_, c) \<leftarrow> image_contents E sp kd rd. length c)"
  shows "\<exists>d'. holds w' p d' \<and> carries (in_memory d') (image_contents E sp kd rd)"
proof -
  define ns where "ns = map fst (image_contents E sp kd rd)"
  define cs where "cs = map snd (image_contents E sp kd rd)"
  define fs where "fs = image_files E dir (draws w)"
  obtain v pe base where st: "staged E dir w [join_with '' '' (kernel_cmdline sp), kernel_path_at_esp sp, sha256 E kd,
      initrd_path_at_esp sp, sha256 E rd, os_release_contents sp] v"
    and pe: "pe_parse E d = Some pe" "optional_image_base pe = Some base" "sections pe \<noteq> []"
    and p: "p = slot_path E dir (draws w) 6"
    and wrap: "wrap_in_pe E (lanzaboote_store_path sp) (place_sections (behind pe base)
        (zip ns (zip fs (image_sizes E sp rd)))) p (v\<lparr>draws := draws v + TEMPFILE_RANDOM_LENGTH\<rparr>) = (Ok (), w')"
    using lanzaboote_image_files [OF run names fresh inputs] unfolding ns_def fs_def by blast
  define ss where "ss = place_sections (behind pe base) (zip ns (zip fs (image_sizes E sp rd)))"
  have lens: "length fs = 6" "length ns = 6" "length (image_sizes E sp rd) = 6"
    by (simp_all add: fs_def ns_def image_files_def image_contents_def image_sizes_def)
  have ss: "map s_name ss = ns" "map s_file_path ss = fs"
    unfolding ss_def place_sections_parts by (simp_all add: lens flip: map_map)
  have room: "room_for E d (zip ss (map length cs))"
    unfolding ss_def ns_def cs_def by (rule image_room [OF pe fits lens(1)])
  have "list_all2 (holds v) fs cs"
    using staged_file [OF st, of 0] staged_file [OF st, of 1] staged_file [OF st, of 2] staged_file [OF st, of 3]
      staged_file [OF st, of 4] staged_file [OF st, of 5]
    by (simp add: fs_def cs_def image_files_def image_contents_def)
  then have files: "list_all2 (\<lambda>x c. \<exists>m. fs_get (files v) (s_file_path x) = Some (File c m)) ss cs"
    unfolding ss(2) [symmetric] list_all2_map1 holds_def .
  have paths: "set fs \<subseteq> slot_path E dir (draws w) ` {0..<6}" by (auto simp: fs_def image_files_def)
  have "slot_path E dir (draws w) 6 \<noteq> slot_path E dir (draws w) k" if "k < 6" for k
    using fresh that inj_onD [of "slot_path E dir (draws w)" "{0..<7}" 6 k] unfolding fresh_names_def by auto
  then have "p \<notin> set fs" using paths unfolding p by (meson atLeastLessThan_iff imageE subsetD)
  moreover have fs: "s_file_path ` set ss = set fs" using ss(2) by (metis list.set_map)
  ultimately have out: "p \<notin> s_file_path ` set ss" by simp
  have absolute: "abs_path q" if "q \<in> set fs \<union> {p}" for q
    using that paths p tmp_path_abs [OF abs(1) names] by (auto simp: slot_path_def)
  have plain: "CHR ''='' \<notin> set (s_name x)" if "x \<in> set ss" for x
    using ss(1) image_section_names(2) that unfolding ns_def by (metis imageI list.set_map)
  have parts: "list_all (\<lambda>x. abs_path (s_file_path x) \<and> CHR ''='' \<notin> set (s_name x)) ss"
    unfolding list_all_iff using absolute plain fs by auto
  have dist: "distinct (map s_name ss)" unfolding ss(1) ns_def by (rule image_section_names)
  obtain m where stub: "fs_get (files v) (lanzaboote_store_path sp) = Some (File d m)"
    using staged_input [OF st, of "lanzaboote_store_path sp" d] inputs(3) fresh by (auto simp: fresh_names_def holds_def)
  obtain k where "run E ''objcopy'' (concat (map to_objcopy ss) @ [path_display (lanzaboote_store_path sp), path_display p])
      k (files v) = (Some True, files w')"
    using wrap unfolding ss_def [symmetric] by (auto simp: wrap_in_pe_def bind_io_Ok dest!: command_Ok split: if_splits)
  then obtain d' m' where "fs_get (files w') p = Some (File d' m')"
    and "list_all2 (\<lambda>x c. section_data (in_memory d') (s_name x) = Ok (Some c)) ss cs"
    using objcopy_attachesD [OF objcopy abs(2) absolute parts dist out stub files room] by blast
  then have "list_all2 (\<lambda>n c. section_data (in_memory d') n = Ok (Some c)) ns cs" "holds w' p d'"
    by (auto simp: list_all2_map1 holds_def simp flip: ss(1))
  then show ?thesis
    by (auto simp: carries_def ns_def cs_def list_all2_map1 list_all2_map2 list_all2_same list_all_iff case_prod_beta
        intro!: exI [of _ d'])
qed

subsection \<open>The stub accepts the image\<close>

lemma carries_strings:
  assumes "carries q (image_contents E sp kd rd)" "utf8_valid c" "fw_cstring16 F c = Some u"
    "(n, c) \<in> {(''.linux'', kernel_path_at_esp sp), (''.initrd'', initrd_path_at_esp sp),
       (''.cmdline'', join_with '' '' (kernel_cmdline sp))}"
  shows "extract_string F q n = Ok u"
proof -
  have "section_data q n = Ok (Some c)" using assms(1,4) by (auto simp: carries_def image_contents_def)
  then show ?thesis using assms(2,3) by (simp add: extract_string_def)
qed

lemma carries_hashes:
  assumes "carries q (image_contents E sp kd rd)" "\<And>x. length (sha256 E x) = 32"
  shows "extract_hash q ''.linuxh'' = Ok (sha256 E kd)" "extract_hash q ''.initrdh'' = Ok (sha256 E rd)"
  using assms by (auto simp: carries_def image_contents_def extract_hash_def)

text \<open>
  C7: The stub accepts what the installer built. When the installer has assembled an image for a kernel and
  an initrd, and the firmware starts that image on a partition whose files have the contents the
  installer hashed, then the stub's checks succeed and it goes on with exactly that kernel, that initrd and
  the command line the installer put into the image. It is relied on that objcopy attaches sections
  that have room (which the installer's placement gives them), that both sides compute the same hash of 32
  bytes, and that the seven random names differ.\<close>

theorem built_image_verifies:
  assumes "lanzaboote_image E dir sp w = (Ok p, w')" "alphanumeric_names E" "fresh_names E dir sp (draws w)"
    "holds w (kernel_store_path sp) kd" "holds w (initrd_store_path sp) rd" "holds w (lanzaboote_store_path sp) d"
    "abs_path dir" "abs_path (lanzaboote_store_path sp)" "objcopy_attaches E in_memory"
    "stub_fits E d (\<Sum>(_, c) \<leftarrow> image_contents E sp kd rd. length c)"
    "\<And>x. length (sha256 E x) = 32" "fw_sha256 F = sha256 E"
    "\<And>d'. holds w' p d' \<Longrightarrow> from_pe_in_memory F i = Ok (in_memory d')"
    "utf8_valid (kernel_path_at_esp sp)" "fw_cstring16 F (kernel_path_at_esp sp) = Some kf"
    "utf8_valid (initrd_path_at_esp sp)" "fw_cstring16 F (initrd_path_at_esp sp) = Some rf"
    "utf8_valid (join_with '' '' (kernel_cmdline sp))" "fw_cstring16 F (join_with '' '' (kernel_cmdline sp)) = Some cmd"
    "\<And>h. fw_open_fs F h = None" "\<And>h. fw_read F h kf = Some kd" "\<And>h. fw_read F h rf = Some rd"
  shows "\<exists>h'. load_from_pe F i h = (Val \<lparr>kernel_data = kd, initrd_data = rd, cmdline = cmd\<rparr>, h')"
proof -
  obtain d' where d': "holds w' p d'" "carries (in_memory d') (image_contents E sp kd rd)"
    using built_image_carries [OF assms(1-10)] by blast
  note strings = carries_strings [OF d'(2)] and hashes = carries_hashes [OF d'(2) assms(11)]
  show ?thesis
    by (rule load_from_pe_success [OF assms(13) [OF d'(1)] strings [OF assms(14,15)] strings [OF assms(16,17)] _ _
          strings [OF assms(18,19)]])
      (simp_all add: hashes assms(12,20-22))
qed

subsection \<open>An installation on which the hypotheses hold\<close>

definition built_dir :: path where
  "built_dir = [''/'', ''t'']"

definition built_params :: StubParameters where
  "built_params =
     \<lparr>lanzaboote_store_path = [''/'', ''s''], kernel_cmdline = [''c''], os_release_contents = [],
      kernel_store_path = [''/'', ''k''], initrd_store_path = [''/'', ''i''],
      kernel_path_at_esp = ''k'', initrd_path_at_esp = ''i''\<rparr>"

definition built_name :: "nat \<Rightarrow> string" where
  "built_name k = replicate 32 (char_of (97 + k mod 26))"

definition built_sections :: "Section list" where
  "built_sections = place_sections 16 (zip [''.osrel'', ''.cmdline'', ''.initrd'', ''.linux'', ''.initrdh'', ''.linuxh'']
     (zip (map (\<lambda>k. built_dir @ [built_name k]) [5, 0, 3, 1, 4, 2]) [0, 1, 1, 1, 32, 0]))"

definition built_contents :: "bytes list" where
  "built_contents = [[], ''c'', ''i'', ''k'', sample_hash ''I'', sample_hash ''KK'']"

definition built_pe :: loaded_pe where
  "built_pe = sample_pe\<lparr>pe_sections := sample_section ''.osrel'' 0 0 # pe_sections sample_pe\<rparr>"

definition staged_contents :: "fs \<Rightarrow> bool" where
  "staged_contents s \<longleftrightarrow>
     map (\<lambda>x. case fs_get s (s_file_path x) of Some (File c _) \<Rightarrow> Some c | _ \<Rightarrow> None) built_sections = map Some built_contents"

definition built_run :: "string \<Rightarrow> string list \<Rightarrow> nat \<Rightarrow> fs \<Rightarrow> bool option \<times> fs" where
  "built_run prog args k s =
     (if args = concat (map to_objcopy built_sections) @ [''/s'', path_display (built_dir @ [built_name 6])] \<and> staged_contents s
      then (Some True, fs_put (built_dir @ [built_name 6]) (File ''image'' 0) s) else (None, s))"

definition built_env :: env where
  "built_env = sample_env\<lparr>sha256 := sample_hash, alphanumeric := (\<lambda>n. char_of (97 + n div 32 mod 26)), run := built_run,
     pe_parse := (\<lambda>_. Some \<lparr>sections = [sample_section ''.text'' 0 16], optional_image_base = Some 0\<rparr>)\<rparr>"

definition built_world :: world where
  "built_world = \<lparr>files = [([''/'', ''t''], Dir), ([''/'', ''s''], File ''S'' 0), ([''/'', ''k''], File ''KK'' 0),
     ([''/'', ''i''], File ''I'' 0)], history = [], faults = [], draws = 0\<rparr>"

lemma built_slot: "slot_path built_env built_dir 0 k = built_dir @ [built_name k]"
proof -
  have "(k * 32 + i) div 32 = k" if "i < 32" for i :: nat using that by simp
  then have "map (\<lambda>i. char_of (97 + (k * 32 + i) div 32 mod 26) :: char) [0..<32] = built_name k"
    by (intro nth_equalityI) (simp_all add: built_name_def)
  then show ?thesis
    by (simp add: slot_path_def tmp_path_def built_env_def TEMPFILE_RANDOM_LENGTH_def del: upt_rec_numeral)
qed

lemma built_name_inj: "i < 7 \<Longrightarrow> j < 7 \<Longrightarrow> built_name i = built_name j \<longleftrightarrow> i = j"
proof -
  assume ij: "i < 7" "j < 7"
  have "built_name i = built_name j \<longleftrightarrow> (char_of (97 + i) :: char) = char_of (97 + j)"
    using ij by (simp add: built_name_def replicate_eq_replicate)
  also have "\<dots> \<longleftrightarrow> i = j" using ij by (simp add: char_of_eq_iff take_bit_eq_mod)
  finally show ?thesis .
qed

lemma built_offset: "behind \<lparr>sections = [sample_section ''.text'' 0 16], optional_image_base = Some 0\<rparr> 0 = 16"
  by (simp add: sample_section_def)

lemma built_hash [simp]: "sha256 built_env = sample_hash"
  by (simp add: built_env_def)

lemma length_sample_hash [simp]: "length (sample_hash d) = 32"
  by (simp add: sample_hash_def)

lemma built_placed:
  "place_sections 16 (zip (map fst (image_contents built_env built_params ''KK'' ''I''))
     (zip (image_files built_env built_dir 0) (image_sizes built_env built_params ''I''))) = built_sections"
  by (simp add: built_sections_def image_contents_def image_files_def image_sizes_def built_slot built_params_def)

lemma built_fits: "stub_fits built_env d (\<Sum>(_, c) \<leftarrow> image_contents built_env built_params ''KK'' ''I''. length c)"
  by (simp add: stub_fits_def built_env_def table_ascending_def table_end_def sample_section_def image_contents_def
      built_params_def)

lemma built_fresh: "fresh_names built_env built_dir built_params 0"
  unfolding fresh_names_def inj_on_def built_slot by (auto simp: built_name_inj built_params_def built_dir_def)

lemma built_names: "alphanumeric_names built_env"
proof -
  have "char_of (97 + k mod 26) \<noteq> CHR ''/'' \<and> char_of (97 + k mod 26) \<noteq> CHR ''.''" for k :: nat
  proof -
    have "97 + k mod 26 < 256" by (rule order.strict_trans1 [of _ 122]) simp_all
    then show ?thesis by (auto simp: char_of_eq_iff take_bit_eq_mod)
  qed
  then show ?thesis by (simp add: alphanumeric_names_def built_env_def)
qed

lemma built_staging: "staging built_env built_dir built_world"
proof -
  have "inj_on (slot_path built_env built_dir (draws built_world)) {0..<7}"
    using built_fresh by (simp add: fresh_names_def built_world_def)
  moreover have "fs_get (files built_world) (built_dir @ [n]) = None" for n
    by (simp add: built_world_def built_dir_def fs_get_def)
  ultimately show ?thesis
    using built_names by (simp add: staging_def built_slot built_world_def) (simp add: built_dir_def fs_get_def)
qed

lemma built_staged:
  assumes "staged built_env built_dir built_world [''c'', ''k'', sample_hash ''KK'', ''i'', sample_hash ''I'', []] v"
  shows "staged_contents (files v)"
proof -
  have "draws built_world = 0" by (simp add: built_world_def)
  then have "holds v (built_dir @ [built_name k])
      ([''c'', ''k'', sample_hash ''KK'', ''i'', sample_hash ''I'', []] ! k)" if "k < 6" for k
    using staged_file [OF assms, of k] that by (simp add: built_slot)
  from this [of 0] this [of 1] this [of 2] this [of 3] this [of 4] this [of 5] show ?thesis
    by (auto simp: staged_contents_def built_sections_def built_contents_def holds_def)
qed

lemma built_inputs:
  "holds built_world (kernel_store_path built_params) ''KK''" "holds built_world (initrd_store_path built_params) ''I''"
  "holds built_world (lanzaboote_store_path built_params) ''S''"
  by (simp_all add: holds_def built_world_def built_params_def fs_get_def)

lemma built_runs: "fst (lanzaboote_image built_env built_dir built_params built_world) = Ok (built_dir @ [built_name 6])"
proof -
  have parse: "pe_parse built_env ''S'' = Some \<lparr>sections = [sample_section ''.text'' 0 16], optional_image_base = Some 0\<rparr>"
    by (simp add: built_env_def)
  have [simp]: "draws built_world = 0" "run built_env = built_run" "path_display [''/'', ''s''] = ''/s''"
    by (simp_all add: built_world_def built_env_def path_display_def is_absolute_def)
  have "fst (lanzaboote_image built_env built_dir built_params built_world) = Ok (slot_path built_env built_dir (draws built_world) 6)"
  proof (rule lanzaboote_image_runs [OF built_staging _ _ built_inputs parse])
    fix v
    assume "staged built_env built_dir built_world [join_with '' '' (kernel_cmdline built_params), kernel_path_at_esp built_params,
      sha256 built_env ''KK'', initrd_path_at_esp built_params, sha256 built_env ''I'', os_release_contents built_params] v"
    then have "staged_contents (files v)" by (intro built_staged) (simp add: built_params_def)
    then show "fst (run built_env ''objcopy'' (concat (map to_objcopy (place_sections
          (behind \<lparr>sections = [sample_section ''.text'' 0 16], optional_image_base = Some 0\<rparr> 0)
          (zip (map fst (image_contents built_env built_params ''KK'' ''I''))
            (zip (image_files built_env built_dir (draws built_world)) (image_sizes built_env built_params ''I''))))) @
        [path_display (lanzaboote_store_path built_params), path_display (slot_path built_env built_dir (draws built_world) 6)])
        0 (files v)) = Some True"
      unfolding built_offset built_slot by (simp add: built_placed built_slot built_run_def) (simp add: built_params_def)
  qed (simp_all add: built_fresh, simp add: built_world_def)
  then show ?thesis by (simp add: built_slot)
qed

lemma append_at_inject:
  "a @ x # u = b @ x # v \<Longrightarrow> x \<notin> set a \<Longrightarrow> x \<notin> set b \<Longrightarrow> a = b \<and> u = v"
  by (induction a arbitrary: b) (auto simp: Cons_eq_append_conv append_eq_Cons_conv)

lemma to_objcopy_inject:
  assumes "concat (map to_objcopy ss) @ [a, b] = concat (map to_objcopy ts) @ [a', b']"
    "list_all (\<lambda>x. abs_path (s_file_path x) \<and> CHR ''='' \<notin> set (s_name x)) ss"
    "list_all (\<lambda>x. abs_path (s_file_path x) \<and> CHR ''='' \<notin> set (s_name x)) ts"
  shows "map s_name ss = map s_name ts \<and> map s_file_path ss = map s_file_path ts \<and> a = a' \<and> b = b'"
  using assms
proof (induction ss arbitrary: ts)
  case Nil
  then show ?case by (cases ts) (auto simp: to_objcopy_def)
next
  case (Cons x ss)
  then obtain y us where ts: "ts = y # us" by (cases ts) (auto simp: to_objcopy_def)
  then have eq: "s_name x @ CHR ''='' # path_display (s_file_path x) = s_name y @ CHR ''='' # path_display (s_file_path y)"
    and rest: "concat (map to_objcopy ss) @ [a, b] = concat (map to_objcopy us) @ [a', b']"
    using Cons.prems(1) by (simp_all add: to_objcopy_def [of x] to_objcopy_def [of y])
  then have "s_name x = s_name y" "path_display (s_file_path x) = path_display (s_file_path y)"
    using append_at_inject [OF eq] Cons.prems(2,3) ts by simp_all
  moreover have "abs_path (s_file_path x)" "abs_path (s_file_path y)" using Cons.prems(2,3) ts by simp_all
  ultimately have "s_name x = s_name y" "s_file_path x = s_file_path y" using path_of_display by metis+
  then show ?case using Cons.IH [OF rest] Cons.prems(2,3) ts by simp
qed

lemma built_paths: "list_all (\<lambda>x. abs_path (s_file_path x) \<and> CHR ''='' \<notin> set (s_name x)) built_sections"
  "abs_path (built_dir @ [built_name 6])"
proof -
  have "plain_name (built_name k)" for k
    using tmp_name_plain [OF built_names, of "k * TEMPFILE_RANDOM_LENGTH"] built_slot [of k]
    unfolding slot_path_def tmp_path_def by simp
  then have "CHR ''/'' \<notin> set (built_name k) \<and> built_name k \<noteq> [] \<and> built_name k \<noteq> ''.''" for k
    by (simp add: plain_name_def)
  then show "list_all (\<lambda>x. abs_path (s_file_path x) \<and> CHR ''='' \<notin> set (s_name x)) built_sections"
    "abs_path (built_dir @ [built_name 6])"
    by (auto simp: built_sections_def abs_path_def component_def built_dir_def)
qed

lemma staged_contents_determined:
  assumes "staged_contents s" "map s_file_path ss = map s_file_path built_sections"
    "list_all2 (\<lambda>x c. \<exists>m. fs_get s (s_file_path x) = Some (File c m)) ss cs"
  shows "cs = built_contents"
proof -
  let ?c = "\<lambda>p. case fs_get s p of Some (File c _) \<Rightarrow> Some c | _ \<Rightarrow> None"
  have "map (?c \<circ> s_file_path) ss = map Some cs"
    using assms(3) by (induction rule: list_all2_induct) auto
  moreover have "map (?c \<circ> s_file_path) ss = map (?c \<circ> s_file_path) built_sections"
    using assms(2) by (metis map_map)
  moreover have "map (?c \<circ> s_file_path) built_sections = map Some built_contents"
    using assms(1) by (simp add: staged_contents_def comp_def)
  ultimately have "map Some cs = map Some built_contents" by simp
  then show ?thesis by (simp add: inj_map_eq_map)
qed

lemma built_sections_data:
  "list_all2 (\<lambda>n c. section_data \<lparr>pe_data = sample_memory, parsed = built_pe\<rparr> n = Ok (Some c))
     (map s_name built_sections) built_contents"
  unfolding built_sections_def place_sections_parts by code_simp

lemma built_attaches: "objcopy_attaches built_env (\<lambda>_. \<lparr>pe_data = sample_memory, parsed = built_pe\<rparr>)"
  unfolding objcopy_attaches_def
proof (intro allI impI, elim conjE)
  fix stub out ss cs k s s' d m
  assume abs: "abs_path out" "list_all (\<lambda>x. abs_path (s_file_path x) \<and> CHR ''='' \<notin> set (s_name x)) ss"
    and files: "list_all2 (\<lambda>x c. \<exists>m. fs_get s (s_file_path x) = Some (File c m)) ss cs"
    and run: "run built_env ''objcopy'' (concat (map to_objcopy ss) @ [path_display stub, path_display out]) k s = (Some True, s')"
  from run have args: "concat (map to_objcopy ss) @ [path_display stub, path_display out] =
      concat (map to_objcopy built_sections) @ [''/s'', path_display (built_dir @ [built_name 6])]"
    and st: "staged_contents s" and s': "s' = fs_put (built_dir @ [built_name 6]) (File ''image'' 0) s"
    by (auto simp: built_env_def built_run_def split: if_splits)
  have eq: "map s_name ss = map s_name built_sections" "map s_file_path ss = map s_file_path built_sections"
    "path_display out = path_display (built_dir @ [built_name 6])"
    using to_objcopy_inject [OF args abs(2) built_paths(1)] by simp_all
  have "out = built_dir @ [built_name 6]" using eq(3) path_of_display abs(1) built_paths(2) by metis
  moreover have "cs = built_contents" by (rule staged_contents_determined [OF st eq(2) files])
  moreover have "list_all2 (\<lambda>n c. section_data \<lparr>pe_data = sample_memory, parsed = built_pe\<rparr> n = Ok (Some c)) (map s_name ss) built_contents"
    unfolding eq(1) by (rule built_sections_data)
  ultimately show "\<exists>d' m'. fs_get s' out = Some (File d' m') \<and>
      list_all2 (\<lambda>x c. section_data \<lparr>pe_data = sample_memory, parsed = built_pe\<rparr> (s_name x) = Ok (Some c)) ss cs"
    by (simp add: s' list_all2_map1)
qed

theorem built_image_verifies_witness:
  "\<exists>h'. load_from_pe ((sample_firmware (Inl NOT_FOUND))\<lparr>fw_parse_in_memory := (\<lambda>_. Some built_pe)\<rparr>) (bf_image sample_files) [] =
     (Val \<lparr>kernel_data = ''KK'', initrd_data = ''I'', cmdline = cstr16 ''c''\<rparr>, h')"
proof -
  let ?F = "(sample_firmware (Inl NOT_FOUND))\<lparr>fw_parse_in_memory := (\<lambda>_. Some built_pe)\<rparr>"
  obtain w' where run: "lanzaboote_image built_env built_dir built_params built_world = (Ok (built_dir @ [built_name 6]), w')"
    using built_runs by (metis prod.collapse)
  have fresh: "fresh_names built_env built_dir built_params (draws built_world)"
    using built_fresh by (simp add: built_world_def)
  have mem: "from_pe_in_memory ?F (bf_image sample_files) = Ok \<lparr>pe_data = sample_memory, parsed = built_pe\<rparr>"
    using sample_from_pe [of "Inl NOT_FOUND"] by (auto simp: from_pe_in_memory_def as_slice_def Let_def split: option.splits)
  show ?thesis
  proof (rule built_image_verifies [OF run built_names fresh built_inputs _ _ built_attaches built_fits, where kf = "cstr16 ''k''" and rf = "cstr16 ''i''"])
    show "from_pe_in_memory ?F (bf_image sample_files) = Ok \<lparr>pe_data = sample_memory, parsed = built_pe\<rparr>" by (rule mem)
    show "fw_read ?F h (cstr16 ''k'') = Some ''KK''" for h by (simp add: sample_firmware_def sample_read_def)
    show "fw_read ?F h (cstr16 ''i'') = Some ''I''" for h by (simp add: sample_firmware_def sample_read_def cstr16_def)
  qed (simp_all add: built_dir_def built_params_def abs_path_def component_def sample_firmware_def)
qed

end
