(* ===== verification/Kernel_Return.thy ===== *)
theory Kernel_Return
  imports Stub_Run Sample_Firmware
begin

text \<open>
  A kernel that returns: the stub frees its memory, puts its own image handle back and uninstalls the
  protocols it had installed, and passes the status of the kernel on.
\<close>

subsection \<open>Starting\<close>

lemma bind_u_Fail:
  "bind_u m f h = (Fail s, h') \<longleftrightarrow> m h = (Fail s, h') \<or> (\<exists>a h1. m h = (Val a, h1) \<and> f a h1 = (Fail s, h'))"
  by (auto simp: bind_u_def split: prod.splits flow.splits)

text \<open>What the history gains while an image is started and returns.\<close>

definition start_events :: "firmware \<Rightarrow> Image \<Rightarrow> handle \<Rightarrow> bytes \<Rightarrow> history \<Rightarrow> history" where
  "start_events F k d cmd h =
     (let h1 = h @ [Open LoadedImage d True]; size = of_nat (length (img_bytes k))
      in [Open LoadedImage d True, SetImage (img_base k) size, SetLoadOptions (Some cmd),
          Start d (img_bytes k) (img_entry k), FreePages (img_base k) (bytes_to_pages size) True,
          SetImage (fst (fw_image_info F h1)) (snd (fw_image_info F h1)), SetLoadOptions (fw_load_options F h1),
          Close LoadedImage d])"

lemma set_load_options_Val: "set_load_options os h = (Val u, h') \<Longrightarrow> h' = h @ [SetLoadOptions os]"
  by (auto simp: set_load_options_def flow_simps split: option.splits if_splits)

lemma start_held_Val:
  assumes "start_held F k d cmd h = (Val s, h')"
  shows "h' = h @ [SetImage (img_base k) (of_nat (length (img_bytes k))), SetLoadOptions (Some cmd),
      Start d (img_bytes k) (img_entry k), FreePages (img_base k) (bytes_to_pages (of_nat (length (img_bytes k)))) True,
      SetImage (fst (fw_image_info F h)) (snd (fw_image_info F h)), SetLoadOptions (fw_load_options F h)]"
    and "\<exists>g. fw_kernel F g d (img_bytes k) (img_entry k) = Some s"
proof -
  let ?n = "of_nat (length (img_bytes k)) :: u64"
  obtain a n where info: "fw_image_info F h = (a, n)" by fastforce
  obtain h2 h3 h4 where run: "set_load_options (Some cmd) (h @ [SetImage (img_base k) ?n]) = (Val (), h2)"
    "run_kernel F d k h2 = (Val s, h3)" "restore_image F k a n (fw_load_options F h) h3 = (Val (), h')"
    using assms info by (auto simp: start_held_def flow_simps)
  have h2: "h2 = h @ [SetImage (img_base k) ?n, SetLoadOptions (Some cmd)]"
    using set_load_options_Val [OF run(1)] by simp
  have h3: "h3 = h2 @ [Start d (img_bytes k) (img_entry k)]" "fw_kernel F h2 d (img_bytes k) (img_entry k) = Some s"
    using run(2) by (auto simp: run_kernel_def split: option.splits)
  have "h' = h3 @ [FreePages (img_base k) (bytes_to_pages ?n) True, SetImage a n, SetLoadOptions (fw_load_options F h)]"
    using run(3) by (auto simp: restore_image_def free_pages_def flow_simps dest!: set_load_options_Val)
  then show "h' = h @ [SetImage (img_base k) ?n, SetLoadOptions (Some cmd),
      Start d (img_bytes k) (img_entry k), FreePages (img_base k) (bytes_to_pages ?n) True,
      SetImage (fst (fw_image_info F h)) (snd (fw_image_info F h)), SetLoadOptions (fw_load_options F h)]"
    using h2 h3 info by simp
  show "\<exists>g. fw_kernel F g d (img_bytes k) (img_entry k) = Some s" using h3 by blast
qed

lemma start_Val:
  assumes "start F k d cmd h = (Val s, h')"
  shows "h' = h @ start_events F k d cmd h" "\<exists>g. fw_kernel F g d (img_bytes k) (img_entry k) = Some s"
proof -
  obtain h1 where run: "start_held F k d cmd (h @ [Open LoadedImage d True]) = (Val s, h1)" "h' = h1 @ [Close LoadedImage d]"
    using assms by (auto simp: start_def open_protocol_exclusive_def close_protocol_def flow_simps)
  show "h' = h @ start_events F k d cmd h"
    using start_held_Val(1) [OF run(1)] run(2) by (simp add: start_events_def Let_def)
  show "\<exists>g. fw_kernel F g d (img_bytes k) (img_entry k) = Some s"
    using start_held_Val(2) [OF run(1)] .
qed

lemma start_no_Fail: "start F k d cmd h \<noteq> (Fail s, h')"
proof -
  have opts: "set_load_options os h \<noteq> (Fail s, h')" for os h s h'
    by (auto simp: set_load_options_def panic_u_def emit_def split: option.splits)
  have run: "run_kernel F d k h \<noteq> (Fail s, h')" for h s h'
    by (auto simp: run_kernel_def split: option.splits)
  have held: "start_held F k d cmd h \<noteq> (Fail s, h')" for h s h'
    by (auto simp: start_held_def restore_image_def bind_u_Fail opts run expect_u_not_Fail look_def emit_def ret_u_def
        split: prod.splits)
  have fin: "finally_u (start_held F k d cmd) (close_protocol LoadedImage d) h \<noteq> (Fail s, h')" for h s h'
    using held by (auto simp: finally_u_def bind_u_Fail try_u_def close_protocol_def emit_def ret_u_def flow_simps
        split: prod.splits flow.splits sum.splits)
  show ?thesis using fin by (auto simp: start_def bind_u_Fail expect_u_not_Fail)
qed

subsection \<open>The way back\<close>

definition uninstall_events :: "handle \<Rightarrow> bytes \<Rightarrow> history" where
  "uninstall_events d rd =
     [Uninstall d (DevicePathInterface DEVICE_PATH_PROTOCOL) True, Uninstall d (LoadFile2Interface rd) True]"

lemma uninstall_Val:
  assumes "uninstall F l h = (Val l', h')"
  shows "\<not> registered l'" "h' = h @ uninstall_events (loader_handle l) (loader_initrd l)"
  using assms
  by (auto simp: uninstall_def uninstall_protocol_interface_def uninstall_events_def flow_simps split: if_splits)

text \<open>When the uninstallation fails, dropping the loader panics: the stub does not get further.\<close>

lemma uninstall_no_Fail:
  assumes "registered l"
  shows "on_error_u (uninstall F l) (drop_loader l) h \<noteq> (Fail s, h')"
  using assms
  by (auto simp: on_error_u_def bind_u_Fail try_u_def drop_loader_def panic_u_def ret_u_def bind_u_def
      split: prod.splits flow.splits sum.splits)

definition status_result :: "unit flow \<Rightarrow> status \<Rightarrow> bool" where
  "status_result r s \<longleftrightarrow> (case r of Val _ \<Rightarrow> s = SUCCESS | Fail t \<Rightarrow> s = t | _ \<Rightarrow> False)"

lemma after_start:
  assumes "bind_u (start F k d cmd) (\<lambda>status.
      bind_u (on_error_u (uninstall F l) (drop_loader l)) (\<lambda>loader.
      bind_u (drop_loader loader) (\<lambda>_. if status = SUCCESS then ret_u () else fail_u status))) h = (r, h')"
    "status_result r s" "registered l"
  shows "h' = h @ start_events F k d cmd h @ uninstall_events (loader_handle l) (loader_initrd l) \<and>
    (\<exists>g. fw_kernel F g d (img_bytes k) (img_entry k) = Some s)"
proof -
  obtain t h1 where t: "start F k d cmd h = (Val t, h1)"
    using assms(1,2) start_no_Fail
    by (cases "start F k d cmd h"; cases "fst (start F k d cmd h)") (auto simp: bind_u_def status_result_def)
  obtain l' h2 where l': "on_error_u (uninstall F l) (drop_loader l) h1 = (Val l', h2)"
    using assms t uninstall_no_Fail [OF assms(3)]
    by (cases "on_error_u (uninstall F l) (drop_loader l) h1"; cases "fst (on_error_u (uninstall F l) (drop_loader l) h1)")
      (auto simp: bind_u_def status_result_def)
  then have u: "uninstall F l h1 = (Val l', h2)" by (simp add: flow_simps)
  have "s = t" "h' = h2"
    using assms(1,2) t l' uninstall_Val(1) [OF u]
    by (auto simp: bind_u_def drop_loader_def ret_u_def fail_u_def status_result_def split: if_splits)
  then show ?thesis using start_Val [OF t] uninstall_Val(2) [OF u] by simp
qed

lemma unchecked_returns:
  assumes "boot_linux_unchecked F d kf cmd rd h = (r, h')" "status_result r s"
    "Start d' img entry \<in> set h'" "Start d' img entry \<notin> set h"
  shows "d' = d \<and> (\<exists>g. fw_kernel F g d img entry = Some s) \<and>
    (\<exists>k pre. img_bytes k = img \<and> img_entry k = entry \<and> Install d (LoadFile2Interface rd) True \<in> set pre \<and>
       h' = pre @ start_events F k d cmd pre @ uninstall_events d rd)"
proof -
  have e: "Start d' img entry \<in> set (snd (boot_linux_unchecked F d kf cmd rd h))" using assms(1,3) by simp
  show ?thesis
  proof (rule unchecked_start [OF e assms(4)])
    fix k h1 l h2 sz post
    assume k: "load F kf h = (Val k, h1)" and l: "InitrdLoader_new F d rd h1 = (Val l, h2)"
      and eq: "d' = d" "img = img_bytes k" "entry = img_entry k"
    have new: "l = \<lparr>loader_initrd = rd, loader_handle = d, registered = True\<rparr>" "Install d (LoadFile2Interface rd) True \<in> set h2"
      using l by (auto simp: InitrdLoader_new_def install_protocol_interface_def flow_simps)
    have "expect_u (load F kf) h = (Val k, h1)" using k by (simp add: flow_simps)
    then have "bind_u (start F k d cmd) (\<lambda>status.
        bind_u (on_error_u (uninstall F l) (drop_loader l)) (\<lambda>loader.
        bind_u (drop_loader loader) (\<lambda>_. if status = SUCCESS then ret_u () else fail_u status))) h2 = (r, h')"
      using assms(1) l by (simp add: boot_linux_unchecked_def bind_u_run)
    from after_start [OF this assms(2)] show ?thesis using new eq by auto
  qed
qed

text \<open>
  C30: A kernel that returns leaves nothing behind. When the stub returns a status after it started an image, that is
  the status the image returned; its pages were freed, the stub's own image and load options, as they were
  before, were put back, the LoadedImage protocol was closed, and the initrd protocols were
  uninstalled, in this order and nothing else after the start.\<close>

theorem kernel_return_restores:
  assumes "stub_main F nm [] = (Val s, h)" "Start d img entry \<in> set h"
  shows "d = fw_image_handle F \<and> (\<exists>g. fw_kernel F g d img entry = Some s) \<and>
    (\<exists>k cmd rd pre. img_bytes k = img \<and> img_entry k = entry \<and> Install d (LoadFile2Interface rd) True \<in> set pre \<and>
       h = pre @ start_events F k d cmd pre @ uninstall_events d rd)"
proof -
  let ?d = "fw_image_handle F"
  obtain c dyn h4 where prep: "prepare F nm [] = (Val (c, dyn), h4)" and st: "status_of (boot_linux F ?d c dyn) h4 = (Val s, h)"
    using assms(1) by (auto simp: stub_main_def flow_simps)
  obtain r where r: "boot_linux F ?d c dyn h4 = (r, h)" "status_result r s"
    using st by (cases "boot_linux F ?d c dyn h4"; cases "fst (boot_linux F ?d c dyn h4)")
      (auto simp: status_of_def bind_u_def try_u_def ret_u_def status_result_def)
  let ?rd = "append_initrds (pad_to_4 (initrd_data c)) dyn"
  obtain cmd h5 where cmd: "get_cmdline F (cmdline c) h4 = (Val cmd, h5)"
    using gives_run [OF gives_get_cmdline] by blast
  then have run: "boot_linux_unchecked F ?d (kernel_data c) cmd ?rd h5 = (r, h)"
    using r(1) by (simp add: boot_linux_def bind_u_run)
  obtain ev1 ev2 where "h4 = [] @ ev1" "list_all (\<lambda>e. \<not> is_start e) ev1" "h5 = h4 @ ev2" "list_all (\<lambda>e. \<not> is_start e) ev2"
    using emitsD [OF quiet_prepare prep] emitsD [OF quiet.emits_get_cmdline cmd] by blast
  then have "Start d img entry \<notin> set h5" by (auto simp: list_all_iff)
  from unchecked_returns [OF run r(2) assms(2) this] show ?thesis by blast
qed

definition returning_firmware :: firmware where
  "returning_firmware = (sample_firmware (Inl NOT_FOUND))\<lparr>fw_kernel := (\<lambda>_ _ _ _. Some LOAD_ERROR)\<rparr>"

lemma returning_boots:
  "image_boots returning_firmware sample_files" "kernel_boots returning_firmware sample_files"
  "safe (collect_companions returning_firmware (bf_image sample_files) t)"
proof -
  let ?F = "sample_firmware (Inl NOT_FOUND)"
  have same: "from_pe_in_memory returning_firmware i = from_pe_in_memory ?F i"
    "extract_string returning_firmware p n = extract_string ?F p n" for i p n
    by (simp_all add: returning_firmware_def from_pe_in_memory_def as_slice_def extract_string_def cong: if_cong)
  show "image_boots returning_firmware sample_files"
    using sample_image_boots [of "Inl NOT_FOUND"] by (simp add: image_boots_def same) (simp add: returning_firmware_def)
  show "kernel_boots returning_firmware sample_files"
    using sample_kernel_boots [of "Inl NOT_FOUND"] by (simp add: kernel_boots_def) (simp add: returning_firmware_def)
  show "safe (collect_companions returning_firmware (bf_image sample_files) t)"
    by (rule no_companions_safe) (simp_all add: sample_files_def sample_firmware_def returning_firmware_def)
qed

theorem kernel_return_restores_witness:
  "\<exists>h pre k cmd rd. stub_main returning_firmware ''lanzastub'' [] = (Val LOAD_ERROR, h) \<and>
     h = pre @ start_events returning_firmware k 1 cmd pre @ uninstall_events 1 rd \<and> img_bytes k = ''KK''"
proof -
  have "fst (stub_main returning_firmware ''lanzastub'' []) = Val LOAD_ERROR"
    using stub_returns [OF returning_boots]
    by (simp add: returning_firmware_def sample_firmware_def)
  then obtain h where h: "stub_main returning_firmware ''lanzastub'' [] = (Val LOAD_ERROR, h)"
    by (metis prod.collapse)
  have "Start 1 ''KK'' 1 \<in> set h"
    using boot_reaches_kernel [OF returning_boots, of "''lanzastub''" "[]"] h
    by (simp add: sample_files_def returning_firmware_def sample_firmware_def)
  from kernel_return_restores [OF h this] h show ?thesis by blast
qed

end
