(* ===== verification/Stub_Variables.thy ===== *)
theory Stub_Variables
  imports Stub_Run
begin

text \<open>
  The variables of the boot loader interface: the stub provides those that describe the boot only when the boot
  loader did not, so a variable it sets is one it has asked for before and did not find.
\<close>

text \<open>The answer to a read with a one-byte buffer that does not report an existing variable.\<close>

definition unset :: "status + bytes \<Rightarrow> bool" where
  "unset r \<longleftrightarrow> (case r of Inl s \<Rightarrow> s \<noteq> BUFFER_TOO_SMALL | Inr _ \<Rightarrow> False)"

definition asked_first :: "firmware \<Rightarrow> history \<Rightarrow> bool" where
  "asked_first F h \<longleftrightarrow>
     (\<forall>k name vendor attrs d ok.
        k < length h \<and> h ! k = SetVariable name vendor attrs d ok \<and> name \<in> set loader_variables \<longrightarrow>
        (\<exists>j < k. h ! j = GetVariable name vendor \<and> unset (fw_get_variable F (take j h) name vendor 1)))"

lemma asked_first_Nil: "asked_first F []"
  by (simp add: asked_first_def)

lemma asked_first_snoc:
  assumes "asked_first F h"
    "\<And>name vendor attrs d ok. e = SetVariable name vendor attrs d ok \<Longrightarrow> name \<in> set loader_variables \<Longrightarrow>
      \<exists>j < length h. h ! j = GetVariable name vendor \<and> unset (fw_get_variable F (take j h) name vendor 1)"
  shows "asked_first F (h @ [e])"
  unfolding asked_first_def
proof (intro allI impI)
  fix k name vendor attrs d ok
  assume k: "k < length (h @ [e]) \<and> (h @ [e]) ! k = SetVariable name vendor attrs d ok \<and> name \<in> set loader_variables"
  have "\<exists>j < k. h ! j = GetVariable name vendor \<and> unset (fw_get_variable F (take j h) name vendor 1) \<and> j < length h"
  proof (cases "k < length h")
    case True
    then show ?thesis using assms(1) k unfolding asked_first_def by (metis less_trans nth_append)
  next
    case False
    then have "k = length h" using k by simp
    then show ?thesis using assms(2) k by fastforce
  qed
  then show "\<exists>j < k. (h @ [e]) ! j = GetVariable name vendor \<and>
      unset (fw_get_variable F (take j (h @ [e])) name vendor 1)"
    by (auto simp: nth_append)
qed

lemma asked_first_append:
  "asked_first F h \<Longrightarrow> list_all (\<lambda>e. \<not> sets_loader_variable e) ev \<Longrightarrow> asked_first F (h @ ev)"
proof (induction ev rule: rev_induct)
  case (snoc e ev)
  then have "asked_first F ((h @ ev) @ [e])" by (intro asked_first_snoc) auto
  then show ?case by simp
qed simp

subsection \<open>Runs that ask first\<close>

named_theorems polite_intros \<open>runs that set no variable of the boot loader without asking\<close>

definition polite :: "firmware \<Rightarrow> 'a uefi \<Rightarrow> bool" where
  "polite F m \<longleftrightarrow> (\<forall>h. asked_first F h \<longrightarrow> asked_first F (snd (m h)))"

lemma polite_emits: "emits (\<lambda>e. \<not> sets_loader_variable e) m \<Longrightarrow> polite F m"
  unfolding emits_def polite_def using asked_first_append by metis

lemma polite_bind [polite_intros]: "polite F m \<Longrightarrow> (\<And>a. polite F (f a)) \<Longrightarrow> polite F (bind_u m f)"
  unfolding polite_def bind_u_def by (fastforce split: prod.splits flow.splits)

lemma polite_pure [polite_intros]: "polite F (ret_u a)" "polite F (fail_u s)" "polite F panic_u"
  by (intro polite_emits emits_intros)+

lemma polite_try [polite_intros]: "polite F m \<Longrightarrow> polite F (try_u m)"
  by (simp add: polite_def event_of_try)

lemma polite_if [polite_intros]: "polite F m \<Longrightarrow> polite F n \<Longrightarrow> polite F (if c then m else n)"
  by simp

lemma polite_sum [polite_intros]:
  "(\<And>s. polite F (f s)) \<Longrightarrow> (\<And>a. polite F (g a)) \<Longrightarrow> polite F (case r of Inl s \<Rightarrow> f s | Inr a \<Rightarrow> g a)"
  by (cases r) auto

lemma polite_pair [polite_intros]: "(\<And>a b. polite F (f a b)) \<Longrightarrow> polite F (case p of (a, b) \<Rightarrow> f a b)"
  by (cases p) auto

lemma polite_finally [polite_intros]: "polite F m \<Longrightarrow> polite F d \<Longrightarrow> polite F (finally_u m d)"
  unfolding finally_u_def by (intro polite_intros)

lemma polite_expect [polite_intros]: "polite F m \<Longrightarrow> polite F (expect_u m)"
  unfolding expect_u_def by (intro polite_intros)

lemma polite_ignore [polite_intros]: "polite F m \<Longrightarrow> polite F (ignore_u m)"
  unfolding ignore_u_def by (intro polite_intros)

interpretation polite: reporting "\<lambda>e. \<not> sets_loader_variable e"
  by unfold_locales

lemma polite_with_protocol [polite_intros]: "polite F m \<Longrightarrow> polite F (with_protocol F p d m)"
  unfolding with_protocol_def
  by (intro polite_intros polite_emits [OF polite.emits_open] polite_emits [OF polite.emits_close])

subsection \<open>Exporting\<close>

lemma variable_exists_run:
  assumes "try_u (variable_exists F name vendor) h = (r, h')"
  shows "h' = h @ [GetVariable name vendor]" "r \<noteq> Val (Inr True) \<Longrightarrow> unset (fw_get_variable F h name vendor 1)"
  using assms
  by (auto simp: try_u_def variable_exists_def bind_u_def get_variable_def call_def Let_def ret_u_def fail_u_def unset_def
      split: sum.splits status.splits)

lemma polite_ensure:
  assumes v: "emits (\<lambda>e. \<not> sets_loader_variable e) v"
  shows "polite F (ensure_efi_variable F name vendor attrs v)"
  unfolding polite_def
proof (intro allI impI)
  fix h
  assume h: "asked_first F h"
  obtain r h1 where r: "try_u (variable_exists F name vendor) h = (r, h1)" by fastforce
  note asked = variable_exists_run [OF r]
  have h1: "asked_first F h1" using asked_first_append [OF h, of "[GetVariable name vendor]"] asked(1) by simp
  show "asked_first F (snd (ensure_efi_variable F name vendor attrs v h))"
  proof (cases "\<exists>e. r = Val e \<and> e \<noteq> Inr True")
    case True
    obtain q h2 where q: "v h1 = (q, h2)" by fastforce
    then obtain ev where ev: "h2 = h1 @ ev" "list_all (\<lambda>e. \<not> sets_loader_variable e) ev" using emitsD [OF v] by blast
    then have h2: "asked_first F h2" using asked_first_append [OF h1] by simp
    have "length h < length h2 \<and> h2 ! length h = GetVariable name vendor \<and>
        unset (fw_get_variable F (take (length h) h2) name vendor 1)"
      using asked ev True by (auto simp: nth_append)
    then have "asked_first F (h2 @ [SetVariable name vendor attrs d ok])" for d ok
      by (intro asked_first_snoc [OF h2]) auto
    then show ?thesis
      using r q True h2
      by (cases q) (auto simp: ensure_efi_variable_def bind_u_def set_variable_def call_def Let_def)
  next
    case False
    then show ?thesis using r h1 by (cases r) (auto simp: ensure_efi_variable_def bind_u_def ret_u_def)
  qed
qed

lemma polite_set_stub_variable: "name \<notin> set loader_variables \<Longrightarrow> polite F (set_variable F name vendor attrs d)"
  by (intro polite_emits polite.emits_set_stub_variable)

lemma polite_export: "polite F (export_efi_variables F nm)"
  unfolding export_efi_variables_def
  by (intro polite_intros polite_ensure polite.emits_values emits_intros polite_set_stub_variable)
    (simp_all add: loader_variables_def)

lemma polite_boot_linux: "polite F (boot_linux F d c dyn)"
proof -
  let ?A = "\<lambda>e. \<not> sets_loader_variable e"
  have opts: "emits ?A (set_load_options os)" for os
    unfolding set_load_options_def by (intro emits_intros) simp_all
  have kernel: "emits ?A (run_kernel F d k)" for k
    using emits_run_kernel by (rule emits_mono) simp
  have load: "emits ?A (load F kf)" for kf
    unfolding load_def allocate_pages_def Let_def by (intro emits_intros) simp
  have start: "emits ?A (start F k d cmd)" for k cmd
    unfolding start_def start_held_def restore_image_def free_pages_def case_prod_beta
    by (intro emits_intros polite.emits_open polite.emits_close opts kernel) simp_all
  have loader: "emits ?A (InitrdLoader_new F d r)" "emits ?A (uninstall F l)" "emits ?A (drop_loader l)" for r l
    unfolding InitrdLoader_new_def uninstall_def drop_loader_def install_protocol_interface_def
      uninstall_protocol_interface_def
    by (intro emits_intros; simp)+
  show ?thesis
    unfolding boot_linux_def boot_linux_unchecked_def
    by (intro polite_emits emits_intros polite.emits_get_cmdline load start loader)
qed

lemmas polite_parts = polite.emits_tpm_available polite.emits_booted_image_file polite.emits_load_from_pe
  polite.emits_measure_image polite.emits_get_loader_features polite.emits_collect_companions

lemma polite_stub_main: "polite F (stub_main F nm)"
  unfolding stub_main_def prepare_def status_of_def
  by (intro polite_intros polite_export polite_boot_linux polite_parts [THEN polite_emits])

text \<open>
  C31: The stub never overwrites a variable of the boot loader. Whenever it sets one of the variables that describe
  the boot, it has asked the firmware for that variable before, and the answer did not report that it exists.\<close>

theorem stub_keeps_loader_variables: "asked_first F (snd (stub_main F nm []))"
  using polite_stub_main asked_first_Nil unfolding polite_def by blast

end
