(* ===== verification/Spec2Isabelle.thy ===== *)
theory Spec2Isabelle
  imports Install_Properties Install_Names Command_Line Specialisations Measure_Properties Loader_Properties Exclusive_Use
    Built_Image Kernel_Return Stub_Variables
begin

text \<open>
  Lanzaboote boots NixOS with Secure Boot. It consists of two Rust programs. The \<^emph>\<open>tool\<close>
  (\<open>rust/tool\<close>) runs in the installed system: for each system generation it assembles an image
  out of the boot stub, the command line, and the paths and hashes of kernel and initrd, signs it and
  places everything on the EFI system partition (ESP). The \<^emph>\<open>stub\<close> (\<open>rust/uefi\<close>) is the code of
  these images: the firmware verifies the signature of the image and runs it, the stub reads kernel and
  initrd from the ESP, compares their hashes with those in the image, and starts the kernel. The
  signature thereby covers the files that are not part of the signed image. The two programs meet in
  the image: its sections and the format of their contents.

  All paths of sources below are relative to \<open>rust/\<close>.

  \<^bold>\<open>How the code is modelled.\<close> Every function of the Rust code is a HOL function of the same
  name, total and, but for the equality of functions in its parameters, executable. Machine integers are
  words of their width, with wrap-around and checked operations where the code has them; byte
  strings and texts are lists of characters that stand for bytes (texts are valid UTF-8); a
  \<open>Result\<close> is an \<open>outcome\<close> with the constructors \<open>Ok\<close>, \<open>Err\<close> and \<open>Panic\<close>, so that panics of slice
  bounds, \<open>expect\<close> and assertions are branches of the model.

  Loops are structural recursions on the lists they traverse; there is no fuel anywhere, and no
  function is partial. What may not come back is the kernel: calling it may end a run with \<open>Gone\<close>.

  The tool is a computation over a \<open>world\<close> (\<open>File_System\<close>): the file system, all its former states,
  and a list of injected I/O faults, one for each system call, where a failing write may leave any prefix
  of its data. Statements about all states a run passes through are thus statements about every
  crash. The stub is a computation over the \<^emph>\<open>history\<close> of its calls to the firmware (\<open>Uefi\<close>): the
  firmware is a record of functions of the history, so its answers may depend in any way on what
  happened before, and nothing about them is assumed unless a theorem says so. Reading
  the companion files of one archive is one event of the history.

  \<^bold>\<open>What is a parameter.\<close> Code that is not part of the repository is an argument of the model. For
  the tool it is the record \<open>env\<close> (\<open>Tool_Env\<close>): SHA-256, base 32, the PE parser, JSON and the bootspec
  crate, the time crate, random characters, the regex class of digits, temporary directories, the
  directory walker, and the child processes (\<open>sbsign\<close>, \<open>sbverify\<close>, \<open>objcopy\<close>, \<open>systemd-pcrlock\<close>, the
  script for initrd secrets). For the stub it is the record \<open>firmware\<close> (\<open>Uefi\<close>): the UEFI services,
  the PE parser, SHA-256, conversions of UTF-16 strings, and the kernel that is called. A theorem that
  relies on documented behaviour of such code has it as a hypothesis, and a witness instantiates
  the record with concrete functions (\<open>sample_env\<close> in \<open>Gc\<close>, \<open>site_env\<close> in \<open>Install_Properties\<close>,
  \<open>sample_firmware\<close> in \<open>Sample_Firmware\<close>). Among these hypotheses are: a directory walk reports
  only what is below the directory (\<open>walk_sound\<close>), signing with the local key pair meets
  \<open>signer_contract\<close>, and in \<open>Built_Image\<close> that \<open>objcopy\<close> attaches the sections it is told to.

  \<^bold>\<open>Shared theories.\<close>
  \<^item> \<open>Prelude\<close>: outcomes, bytes and their little-endian words, decimal numbers, UTF-8 validity,
    splitting and joining of texts, and the lemmas on words and lists that all components use.
  \<^item> \<open>Rust_Path\<close>: paths of the standard library as lists of components.
  \<^item> \<open>File_System\<close>, \<open>Tool_Env\<close>: the world of the tool, its system calls, its parameters and temporary
    files (\<open>tool/shared/src/utils.rs\<close>). The locale \<open>node_store\<close> is the interface of the store.
  \<^item> \<open>Io_Frame\<close>: the calculus of \<open>keeps R m\<close>, by which every step of a run of \<open>m\<close> is in the relation
    \<open>R\<close>. The locales \<open>fs_relation\<close> and \<open>path_relation\<close> give one rule for each system call and
    combinator, and are interpreted for equality, for protecting a set of paths, and for files that
    appear in one step.
  \<^item> \<open>Uefi\<close>, \<open>Uefi_Trace\<close>: the stub's firmware, histories and runs, and the calculi of delivered values
    (\<open>flow_simps\<close>) and added events (\<open>emits_intros\<close>). The locales \<open>browsing\<close>, \<open>reading\<close>, \<open>reporting\<close>
    and \<open>housekeeping\<close> say which parts of the stub add only events of a given class.

  \<^bold>\<open>The stub.\<close>
  \<^item> \<open>Cpio_Writer\<close>, \<open>Cpio_Newc\<close>, \<open>Cpio_Pack\<close> model \<open>uefi/pio/src\<close> and \<open>uefi/linux-bootloader/src/cpio.rs\<close>.
    \<open>Cpio_Newc\<close> has the format of newc archives with a reader for it; writing what \<open>pack_cpio\<close> packs and reading
    it returns the files, every archive that the operations reach is aligned, the order in which
    the firmware lists files does not matter, and the length checks are right, but for names of
    nearly four gigabytes, on which the writer panics.
  \<^item> \<open>Stub_Image\<close> models \<open>uefi_helpers.rs\<close> and \<open>unified_sections.rs\<close>: reading a section yields well-formed
    contents, nothing, or a panic for a section that reaches beyond the image. The sections
    are ordered through the class \<open>linorder\<close>.
  \<^item> \<open>Companions\<close>, \<open>Measure\<close>, \<open>Efi_Vars\<close> model \<open>companions.rs\<close>, \<open>tpm.rs\<close>, \<open>measure.rs\<close> and \<open>efivars.rs\<close>;
    \<open>Measure_Properties\<close> shows that the events in the TPM log are exactly the sections of the image, and exactly
    the companions handed over; \<open>Stub_Variables\<close> that variables of the boot loader are not overwritten.
  \<^item> \<open>Pe_Loader\<close>, \<open>Linux_Loader\<close> model \<open>pe_loader.rs\<close> and \<open>linux_loader.rs\<close>; \<open>Loader_Properties\<close> shows that
    loading refines the section table byte by byte, and how the kernel receives the initrd.
  \<^item> \<open>Stub\<close> models \<open>uefi/stub/src\<close>. \<open>Stub_Run\<close> takes apart a run that starts a kernel, \<open>Stub_Progress\<close> shows
    which runs neither panic nor fail, and \<open>Stub_Properties\<close> has the properties of whole runs: only verified
    files are started, the command line under Secure Boot, the measurement of a foreign command line, the
    path to the kernel, and what a wrong hash does. \<open>Exclusive_Use\<close> is a step relation on the protocols
    held, which every run follows; \<open>Kernel_Return\<close> is what happens when the kernel comes back.

  \<^bold>\<open>The tool.\<close>
  \<^item> \<open>Generation\<close>, \<open>Specialisations\<close>, \<open>Os_Release\<close> model \<open>generation.rs\<close> and \<open>os_release.rs\<close> of
    \<open>tool/shared/src\<close>: versions of links, reading a specification with all its nested specialisations, and
    the round trip of os-release texts, over the interface \<open>ordered_map\<close> for the map they are kept in.
  \<^item> \<open>Pe_Image\<close>, \<open>Section_Placement\<close>, \<open>Staged_Files\<close> model \<open>pe.rs\<close>: the sections added to the stub, where they
    are placed, and the temporary files they are taken from.
  \<^item> \<open>Esp_Paths\<close>, \<open>Signer\<close>, \<open>Gc\<close>, \<open>Systemd_Version\<close> model \<open>esp.rs\<close> and \<open>architecture.rs\<close> of both crates,
    \<open>signature\<close>, \<open>gc.rs\<close>, \<open>pcrlock.rs\<close> and \<open>version.rs\<close>: the collection removes garbage and nothing else, and
    versions are linearly ordered through the class \<open>linorder\<close>. \<open>signer_contract\<close> is what the
    installer relies on in a signer; it is interpreted for the signer without keys.
  \<^item> \<open>Installer\<close>, \<open>Command_Line\<close> model \<open>install.rs\<close> and \<open>cli.rs\<close> of \<open>tool/systemd/src\<close>. \<open>Install_Safety\<close> and
    \<open>Install_Site\<close> show for each operation, under any faults, that it makes only the changes the relation
    \<open>boot_rel\<close> allows; the locale \<open>install_site\<close> collects what is known of the site. \<open>Install_Properties\<close> draws
    the conclusions for whole installations, \<open>Install_Names\<close> for names, paths and the configuration limit,
    \<open>Command_Line\<close> for the choice of the signer and refused invocations.

  \<^bold>\<open>Both together.\<close> \<open>Built_Image\<close> runs the stub's \<open>load_from_pe\<close> on the image that the tool's
  \<open>lanzaboote_image\<close> assembled: the stub reads back what the tool put in and accepts the files the
  tool hashed.

  \<^bold>\<open>Not modelled.\<close> Log output and the splash text; the argument parser (generated by clap) and the
  set-up of the logger; \<open>make_instruction_cache_coherent\<close> in \<open>pe_loader.rs\<close> (inline assembly
  without an effect on data); \<open>uefi/pio/src/packer.rs\<close>, which no crate compiles; the flags of the loader
  features that the code neither reads nor writes, but as a mask; module declarations, the Nix expressions,
  the tests and the documentation.
\<close>

end
